theory Spec2Isabelle
  imports Main "HOL-Library.Multiset"
begin

section \<open>JavaScript strings\<close>

text \<open>
  The exceptions that end a run: a \<^verbatim>\<open>TypeError\<close> or \<^verbatim>\<open>ReferenceError\<close> of the
  language, the \<^verbatim>\<open>SyntaxError\<close> of \<^verbatim>\<open>JSON.parse\<close>, a request that the
  transport rejects, and \<open>NoFilms\<close> for the exit that follows the test on the films.
\<close>

datatype exn = TypeError | ReferenceError | SyntaxError | FetchRejected | NoFilms

text \<open>
  A JavaScript string is modelled as the list of its code units, a \<^typ>\<open>string\<close>; a
  \<^typ>\<open>char\<close> stands for the code unit of the same number, so the model covers the
  strings whose code units are below 256. \<open>isWhiteSpace\<close> is the set that
  \<^verbatim>\<open>String.prototype.trim\<close>, the regular expression class \<^verbatim>\<open>\s\<close> and
  \<^verbatim>\<open>Number\<close> strip: TAB, LF, VT, FF, CR, SP and NBSP in that range.
\<close>

definition isWhiteSpace :: "char \<Rightarrow> bool" where
  "isWhiteSpace c =
     (c = CHR 0x09 \<or> c = CHR 0x0A \<or> c = CHR 0x0B \<or> c = CHR 0x0C \<or> c = CHR 0x0D
      \<or> c = CHR 0x20 \<or> c = CHR 0xA0)"

definition trim :: "string \<Rightarrow> string" where
  "trim s = rev (dropWhile isWhiteSpace (rev (dropWhile isWhiteSpace s)))"

fun startsWith :: "string \<Rightarrow> string \<Rightarrow> bool" where
  "startsWith s [] = True"
| "startsWith [] (p # ps) = False"
| "startsWith (c # cs) (p # ps) = (c = p \<and> startsWith cs ps)"

text \<open>\<^verbatim>\<open>s.includes(sub)\<close>: \<open>sub\<close> occurs in \<open>s\<close> as a contiguous run.\<close>

fun strIncludes :: "string \<Rightarrow> string \<Rightarrow> bool" where
  "strIncludes [] sub = (sub = [])"
| "strIncludes (c # cs) sub = (startsWith (c # cs) sub \<or> strIncludes cs sub)"

text \<open>
  \<^verbatim>\<open>s.split(sep)\<close> for a string separator: the text is cut at every occurrence of
  \<open>sep\<close>, found from left to right without overlap; \<open>acc\<close> holds the current piece
  in reverse. An empty separator cuts between all code units.
\<close>

function splitAcc :: "string \<Rightarrow> string \<Rightarrow> string \<Rightarrow> string list" where
  "splitAcc sep acc [] = [rev acc]"
| "splitAcc sep acc (c # cs) =
     (if sep \<noteq> [] \<and> startsWith (c # cs) sep
      then rev acc # splitAcc sep [] (drop (length sep) (c # cs))
      else splitAcc sep (c # acc) cs)"
  by pat_completeness auto
termination
  by (relation "measure (\<lambda>(sep, acc, s). length s)") auto

definition split :: "string \<Rightarrow> string \<Rightarrow> string list" where
  "split s sep = (if sep = [] then map (\<lambda>c. [c]) s else splitAcc sep [] s)"

text \<open>\<^verbatim>\<open>a[i] || ""\<close> on an array of strings: a missing or empty element gives \<open>""\<close>.\<close>

definition nthOrEmpty :: "string list \<Rightarrow> nat \<Rightarrow> string" where
  "nthOrEmpty xs i = (if i < length xs then xs ! i else [])"

text \<open>\<^verbatim>\<open>s.indexOf(c)\<close> for one code unit: \<open>None\<close> is the result \<open>-1\<close>.\<close>

fun indexOf :: "string \<Rightarrow> char \<Rightarrow> nat option" where
  "indexOf [] c = None"
| "indexOf (x # xs) c = (if x = c then Some 0 else map_option Suc (indexOf xs c))"

subsection \<open>Decimal digits\<close>

definition isDigit :: "char \<Rightarrow> bool" where
  "isDigit c = (48 \<le> (of_char c :: nat) \<and> (of_char c :: nat) \<le> 57)"

definition digitVal :: "char \<Rightarrow> nat" where
  "digitVal c = of_char c - 48"

definition digitsVal :: "string \<Rightarrow> nat" where
  "digitsVal ds = foldl (\<lambda>n c. 10 * n + digitVal c) 0 ds"

definition digitChar :: "nat \<Rightarrow> char" where
  "digitChar n = char_of (48 + n)"

text \<open>The decimal text of a natural number, as a template literal prints an integer.\<close>

function showNat :: "nat \<Rightarrow> string" where
  "showNat n = (if n < 10 then [digitChar n] else showNat (n div 10) @ [digitChar (n mod 10)])"
  by pat_completeness auto
termination
  by (relation "measure id") auto

declare showNat.simps [simp del]

definition showInt :: "int \<Rightarrow> string" where
  "showInt i = (if i < 0 then CHR ''-'' # showNat (nat (- i)) else showNat (nat i))"

text \<open>\<^verbatim>\<open>s.padStart(2, "0")\<close>.\<close>

definition padStart2 :: "string \<Rightarrow> string" where
  "padStart2 s = replicate (2 - length s) (CHR ''0'') @ s"

section \<open>Numbers\<close>

text \<open>
  The result of \<^verbatim>\<open>Number(s)\<close>. \<open>Integer i\<close> is the double whose value is the integer
  \<open>i\<close>, used for magnitudes up to \<open>2 ^ 53\<close>, where every integer is a double.
  \<open>Float lit\<close> stands for the double that the numeric literal \<open>lit\<close> denotes, for the
  literals this development does not evaluate (a fraction, an exponent, a radix prefix,
  \<^verbatim>\<open>Infinity\<close>, or an integer above \<open>2 ^ 53\<close>): it is carried symbolically, and the
  program never compares or computes with it. The sign of zero is not kept
  (\<^verbatim>\<open>String(-0)\<close> is \<^verbatim>\<open>"0"\<close>, and the program only prints the number).
\<close>

datatype number = NaN | Integer int | Float string

definition isHexDigit :: "char \<Rightarrow> bool" where
  "isHexDigit c = (isDigit c \<or> c \<in> set ''abcdefABCDEF'')"

definition isOctalDigit :: "char \<Rightarrow> bool" where
  "isOctalDigit c = (c \<in> set ''01234567'')"

definition isBinaryDigit :: "char \<Rightarrow> bool" where
  "isBinaryDigit c = (c \<in> set ''01'')"

definition isDigits :: "string \<Rightarrow> bool" where
  "isDigits ds = (ds \<noteq> [] \<and> list_all isDigit ds)"

text \<open>\<open>ExponentPart\<close> of the grammar, or nothing.\<close>

definition isExponentOpt :: "string \<Rightarrow> bool" where
  "isExponentOpt r =
     (case r of
        [] \<Rightarrow> True
      | e # r1 \<Rightarrow> (e = CHR ''e'' \<or> e = CHR ''E'') \<and>
          (case r1 of
             [] \<Rightarrow> False
           | sg # r2 \<Rightarrow> if sg = CHR ''+'' \<or> sg = CHR ''-'' then isDigits r2 else isDigits r1))"

text \<open>
  \<open>StrUnsignedDecimalLiteral\<close>: \<^verbatim>\<open>Infinity\<close>, digits with an optional fraction,
  or a fraction that starts with the point, each but the first with an optional exponent.
\<close>

definition isUnsignedDecimal :: "string \<Rightarrow> bool" where
  "isUnsignedDecimal t =
     (t = ''Infinity'' \<or>
      (let ip = takeWhile isDigit t; r1 = dropWhile isDigit t in
       case r1 of
         [] \<Rightarrow> ip \<noteq> []
       | d # r2 \<Rightarrow>
           if d = CHR ''.''
           then (ip \<noteq> [] \<or> takeWhile isDigit r2 \<noteq> []) \<and> isExponentOpt (dropWhile isDigit r2)
           else ip \<noteq> [] \<and> isExponentOpt r1))"

text \<open>\<open>NonDecimalIntegerLiteral\<close>: a radix prefix and digits of that radix, unsigned.\<close>

definition isNonDecimalInteger :: "string \<Rightarrow> bool" where
  "isNonDecimalInteger t =
     (case t of
        z # x # ds \<Rightarrow> z = CHR ''0'' \<and> ds \<noteq> [] \<and>
          ((x \<in> set ''xX'' \<and> list_all isHexDigit ds) \<or>
           (x \<in> set ''oO'' \<and> list_all isOctalDigit ds) \<or>
           (x \<in> set ''bB'' \<and> list_all isBinaryDigit ds))
      | _ \<Rightarrow> False)"

definition stripSign :: "string \<Rightarrow> string" where
  "stripSign t = (case t of [] \<Rightarrow> [] | c # r \<Rightarrow> if c = CHR ''+'' \<or> c = CHR ''-'' then r else t)"

definition isNumericLiteral :: "string \<Rightarrow> bool" where
  "isNumericLiteral t = (isUnsignedDecimal (stripSign t) \<or> isNonDecimalInteger t)"

text \<open>
  \<^verbatim>\<open>Number(s)\<close> on a string: white space is stripped at both ends; the empty text is
  \<open>0\<close>; a signed run of decimal digits of magnitude up to \<open>2 ^ 53\<close> is that integer;
  any other numeric literal is carried as \<open>Float\<close>; everything else is \<open>NaN\<close>.
\<close>

definition Number :: "string \<Rightarrow> number" where
  "Number s =
     (let t = trim s; u = stripSign t in
      if t = [] then Integer 0
      else if isDigits u \<and> digitsVal u \<le> 2 ^ 53
      then Integer (if hd t = CHR ''-'' then - int (digitsVal u) else int (digitsVal u))
      else if isNumericLiteral t then Float t
      else NaN)"

section \<open>Showtime keys and labels\<close>

text \<open>
  \<^verbatim>\<open>parseSeanceKey\<close> and \<^verbatim>\<open>parseSeanceLabel\<close> are the same in both listings of
  \<^verbatim>\<open>index.js\<close>. Every operation they use (\<^verbatim>\<open>split\<close>, \<^verbatim>\<open>Number\<close>, \<^verbatim>\<open>trim\<close>,
  \<^verbatim>\<open>||\<close>) returns on every string, so the model has no error branch. The fields of
  the two results carry a prefix, since the row record below uses the plain names.
\<close>

record seanceKey =
  key_ts :: number
  key_version :: string
  key_seanceId :: string

record seanceLabel =
  lbl_time :: string
  lbl_version :: string
  lbl_audio :: string

definition parseSeanceKey :: "string \<Rightarrow> seanceKey" where
  "parseSeanceKey key =
     (let parts = split key ''/'' in
      \<lparr>key_ts = (case parts of [] \<Rightarrow> NaN | p # _ \<Rightarrow> Number p),
       key_version = nthOrEmpty parts 1, key_seanceId = nthOrEmpty parts 2\<rparr>)"

definition parseSeanceLabel :: "string \<Rightarrow> seanceLabel" where
  "parseSeanceLabel label =
     (let chunks = map trim (split label '' - '') in
      \<lparr>lbl_time = nthOrEmpty chunks 0, lbl_version = nthOrEmpty chunks 1,
       lbl_audio = nthOrEmpty chunks 2\<rparr>)"

section \<open>Markup\<close>

text \<open>
  The markup-query library (\<^verbatim>\<open>cheerio\<close>) is a collaborator: it parses the text of a
  page into a tree and answers selector queries on it. The model starts from the parsed
  tree. An element has its tag name and its attributes as the parser leaves them (names
  in lower case, the first of a repeated attribute kept) and its children in document
  order; comments and the document type hold neither elements nor text and are left out.
\<close>

datatype node = Element string "(string \<times> string) list" "node list" | TextNode string

text \<open>The attribute as the parser left it, which is what a selector tests.\<close>

fun rawAttr :: "node \<Rightarrow> string \<Rightarrow> string option" where
  "rawAttr (Element tg as cs) name = map_of as name"
| "rawAttr (TextNode t) name = None"

text \<open>\<^verbatim>\<open>$(el).text()\<close>: the text nodes below the element, joined in document order.\<close>

fun textOf :: "node \<Rightarrow> string" where
  "textOf (TextNode t) = t"
| "textOf (Element tg as cs) = concat (map textOf cs)"

text \<open>
  \<^verbatim>\<open>$(el).attr(name)\<close>: \<open>None\<close> is \<^verbatim>\<open>undefined\<close>. The library gives the
  attribute that is there, a boolean attribute as its own name; for an \<^verbatim>\<open>option\<close>
  without the attribute \<^verbatim>\<open>value\<close> it gives the text of the option, and for a radio
  button or a checkbox without it the text \<^verbatim>\<open>on\<close>.
\<close>

definition booleanAttrs :: "string list" where
  "booleanAttrs =
     [''autofocus'', ''autoplay'', ''async'', ''checked'', ''controls'', ''defer'', ''disabled'',
      ''hidden'', ''loop'', ''multiple'', ''open'', ''readonly'', ''required'', ''scoped'',
      ''selected'']"

fun attr :: "node \<Rightarrow> string \<Rightarrow> string option" where
  "attr (Element tg as cs) name =
     (case map_of as name of
        Some v \<Rightarrow> if name \<in> set booleanAttrs then Some name else Some v
      | None \<Rightarrow>
          if tg = ''option'' \<and> name = ''value'' then Some (concat (map textOf cs))
          else if tg = ''input'' \<and> name = ''value''
                  \<and> (map_of as ''type'' = Some ''radio'' \<or> map_of as ''type'' = Some ''checkbox'')
          then Some ''on''
          else None)"
| "attr (TextNode t) name = None"

text \<open>\<^verbatim>\<open>$(el).attr(name) || ""\<close>.\<close>

definition attrOr :: "node \<Rightarrow> string \<Rightarrow> string" where
  "attrOr e name = (case attr e name of None \<Rightarrow> [] | Some v \<Rightarrow> v)"

fun tagOf :: "node \<Rightarrow> string" where
  "tagOf (Element tg as cs) = tg"
| "tagOf (TextNode t) = []"

text \<open>The elements of a tree in document order, the root first.\<close>

fun elements :: "node \<Rightarrow> node list" where
  "elements (TextNode t) = []"
| "elements (Element tg as cs) = Element tg as cs # concat (map elements cs)"

definition docElements :: "node list \<Rightarrow> node list" where
  "docElements doc = concat (map elements doc)"

text \<open>An attribute selector \<^verbatim>\<open>[name*="sub"]\<close>: the attribute is there and holds \<open>sub\<close>.\<close>

definition attrContains :: "node \<Rightarrow> string \<Rightarrow> string \<Rightarrow> bool" where
  "attrContains e name sub = (case rawAttr e name of None \<Rightarrow> False | Some v \<Rightarrow> strIncludes v sub)"

subsection \<open>Films\<close>

record film =
  filmId :: string
  title :: string

text \<open>
  The selector \<^verbatim>\<open>#modresa_film option, select[name=modresa_film] option\<close>: the
  \<^verbatim>\<open>option\<close> elements that lie below an element with that id or below a
  \<^verbatim>\<open>select\<close> with that name, each once, in document order. \<open>inside\<close> says that
  an ancestor matched.
\<close>

fun optionsUnder :: "bool \<Rightarrow> node \<Rightarrow> node list" where
  "optionsUnder inside (TextNode t) = []"
| "optionsUnder inside (Element tg as cs) =
     (if inside \<and> tg = ''option'' then [Element tg as cs] else []) @
     concat (map (optionsUnder (inside \<or> map_of as ''id'' = Some ''modresa_film''
                    \<or> (tg = ''select'' \<and> map_of as ''name'' = Some ''modresa_film''))) cs)"

text \<open>
  The body of \<^verbatim>\<open>options.each\<close>: \<^verbatim>\<open>id\<close> is \<^verbatim>\<open>$(el).attr("value")\<close>, which for
  an option without that attribute is the text of the option.
\<close>

definition filmOfOption :: "node \<Rightarrow> film list" where
  "filmOfOption el =
     (case attr el ''value'' of
        None \<Rightarrow> []
      | Some v \<Rightarrow> if v \<noteq> [] \<and> trim v \<noteq> [] then [\<lparr>filmId = trim v, title = trim (textOf el)\<rparr>] else [])"

definition parseFilmsFromHTML :: "node list \<Rightarrow> film list" where
  "parseFilmsFromHTML doc = concat (map filmOfOption (concat (map (optionsUnder False) doc)))"

subsection \<open>The room\<close>

text \<open>
  The three regular expressions of \<^verbatim>\<open>extractSalle\<close>, each as the match at the start
  of a text; the result is capture group 1. With the flag \<^verbatim>\<open>i\<close> a letter of the
  pattern matches itself in either case and nothing else, below 256. \<^verbatim>\<open>\d{1,2}\<close> is
  greedy: two digits are tried first and one digit after them.
\<close>

definition toLowerAscii :: "char \<Rightarrow> char" where
  "toLowerAscii c =
     (if 65 \<le> (of_char c :: nat) \<and> (of_char c :: nat) \<le> 90 then char_of ((of_char c :: nat) + 32)
      else c)"

definition ciStartsWith :: "string \<Rightarrow> string \<Rightarrow> bool" where
  "ciStartsWith s p = startsWith (map toLowerAscii s) p"

text \<open>\<^verbatim>\<open>/sal_(\d{1,2})\.png/i\<close>\<close>

definition matchSalPngAt :: "string \<Rightarrow> string option" where
  "matchSalPngAt s =
     (if ciStartsWith s ''sal_''
      then (let r = drop 4 s; ds = takeWhile isDigit (take 2 r) in
            if length ds = 2 \<and> ciStartsWith (drop 2 r) ''.png'' then Some ds
            else if 1 \<le> length ds \<and> ciStartsWith (drop 1 r) ''.png'' then Some (take 1 ds)
            else None)
      else None)"

text \<open>\<^verbatim>\<open>/tag-SAL(\d{1,2})/i\<close>\<close>

definition matchTagSalAt :: "string \<Rightarrow> string option" where
  "matchTagSalAt s =
     (if ciStartsWith s ''tag-sal''
      then (let ds = takeWhile isDigit (take 2 (drop 7 s)) in if ds \<noteq> [] then Some ds else None)
      else None)"

text \<open>\<^verbatim>\<open>/salle\s*(\d{1,2})/i\<close>\<close>

definition matchSalleAt :: "string \<Rightarrow> string option" where
  "matchSalleAt s =
     (if ciStartsWith s ''salle''
      then (let ds = takeWhile isDigit (take 2 (dropWhile isWhiteSpace (drop 5 s))) in
            if ds \<noteq> [] then Some ds else None)
      else None)"

text \<open>
  \<^verbatim>\<open>s.match(re)\<close> without the flag \<^verbatim>\<open>g\<close>: the match at the leftmost offset
  where the expression matches, the end of the text included.
\<close>

fun firstMatch :: "(string \<Rightarrow> 'a option) \<Rightarrow> string \<Rightarrow> 'a option" where
  "firstMatch m [] = m []"
| "firstMatch m (c # cs) = (case m (c # cs) of Some r \<Rightarrow> Some r | None \<Rightarrow> firstMatch m cs)"

record salleInfo =
  salleNum :: string
  salleLabel :: string

text \<open>
  The chain of matches that both listings share: \<^verbatim>\<open>src\<close>, then \<^verbatim>\<open>class\<close>, then
  \<^verbatim>\<open>alt\<close>, then \<^verbatim>\<open>title\<close>; the first that matches gives the digits.
\<close>

definition salleDigits :: "node \<Rightarrow> string option" where
  "salleDigits img =
     (case firstMatch matchSalPngAt (attrOr img ''src'') of
        Some ds \<Rightarrow> Some ds
      | None \<Rightarrow>
     (case firstMatch matchTagSalAt (attrOr img ''class'') of
        Some ds \<Rightarrow> Some ds
      | None \<Rightarrow>
     (case firstMatch matchSalleAt (attrOr img ''alt'') of
        Some ds \<Rightarrow> Some ds
      | None \<Rightarrow> firstMatch matchSalleAt (attrOr img ''title''))))"

text \<open>
  The same order in the words of the specification: the marker families are tried one
  after the other and the first that matches wins.
\<close>

fun firstSome :: "'a option list \<Rightarrow> 'a option" where
  "firstSome [] = None"
| "firstSome (None # xs) = firstSome xs"
| "firstSome (Some x # xs) = Some x"

text \<open>What capture group 1 of the three expressions can hold: one or two decimal digits.\<close>

definition roomDigits :: "string \<Rightarrow> bool" where
  "roomDigits ds = (ds \<noteq> [] \<and> length ds \<le> 2 \<and> list_all isDigit ds)"

text \<open>
  \<^verbatim>\<open>{salleNum: num, salleLabel: `Salle ${parseInt(num, 10)}`}\<close> with
  \<^verbatim>\<open>num = m[1].padStart(2, "0")\<close>.
\<close>

definition numericSalle :: "string \<Rightarrow> salleInfo" where
  "numericSalle ds =
     (let num = padStart2 ds in
      \<lparr>salleNum = num, salleLabel = ''Salle '' @ showNat (digitsVal num)\<rparr>)"

definition noSalle :: salleInfo where
  "noSalle = \<lparr>salleNum = [], salleLabel = []\<rparr>"

definition salleICE :: salleInfo where
  "salleICE = \<lparr>salleNum = ''ICE'', salleLabel = ''Salle ICE''\<rparr>"

text \<open>
  The first listing (lines 125 to 153). Its first statement is
  \<^verbatim>\<open>const $ = require("cheerio").load(html)\<close>, and the file is an ES module (it opens
  with \<^verbatim>\<open>import\<close> declarations), where the name \<^verbatim>\<open>require\<close> is not defined:
  evaluating it throws a \<^verbatim>\<open>ReferenceError\<close>, whatever the page. The rest of the body
  is written out as it stands, for a \<^verbatim>\<open>require\<close> that would return a module.
\<close>

definition require :: "string \<Rightarrow> exn + ('a \<Rightarrow> node list)" where
  "require name = Inl ReferenceError"

definition isSalleImg1 :: "node \<Rightarrow> bool" where
  "isSalleImg1 e =
     (tagOf e = ''img'' \<and>
      (attrContains e ''src'' ''/img/tags/sal_'' \<or> attrContains e ''class'' ''tag-SAL''))"

definition extractSalle1 :: "'a \<Rightarrow> exn + salleInfo" where
  "extractSalle1 html =
     (case require ''cheerio'' of
        Inl e \<Rightarrow> Inl e
      | Inr load \<Rightarrow>
          Inr (case find isSalleImg1 (docElements (load html)) of
                 None \<Rightarrow> noSalle
               | Some img \<Rightarrow>
                   (case salleDigits img of
                      None \<Rightarrow> noSalle
                    | Some ds \<Rightarrow> numericSalle ds)))"

text \<open>The second listing (lines 411 to 438), with the ICE room.\<close>

definition isSalleImg2 :: "node \<Rightarrow> bool" where
  "isSalleImg2 e =
     (tagOf e = ''img'' \<and>
      (attrContains e ''src'' ''/img/tags/sal_'' \<or> attrContains e ''class'' ''tag-SAL''
       \<or> rawAttr e ''class'' = Some ''tag tag-ICEBYCGR''))"

definition extractSalle2 :: "node list \<Rightarrow> salleInfo" where
  "extractSalle2 doc =
     (case find isSalleImg2 (docElements doc) of
        None \<Rightarrow> noSalle
      | Some img \<Rightarrow>
          (case salleDigits img of
             Some ds \<Rightarrow> numericSalle ds
           | None \<Rightarrow>
               if attrOr img ''class'' = ''tag tag-ICEBYCGR''
               then salleICE
               else noSalle))"

subsection \<open>The reservation link\<close>

text \<open>\<^verbatim>\<open>$("#ffselplace").first().attr("action") || ""\<close>\<close>

definition extractReservationUrl :: "node list \<Rightarrow> string" where
  "extractReservationUrl doc =
     (case find (\<lambda>e. rawAttr e ''id'' = Some ''ffselplace'') (docElements doc) of
        None \<Rightarrow> []
      | Some form \<Rightarrow> attrOr form ''action'')"

section \<open>Values of response bodies\<close>

text \<open>
  The body that \<^verbatim>\<open>fetchWithJar\<close> returns is the text of the response (\<open>JStr\<close>) or
  what \<^verbatim>\<open>JSON.parse\<close> made of it. An object is the list of its own properties in
  the order \<^verbatim>\<open>Object.keys\<close> lists them, each key once. Numbers in a payload are
  taken to be integers of magnitude up to \<open>2 ^ 53\<close> (the program reads no number from a
  payload but through \<^verbatim>\<open>String\<close> and truthiness).
\<close>

datatype json =
  JNull | JBool bool | JNum int | JStr string | JArr "json list" | JObj "(string \<times> json) list"

text \<open>The truthiness that \<^verbatim>\<open>||\<close> and \<^verbatim>\<open>!\<close> test.\<close>

fun truthy :: "json \<Rightarrow> bool" where
  "truthy JNull = False"
| "truthy (JBool b) = b"
| "truthy (JNum i) = (i \<noteq> 0)"
| "truthy (JStr s) = (s \<noteq> [])"
| "truthy (JArr xs) = True"
| "truthy (JObj kvs) = True"

text \<open>\<^verbatim>\<open>body || ""\<close> and \<^verbatim>\<open>body || {}\<close>.\<close>

definition orEmptyString :: "json \<Rightarrow> json" where
  "orEmptyString b = (if truthy b then b else JStr [])"

definition orEmptyObject :: "json \<Rightarrow> json" where
  "orEmptyObject b = (if truthy b then b else JObj [])"

text \<open>\<^verbatim>\<open>a.join(sep)\<close> on strings.\<close>

fun joinWith :: "string \<Rightarrow> string list \<Rightarrow> string" where
  "joinWith sep [] = []"
| "joinWith sep [x] = x"
| "joinWith sep (x # y # ys) = x @ sep @ joinWith sep (y # ys)"

text \<open>
  \<^verbatim>\<open>String(v)\<close>; \<open>None\<close> is the \<^verbatim>\<open>TypeError\<close> it throws. An object of a
  payload prints as \<^verbatim>\<open>[object Object]\<close> by the method it inherits, unless it has a
  property \<^verbatim>\<open>toString\<close> of its own: a value of a payload is no function, and the
  conversion, left without a method that gives a primitive, throws. An array prints its
  elements joined by commas, \<^verbatim>\<open>null\<close> among them as the empty text, and throws
  where an element does.
\<close>

fun sequence :: "'a option list \<Rightarrow> 'a list option" where
  "sequence [] = Some []"
| "sequence (None # xs) = None"
| "sequence (Some x # xs) = map_option ((#) x) (sequence xs)"

fun jsString :: "json \<Rightarrow> string option" where
  "jsString JNull = Some ''null''"
| "jsString (JBool b) = Some (if b then ''true'' else ''false'')"
| "jsString (JNum i) = Some (showInt i)"
| "jsString (JStr s) = Some s"
| "jsString (JArr xs) =
     map_option (joinWith '','')
       (sequence (map (\<lambda>x. if x = JNull then Some [] else jsString x) xs))"
| "jsString (JObj kvs) =
     (if ''toString'' \<in> set (map fst kvs) then None else Some ''[object Object]'')"

text \<open>
  The own properties of a value that is neither \<^verbatim>\<open>null\<close> nor \<^verbatim>\<open>undefined\<close>,
  as pairs of a key and \<^verbatim>\<open>v[key]\<close>: those of an object; the indices and elements of
  an array; the indices and code units of a string; none for a number or a boolean.
  \<^verbatim>\<open>Object.keys(v)\<close> lists the keys, and the loops of \<^verbatim>\<open>main\<close> read
  \<^verbatim>\<open>v[key]\<close> for each of them.
\<close>

definition indexKeys :: "nat \<Rightarrow> string list" where
  "indexKeys n = map showNat [0..<n]"

fun objectEntries :: "json \<Rightarrow> (string \<times> json) list" where
  "objectEntries (JObj kvs) = kvs"
| "objectEntries (JArr xs) = zip (indexKeys (length xs)) xs"
| "objectEntries (JStr s) = zip (indexKeys (length s)) (map (\<lambda>c. JStr [c]) s)"
| "objectEntries v = []"

definition objectKeys :: "json \<Rightarrow> string list" where
  "objectKeys v = map fst (objectEntries v)"

section \<open>The cookie jar\<close>

text \<open>
  \<^verbatim>\<open>this.cookies\<close> is a plain object used as a dictionary: the list of its own
  properties in the order \<^verbatim>\<open>Object.entries\<close> lists them. That order has the keys
  that are array indices first, by number, and the other keys after them in the order
  they were created; writing an existing key keeps its place. A write to the key
  \<^verbatim>\<open>__proto__\<close> reaches the setter inherited from \<^verbatim>\<open>Object.prototype\<close>, which
  ignores a string, so no property is created.
\<close>

type_synonym cookies = "(string \<times> string) list"

text \<open>An array index: the decimal text, without a leading zero, of a number up to \<open>2 ^ 32 - 2\<close>.\<close>

definition isArrayIndex :: "string \<Rightarrow> bool" where
  "isArrayIndex k = (isDigits k \<and> (k = ''0'' \<or> hd k \<noteq> CHR ''0'') \<and> digitsVal k \<le> 4294967294)"

fun updateProp :: "cookies \<Rightarrow> string \<Rightarrow> string \<Rightarrow> cookies" where
  "updateProp [] k v = []"
| "updateProp ((k', v') # kvs) k v =
     (if k' = k then (k', v) # kvs else (k', v') # updateProp kvs k v)"

text \<open>A new index key goes before the first key that is no index or a larger one.\<close>

fun insertIndexProp :: "cookies \<Rightarrow> string \<Rightarrow> string \<Rightarrow> cookies" where
  "insertIndexProp [] k v = [(k, v)]"
| "insertIndexProp ((k', v') # kvs) k v =
     (if isArrayIndex k' \<and> digitsVal k' < digitsVal k then (k', v') # insertIndexProp kvs k v
      else (k, v) # (k', v') # kvs)"

text \<open>\<^verbatim>\<open>this.cookies[name] = value\<close>\<close>

definition setProp :: "cookies \<Rightarrow> string \<Rightarrow> string \<Rightarrow> cookies" where
  "setProp c k v =
     (if k = ''__proto__'' then c
      else if k \<in> set (map fst c) then updateProp c k v
      else if isArrayIndex k then insertIndexProp c k v
      else c @ [(k, v)])"

text \<open>
  What \<^verbatim>\<open>res.headers.get("set-cookie")\<close> returned: \<^verbatim>\<open>null\<close>, one string, or an
  array of strings (the case \<^verbatim>\<open>Array.isArray(raw)\<close> provides for).
\<close>

datatype rawHeader = NoHeader | One string | Many "string list"

text \<open>The body of the loop of \<^verbatim>\<open>setFrom\<close> for one directive \<open>sc\<close>.\<close>

definition setFromOne :: "cookies \<Rightarrow> string \<Rightarrow> cookies" where
  "setFromOne c sc =
     (let first = (case split sc '';'' of [] \<Rightarrow> [] | p # _ \<Rightarrow> p) in
      case indexOf first (CHR ''='') of
        None \<Rightarrow> c
      | Some eq \<Rightarrow> setProp c (trim (take eq first)) (trim (drop (eq + 1) first)))"

text \<open>\<^verbatim>\<open>setFrom(res)\<close>, the same in both listings. An empty string is falsy.\<close>

definition setFrom :: "cookies \<Rightarrow> rawHeader \<Rightarrow> cookies" where
  "setFrom c raw =
     (case raw of
        NoHeader \<Rightarrow> c
      | One s \<Rightarrow> if s = [] then c else setFromOne c s
      | Many arr \<Rightarrow> foldl setFromOne c arr)"

text \<open>
  \<^verbatim>\<open>header()\<close> of the first listing; the second computes the same text inside
  \<^verbatim>\<open>apply\<close>.
\<close>

definition header :: "cookies \<Rightarrow> string" where
  "header c = joinWith ''; '' (map (\<lambda>(k, v). k @ ''='' @ v) c)"

text \<open>
  Request headers are the list of their name and value pairs. \<^verbatim>\<open>headers.set\<close>
  replaces the value of a name that is there, compared without case, and appends
  otherwise.
\<close>

type_synonym headers = "(string \<times> string) list"

fun headersSet :: "headers \<Rightarrow> string \<Rightarrow> string \<Rightarrow> headers" where
  "headersSet [] n v = [(n, v)]"
| "headersSet ((n', v') # hs) n v =
     (if map toLowerAscii n' = map toLowerAscii n then (n', v) # hs
      else (n', v') # headersSet hs n v)"

text \<open>\<^verbatim>\<open>apply(headers)\<close>: \<^verbatim>\<open>if (jar) headers.set("Cookie", jar)\<close>.\<close>

definition applyJar :: "cookies \<Rightarrow> headers \<Rightarrow> headers" where
  "applyJar c hs = (let jar = header c in if jar \<noteq> [] then headersSet hs ''Cookie'' jar else hs)"

section \<open>Rows and the report\<close>

text \<open>
  The object that \<^verbatim>\<open>main\<close> pushes for a showtime. The first listing writes the eleven
  fields of \<open>row\<close>; the second adds \<^verbatim>\<open>reservation_url\<close>.
\<close>

record row =
  cinema :: string
  salle :: string
  salle_label :: string
  film_id :: string
  film_titre :: string
  date :: string
  heure :: string
  version :: string
  audio :: string
  seance_id :: string
  ts :: number

record row2 = row +
  reservation_url :: string

subsection \<open>Sorting\<close>

text \<open>
  \<^verbatim>\<open>localeCompare\<close> is the collation of the runtime, a collaborator: the comparator
  takes it as the parameter \<open>lc\<close>. The first listing tests each result against zero and
  the second chains them with \<^verbatim>\<open>||\<close>, which is the same function. A field of a row
  is a string, so \<^verbatim>\<open>a.salle || ""\<close> is the field.
\<close>

definition compareRows :: "(string \<Rightarrow> string \<Rightarrow> int) \<Rightarrow> 'a row_scheme \<Rightarrow> 'a row_scheme \<Rightarrow> int" where
  "compareRows lc a b =
     (let s = lc (salle a) (salle b) in
      if s \<noteq> 0 then s
      else (let d = lc (date a) (date b) in
            if d \<noteq> 0 then d else lc (heure a) (heure b)))"

text \<open>
  \<^verbatim>\<open>Array.prototype.sort\<close> is stable, and for a consistent comparator its result is
  the one sorted arrangement that keeps equal elements in their order. The model computes
  it by insertion: an element goes before the first later element that is not smaller.
\<close>

fun insertBy :: "('a \<Rightarrow> 'a \<Rightarrow> int) \<Rightarrow> 'a \<Rightarrow> 'a list \<Rightarrow> 'a list" where
  "insertBy cmp x [] = [x]"
| "insertBy cmp x (y # ys) = (if cmp x y \<le> 0 then x # y # ys else y # insertBy cmp x ys)"

definition sortBy :: "('a \<Rightarrow> 'a \<Rightarrow> int) \<Rightarrow> 'a list \<Rightarrow> 'a list" where
  "sortBy cmp xs = foldr (insertBy cmp) xs []"

text \<open>
  A consistent comparator: comparing the other way round flips the sign, and the order
  \<open>\<le> 0\<close> is transitive.
\<close>

definition consistent :: "('a \<Rightarrow> 'a \<Rightarrow> int) \<Rightarrow> bool" where
  "consistent cmp =
     ((\<forall>a b. (cmp a b < 0) = (0 < cmp b a)) \<and>
      (\<forall>a b c. cmp a b \<le> 0 \<and> cmp b c \<le> 0 \<longrightarrow> cmp a c \<le> 0))"

text \<open>The order of code units, as a comparator: the one collation the model can compute.\<close>

fun codeUnitCompare :: "string \<Rightarrow> string \<Rightarrow> int" where
  "codeUnitCompare [] [] = 0"
| "codeUnitCompare [] (y # ys) = - 1"
| "codeUnitCompare (x # xs) [] = 1"
| "codeUnitCompare (x # xs) (y # ys) =
     (if (of_char x :: nat) < of_char y then - 1
      else if (of_char y :: nat) < of_char x then 1
      else codeUnitCompare xs ys)"

subsection \<open>The table of the first listing\<close>

text \<open>
  A value of a row's field: a string, the number \<^verbatim>\<open>ts\<close>, or \<^verbatim>\<open>undefined\<close> for
  a name the row does not have. \<^verbatim>\<open>String\<close> of a number prints an integer in decimal
  and \<^verbatim>\<open>NaN\<close> by its name; for a number that is carried by its literal the text is
  the runtime's to give, the parameter \<open>fmt\<close>.
\<close>

datatype cell = CUndefined | CStr string | CNum number

definition numberString :: "(string \<Rightarrow> string) \<Rightarrow> number \<Rightarrow> string" where
  "numberString fmt n = (case n of NaN \<Rightarrow> ''NaN'' | Integer i \<Rightarrow> showInt i | Float lit \<Rightarrow> fmt lit)"

definition cellString :: "(string \<Rightarrow> string) \<Rightarrow> cell \<Rightarrow> string" where
  "cellString fmt c =
     (case c of CUndefined \<Rightarrow> ''undefined'' | CStr s \<Rightarrow> s | CNum n \<Rightarrow> numberString fmt n)"

text \<open>\<^verbatim>\<open>s.replaceAll('"', '""')\<close>, and \<^verbatim>\<open>s.replace(/"/g, '""')\<close> of the second listing.\<close>

definition doubleQuotes :: "string \<Rightarrow> string" where
  "doubleQuotes s = concat (map (\<lambda>c. if c = CHR 0x22 then [CHR 0x22, CHR 0x22] else [c]) s)"

definition csvEscape :: "(string \<Rightarrow> string) \<Rightarrow> cell \<Rightarrow> string" where
  "csvEscape fmt val =
     (if val = CUndefined then []
      else (let s = cellString fmt val in
            if strIncludes s '';'' \<or> strIncludes s [CHR 0x0A] \<or> strIncludes s [CHR 0x22]
            then [CHR 0x22] @ doubleQuotes s @ [CHR 0x22]
            else s))"

text \<open>\<^verbatim>\<open>r[h]\<close> for a row of the first listing.\<close>

definition rowGet :: "'a row_scheme \<Rightarrow> string \<Rightarrow> cell" where
  "rowGet r h =
     (if h = ''cinema'' then CStr (cinema r)
      else if h = ''salle'' then CStr (salle r)
      else if h = ''salle_label'' then CStr (salle_label r)
      else if h = ''film_id'' then CStr (film_id r)
      else if h = ''film_titre'' then CStr (film_titre r)
      else if h = ''date'' then CStr (date r)
      else if h = ''heure'' then CStr (heure r)
      else if h = ''version'' then CStr (version r)
      else if h = ''audio'' then CStr (audio r)
      else if h = ''seance_id'' then CStr (seance_id r)
      else if h = ''ts'' then CNum (ts r)
      else CUndefined)"

definition toCSV :: "(string \<Rightarrow> string) \<Rightarrow> row list \<Rightarrow> string list \<Rightarrow> string" where
  "toCSV fmt rows hdrs =
     joinWith [CHR 0x0A]
       (joinWith '';'' hdrs #
        map (\<lambda>r. joinWith '';'' (map (\<lambda>h. csvEscape fmt (rowGet r h)) hdrs)) rows)"

definition csvHeaders1 :: "string list" where
  "csvHeaders1 =
     [''cinema'', ''salle'', ''salle_label'', ''film_id'', ''film_titre'', ''date'', ''heure'',
      ''version'', ''audio'', ''seance_id'', ''ts'']"

subsection \<open>The table of the second listing\<close>

text \<open>\<^verbatim>\<open>row[h]\<close> for a row of the second listing, and \<^verbatim>\<open>Object.keys(rows[0])\<close>.\<close>

definition row2Get :: "row2 \<Rightarrow> string \<Rightarrow> cell" where
  "row2Get r h = (if h = ''reservation_url'' then CStr (reservation_url r) else rowGet r h)"

definition row2Keys :: "string list" where
  "row2Keys = csvHeaders1 @ [''reservation_url'']"

text \<open>\<^verbatim>\<open>String(v ?? "")\<close> in quotes, the quotes inside doubled; the cells joined by commas.\<close>

definition toCsvRow :: "(string \<Rightarrow> string) \<Rightarrow> cell list \<Rightarrow> string" where
  "toCsvRow fmt vals =
     joinWith '',''
       (map (\<lambda>v. [CHR 0x22] @ doubleQuotes (if v = CUndefined then [] else cellString fmt v)
                  @ [CHR 0x22]) vals)"

text \<open>The file system is a map from file names to contents; \<^verbatim>\<open>writeFileSync\<close> sets one.\<close>

type_synonym files = "string \<rightharpoonup> string"

definition saveCSV :: "(string \<Rightarrow> string) \<Rightarrow> string \<Rightarrow> row2 list \<Rightarrow> files \<Rightarrow> files" where
  "saveCSV fmt filename rows fs =
     (if rows = [] then fs
      else (let hdrs = row2Keys;
                lines = toCsvRow fmt (map CStr hdrs) #
                        map (\<lambda>r. toCsvRow fmt (map (row2Get r) hdrs)) rows
            in fs(filename \<mapsto> joinWith [CHR 0x0A] lines)))"

section \<open>Requests\<close>

record request =
  url :: string
  meth :: string
  headers :: headers
  body :: "string option"

text \<open>
  What the program reads of a response: \<^verbatim>\<open>headers.get("set-cookie")\<close>,
  \<^verbatim>\<open>headers.get("content-type")\<close> and \<^verbatim>\<open>text()\<close>.
\<close>

record response =
  setCookie :: rawHeader
  contentType :: "string option"
  payload :: string

text \<open>
  The collaborators of a run. \<open>fetch\<close> is the transport, with a state \<open>'s\<close> of its own
  so that a stub may answer by what it has seen; \<open>None\<close> is a rejected request.
  \<open>JSON_parse\<close> gives \<open>None\<close> where \<^verbatim>\<open>JSON.parse\<close> throws. \<open>loadHTML\<close> is the parser
  of the markup library, applied to whatever value the program hands it.
  \<open>envSlug\<close> is \<^verbatim>\<open>process.env.CINEMA_SLUG\<close>.
\<close>

record 's collab =
  fetch :: "'s \<Rightarrow> request \<Rightarrow> response option \<times> 's"
  JSON_parse :: "string \<Rightarrow> json option"
  loadHTML :: "json \<Rightarrow> node list"
  localeCompare :: "string \<Rightarrow> string \<Rightarrow> int"
  floatString :: "string \<Rightarrow> string"
  envSlug :: "string option"

text \<open>
  The trace of a run holds its suspensions and its requests, in order; console output is
  not recorded.
\<close>

datatype action = Sleep nat | Fetch request

record 's world =
  jar :: cookies
  net :: 's
  trace :: "action list"
  disk :: files

subsection \<open>Encoding\<close>

definition hexDigitUpper :: "nat \<Rightarrow> char" where
  "hexDigitUpper n = (if n < 10 then char_of (48 + n) else char_of (55 + n))"

definition percentByte :: "nat \<Rightarrow> string" where
  "percentByte n = [CHR ''%'', hexDigitUpper (n div 16), hexDigitUpper (n mod 16)]"

text \<open>The bytes of a code unit in UTF-8, each as \<^verbatim>\<open>%XX\<close>.\<close>

definition utf8Percent :: "char \<Rightarrow> string" where
  "utf8Percent c =
     (let n = (of_char c :: nat) in
      if n < 128 then percentByte n
      else percentByte (192 + n div 64) @ percentByte (128 + n mod 64))"

definition isAlnum :: "char \<Rightarrow> bool" where
  "isAlnum c =
     (let n = (of_char c :: nat) in
      (48 \<le> n \<and> n \<le> 57) \<or> (65 \<le> n \<and> n \<le> 90) \<or> (97 \<le> n \<and> n \<le> 122))"

definition encodeURIComponent :: "string \<Rightarrow> string" where
  "encodeURIComponent s =
     concat (map (\<lambda>c. if isAlnum c \<or> c \<in> set (''-_.!~*()'' @ [CHR 0x27]) then [c]
                       else utf8Percent c) s)"

text \<open>The serializer of \<^verbatim>\<open>URLSearchParams\<close>.\<close>

definition formEncode :: "string \<Rightarrow> string" where
  "formEncode s =
     concat (map (\<lambda>c. if isAlnum c \<or> c \<in> set ''*-._'' then [c]
                       else if c = CHR '' '' then ''+''
                       else utf8Percent c) s)"

definition URLSearchParams_toString :: "(string \<times> string) list \<Rightarrow> string" where
  "URLSearchParams_toString ps = joinWith ''&'' (map (\<lambda>(k, v). formEncode k @ ''='' @ formEncode v) ps)"

subsection \<open>Configuration\<close>

definition BASE :: "string \<Rightarrow> string" where
  "BASE slug = ''https://achat.cgrcinemas.fr/'' @ slug"

definition RESERVER_URL :: "string \<Rightarrow> string" where
  "RESERVER_URL slug = BASE slug @ ''/reserver/''"

definition AJAX_URL :: "string \<Rightarrow> string" where
  "AJAX_URL slug = BASE slug @ ''/reserver/ajax/''"

definition OUTPUT_CSV :: "string \<Rightarrow> string" where
  "OUTPUT_CSV slug = ''cgr_'' @ slug @ ''_programme.csv''"

definition DELAY_MS :: nat where
  "DELAY_MS = 250"

definition UA :: string where
  "UA = ''Mozilla/5.0 (Windows NT 10.0; Win64; x64) AppleWebKit/537.36 (KHTML, like Gecko) Chrome/125.0 Safari/537.36''"

text \<open>The slug of the first listing is a constant; the second reads the environment.\<close>

definition CINEMA_SLUG1 :: string where
  "CINEMA_SLUG1 = ''lefrancais''"

definition CINEMA_SLUG2 :: "'s collab \<Rightarrow> string" where
  "CINEMA_SLUG2 env = (case envSlug env of None \<Rightarrow> ''lefrancais'' | Some s \<Rightarrow> if s = [] then ''lefrancais'' else s)"

subsection \<open>\<^verbatim>\<open>fetchWithJar\<close>\<close>

text \<open>
  \<^verbatim>\<open>{"User-Agent": UA, Accept: "*/*", ...headers}\<close>: a name that is there keeps its
  place and takes the new value, a new name goes last.
\<close>

definition assignProp :: "headers \<Rightarrow> string \<Rightarrow> string \<Rightarrow> headers" where
  "assignProp h k v = (if k \<in> set (map fst h) then updateProp h k v else h @ [(k, v)])"

definition mkHeaders :: "headers \<Rightarrow> headers" where
  "mkHeaders extra = foldl (\<lambda>h (k, v). assignProp h k v) [(''User-Agent'', UA), (''Accept'', ''*/*'')] extra"

definition sleep :: "nat \<Rightarrow> 's world \<Rightarrow> 's world" where
  "sleep ms w = w\<lparr>trace := trace w @ [Sleep ms]\<rparr>"

text \<open>
  The part both listings share: the jar is applied, the request is sent, the jar records
  the response. The result is the response, or \<open>None\<close> for a rejected request.
\<close>

definition exchange :: "'s collab \<Rightarrow> request \<Rightarrow> 's world \<Rightarrow> response option \<times> 's world" where
  "exchange env rq w =
     (let req = rq\<lparr>headers := applyJar (jar w) (mkHeaders (headers rq))\<rparr>;
          (res, n) = fetch env (net w) req;
          w1 = w\<lparr>net := n, trace := trace w @ [Fetch req]\<rparr>
      in case res of
           None \<Rightarrow> (None, w1)
         | Some r \<Rightarrow> (Some r, w1\<lparr>jar := setFrom (jar w1) (setCookie r)\<rparr>))"

definition isJsonResponse :: "response \<Rightarrow> bool" where
  "isJsonResponse r = strIncludes (case contentType r of None \<Rightarrow> [] | Some ct \<Rightarrow> ct) ''application/json''"

text \<open>\<^verbatim>\<open>safeJson\<close> of the first listing: \<^verbatim>\<open>null\<close> where the parser throws.\<close>

definition safeJson :: "'s collab \<Rightarrow> string \<Rightarrow> json" where
  "safeJson env t = (case JSON_parse env t of None \<Rightarrow> JNull | Some v \<Rightarrow> v)"

definition fetchWithJar1 :: "'s collab \<Rightarrow> request \<Rightarrow> 's world \<Rightarrow> (exn + json) \<times> 's world" where
  "fetchWithJar1 env rq w =
     (case exchange env rq w of
        (None, w1) \<Rightarrow> (Inl FetchRejected, w1)
      | (Some r, w1) \<Rightarrow>
          (Inr (if isJsonResponse r then safeJson env (payload r) else JStr (payload r)), w1))"

text \<open>The second listing calls \<^verbatim>\<open>JSON.parse\<close> itself, which may throw.\<close>

definition fetchWithJar2 :: "'s collab \<Rightarrow> request \<Rightarrow> 's world \<Rightarrow> (exn + json) \<times> 's world" where
  "fetchWithJar2 env rq w =
     (case exchange env rq w of
        (None, w1) \<Rightarrow> (Inl FetchRejected, w1)
      | (Some r, w1) \<Rightarrow>
          (if isJsonResponse r
           then (case JSON_parse env (payload r) of
                   None \<Rightarrow> (Inl SyntaxError, w1)
                 | Some v \<Rightarrow> (Inr v, w1))
           else (Inr (JStr (payload r)), w1)))"

text \<open>The four requests. The reveal posts a form.\<close>

definition seedRequest :: "string \<Rightarrow> request" where
  "seedRequest slug =
     \<lparr>url = RESERVER_URL slug, meth = ''GET'',
      headers = [(''Referer'', RESERVER_URL slug), (''Accept'', ''text/html'')], body = None\<rparr>"

definition daysRequest :: "string \<Rightarrow> string \<Rightarrow> request" where
  "daysRequest slug fid =
     \<lparr>url = AJAX_URL slug @ ''?modresa_film='' @ encodeURIComponent fid, meth = ''GET'',
      headers = [(''Referer'', RESERVER_URL slug), (''Accept'', ''application/json'')], body = None\<rparr>"

definition seancesRequest :: "string \<Rightarrow> string \<Rightarrow> string \<Rightarrow> request" where
  "seancesRequest slug fid day =
     \<lparr>url = AJAX_URL slug @ ''?modresa_film='' @ encodeURIComponent fid
             @ ''&modresa_jour='' @ encodeURIComponent day,
      meth = ''GET'',
      headers = [(''Referer'', RESERVER_URL slug), (''Accept'', ''application/json'')], body = None\<rparr>"

definition bookRequest :: "string \<Rightarrow> (string \<times> string) list \<Rightarrow> request" where
  "bookRequest slug form =
     \<lparr>url = RESERVER_URL slug, meth = ''POST'',
      headers = [(''Referer'', RESERVER_URL slug),
                 (''Content-Type'', ''application/x-www-form-urlencoded''),
                 (''Accept'', ''text/html'')],
      body = Some (URLSearchParams_toString form)\<rparr>"

text \<open>\<^verbatim>\<open>a[i]\<close> on an array: \<open>None\<close> is \<^verbatim>\<open>undefined\<close>.\<close>

definition nthOpt :: "'a list \<Rightarrow> nat \<Rightarrow> 'a option" where
  "nthOpt xs i = (if i < length xs then Some (xs ! i) else None)"

text \<open>\<^verbatim>\<open>verFromLbl || verFromKey\<close>\<close>

definition chooseVersion :: "seanceKey \<Rightarrow> seanceLabel \<Rightarrow> string" where
  "chooseVersion k l = (if lbl_version l \<noteq> [] then lbl_version l else key_version k)"

section \<open>The crawl\<close>

text \<open>
  The loops of \<^verbatim>\<open>main\<close> as recursion over what is left to visit. A loop returns the
  rows collected so far, or the exception that ended it; the world is threaded through,
  so the trace holds what happened before an exception too. \<^verbatim>\<open>parseSeanceLabel\<close> starts
  with \<^verbatim>\<open>String(label)\<close>, written here at the call: where it throws, the loop ends
  before the suspension.
\<close>

subsection \<open>First listing (lines 173 to 301)\<close>

fun seanceLoop1 ::
  "'s collab \<Rightarrow> film \<Rightarrow> string \<Rightarrow> (string \<times> json) list \<Rightarrow> row list \<Rightarrow> 's world
   \<Rightarrow> (exn + row list) \<times> 's world" where
  "seanceLoop1 env film day [] results w = (Inr results, w)"
| "seanceLoop1 env film day ((key, label) # rest) results w =
     (let k = parseSeanceKey key
      in case jsString label of
           None \<Rightarrow> (Inl TypeError, w)
         | Some lt \<Rightarrow>
     (let l = parseSeanceLabel lt;
          w1 = sleep DELAY_MS w
      in case fetchWithJar1 env
                (bookRequest CINEMA_SLUG1
                   [(''modresa_film'', filmId film), (''modresa_jour'', day),
                    (''modresa_seance'', key_seanceId k), (''valid'', ''Continuer'')]) w1 of
           (Inl e, w2) \<Rightarrow> (Inl e, w2)
         | (Inr rBook, w2) \<Rightarrow>
             (case extractSalle1 (orEmptyString rBook) of
                Inl e \<Rightarrow> (Inl e, w2)
              | Inr s \<Rightarrow>
                  seanceLoop1 env film day rest
                    (results @
                     [\<lparr>cinema = CINEMA_SLUG1, salle = salleNum s, salle_label = salleLabel s,
                       film_id = filmId film, film_titre = title film, date = day,
                       heure = lbl_time l, version = chooseVersion k l, audio = lbl_audio l,
                       seance_id = key_seanceId k, ts = key_ts k\<rparr>]) w2)))"

fun dayLoop1 ::
  "'s collab \<Rightarrow> film \<Rightarrow> string list \<Rightarrow> row list \<Rightarrow> 's world \<Rightarrow> (exn + row list) \<times> 's world" where
  "dayLoop1 env film [] results w = (Inr results, w)"
| "dayLoop1 env film (day # days) results w =
     (let w1 = sleep DELAY_MS w
      in case fetchWithJar1 env (seancesRequest CINEMA_SLUG1 (filmId film) day) w1 of
           (Inl e, w2) \<Rightarrow> (Inl e, w2)
         | (Inr rSeances, w2) \<Rightarrow>
             (let seancesObj = orEmptyObject rSeances
              in if objectKeys seancesObj = [] then dayLoop1 env film days results w2
                 else (case seanceLoop1 env film day (objectEntries seancesObj) results w2 of
                         (Inl e, w3) \<Rightarrow> (Inl e, w3)
                       | (Inr results', w3) \<Rightarrow> dayLoop1 env film days results' w3)))"

text \<open>
  An element of \<^verbatim>\<open>films\<close> is a film or \<^verbatim>\<open>undefined\<close>; reading \<^verbatim>\<open>film.id\<close> of
  the latter throws, after the suspension.
\<close>

fun filmLoop1 ::
  "'s collab \<Rightarrow> film option list \<Rightarrow> row list \<Rightarrow> 's world \<Rightarrow> (exn + row list) \<times> 's world" where
  "filmLoop1 env [] results w = (Inr results, w)"
| "filmLoop1 env (fo # films) results w =
     (let w1 = sleep DELAY_MS w
      in case fo of
           None \<Rightarrow> (Inl TypeError, w1)
         | Some film \<Rightarrow>
             (case fetchWithJar1 env (daysRequest CINEMA_SLUG1 (filmId film)) w1 of
                (Inl e, w2) \<Rightarrow> (Inl e, w2)
              | (Inr rDays, w2) \<Rightarrow>
                  (let days = objectKeys (orEmptyObject rDays)
                   in if days = [] then filmLoop1 env films results w2
                      else (case dayLoop1 env film days results w2 of
                              (Inl e, w3) \<Rightarrow> (Inl e, w3)
                            | (Inr results', w3) \<Rightarrow> filmLoop1 env films results' w3))))"

text \<open>
  \<^verbatim>\<open>const films = [parseFilmsFromHTML(first.body || "")[0]]\<close>: an array of one element,
  whatever the page holds, so the test \<^verbatim>\<open>!films.length\<close> that follows never holds.
\<close>

definition crawl1 :: "'s collab \<Rightarrow> 's world \<Rightarrow> (exn + row list) \<times> 's world" where
  "crawl1 env w =
     (case fetchWithJar1 env (seedRequest CINEMA_SLUG1) w of
        (Inl e, w1) \<Rightarrow> (Inl e, w1)
      | (Inr first, w1) \<Rightarrow>
          (let films = [nthOpt (parseFilmsFromHTML (loadHTML env (orEmptyString first))) 0]
           in if length films = 0 then (Inl NoFilms, w1) else filmLoop1 env films [] w1))"

text \<open>
  How a run ends: \<^verbatim>\<open>main\<close> returns and the process ends with status 0, or
  \<^verbatim>\<open>process.exit\<close> is called after \<^verbatim>\<open>console.error\<close>. Both the test on the films
  and the handler of \<^verbatim>\<open>main().catch\<close> report and exit with status 1.
\<close>

datatype outcome = Completed | Exited nat

definition initialWorld :: "'s \<Rightarrow> files \<Rightarrow> 's world" where
  "initialWorld n fs = \<lparr>jar = [], net = n, trace = [], disk = fs\<rparr>"

definition main1 :: "'s collab \<Rightarrow> 's \<Rightarrow> files \<Rightarrow> outcome \<times> 's world" where
  "main1 env n fs =
     (case crawl1 env (initialWorld n fs) of
        (Inl e, w) \<Rightarrow> (Exited 1, w)
      | (Inr results, w) \<Rightarrow>
          (Completed,
           w\<lparr>disk := (disk w)(OUTPUT_CSV CINEMA_SLUG1 \<mapsto>
                toCSV (floatString env) (sortBy (compareRows (localeCompare env)) results)
                  csvHeaders1)\<rparr>))"

subsection \<open>Second listing (lines 457 to 559)\<close>

fun seanceLoop2 ::
  "'s collab \<Rightarrow> film \<Rightarrow> string \<Rightarrow> (string \<times> json) list \<Rightarrow> row2 list \<Rightarrow> 's world
   \<Rightarrow> (exn + row2 list) \<times> 's world" where
  "seanceLoop2 env film day [] results w = (Inr results, w)"
| "seanceLoop2 env film day ((key, label) # rest) results w =
     (let k = parseSeanceKey key
      in case jsString label of
           None \<Rightarrow> (Inl TypeError, w)
         | Some lt \<Rightarrow>
     (let l = parseSeanceLabel lt;
          w1 = sleep DELAY_MS w
      in case fetchWithJar2 env
                (bookRequest (CINEMA_SLUG2 env)
                   [(''modresa_film'', filmId film), (''modresa_jour'', day),
                    (''modresa_seance'', key)]) w1 of
           (Inl e, w2) \<Rightarrow> (Inl e, w2)
         | (Inr rBook, w2) \<Rightarrow>
             (let s = extractSalle2 (loadHTML env (orEmptyString rBook));
                  reservationUrl = extractReservationUrl (loadHTML env (orEmptyString rBook))
              in seanceLoop2 env film day rest
                   (results @
                    [\<lparr>cinema = CINEMA_SLUG2 env, salle = salleNum s, salle_label = salleLabel s,
                      film_id = filmId film, film_titre = title film, date = day,
                      heure = lbl_time l, version = chooseVersion k l, audio = lbl_audio l,
                      seance_id = key_seanceId k, ts = key_ts k,
                      reservation_url = reservationUrl\<rparr>]) w2)))"

fun dayLoop2 ::
  "'s collab \<Rightarrow> film \<Rightarrow> string list \<Rightarrow> row2 list \<Rightarrow> 's world \<Rightarrow> (exn + row2 list) \<times> 's world" where
  "dayLoop2 env film [] results w = (Inr results, w)"
| "dayLoop2 env film (day # days) results w =
     (let w1 = sleep DELAY_MS w
      in case fetchWithJar2 env (seancesRequest (CINEMA_SLUG2 env) (filmId film) day) w1 of
           (Inl e, w2) \<Rightarrow> (Inl e, w2)
         | (Inr rSeances, w2) \<Rightarrow>
             (let seancesObj = orEmptyObject rSeances
              in if objectKeys seancesObj = [] then dayLoop2 env film days results w2
                 else (case seanceLoop2 env film day (objectEntries seancesObj) results w2 of
                         (Inl e, w3) \<Rightarrow> (Inl e, w3)
                       | (Inr results', w3) \<Rightarrow> dayLoop2 env film days results' w3)))"

text \<open>Here \<^verbatim>\<open>film.title\<close> is read for the console before the suspension.\<close>

fun filmLoop2 ::
  "'s collab \<Rightarrow> film option list \<Rightarrow> row2 list \<Rightarrow> 's world \<Rightarrow> (exn + row2 list) \<times> 's world" where
  "filmLoop2 env [] results w = (Inr results, w)"
| "filmLoop2 env (fo # films) results w =
     (case fo of
        None \<Rightarrow> (Inl TypeError, w)
      | Some film \<Rightarrow>
          (let w1 = sleep DELAY_MS w
           in case fetchWithJar2 env (daysRequest (CINEMA_SLUG2 env) (filmId film)) w1 of
                (Inl e, w2) \<Rightarrow> (Inl e, w2)
              | (Inr rDays, w2) \<Rightarrow>
                  (let days = objectKeys (orEmptyObject rDays)
                   in if days = [] then filmLoop2 env films results w2
                      else (case dayLoop2 env film days results w2 of
                              (Inl e, w3) \<Rightarrow> (Inl e, w3)
                            | (Inr results', w3) \<Rightarrow> filmLoop2 env films results' w3))))"

text \<open>\<^verbatim>\<open>const films = [parseFilmsFromHTML(first.body || "")[1]]\<close>\<close>

definition crawl2 :: "'s collab \<Rightarrow> 's world \<Rightarrow> (exn + row2 list) \<times> 's world" where
  "crawl2 env w =
     (case fetchWithJar2 env (seedRequest (CINEMA_SLUG2 env)) w of
        (Inl e, w1) \<Rightarrow> (Inl e, w1)
      | (Inr first, w1) \<Rightarrow>
          (let films = [nthOpt (parseFilmsFromHTML (loadHTML env (orEmptyString first))) 1]
           in if length films = 0 then (Inl NoFilms, w1) else filmLoop2 env films [] w1))"

definition main2 :: "'s collab \<Rightarrow> 's \<Rightarrow> files \<Rightarrow> outcome \<times> 's world" where
  "main2 env n fs =
     (case crawl2 env (initialWorld n fs) of
        (Inl e, w) \<Rightarrow> (Exited 1, w)
      | (Inr results, w) \<Rightarrow>
          (Completed,
           w\<lparr>disk := saveCSV (floatString env) (OUTPUT_CSV (CINEMA_SLUG2 env))
                       (sortBy (compareRows (localeCompare env)) results) (disk w)\<rparr>))"

subsection \<open>Pacing\<close>

text \<open>
  A stretch of a trace is paced when each request in it comes right after a suspension of
  \<open>DELAY_MS\<close>.
\<close>

fun paced :: "action list \<Rightarrow> bool" where
  "paced [] = True"
| "paced (Fetch rq # as) = False"
| "paced [Sleep n] = True"
| "paced (Sleep n # Fetch rq # as) = (n = DELAY_MS \<and> paced as)"
| "paced (Sleep n # Sleep m # as) = paced (Sleep m # as)"

fun isFetch :: "action \<Rightarrow> bool" where
  "isFetch (Fetch rq) = True"
| "isFetch (Sleep n) = False"

text \<open>
  The world \<open>w'\<close> comes after \<open>w\<close> by paced steps that leave the files alone.
\<close>

definition pacedFrom :: "'s world \<Rightarrow> 's world \<Rightarrow> bool" where
  "pacedFrom w w' = (disk w' = disk w \<and> (\<exists>ext. trace w' = trace w @ ext \<and> paced ext))"

subsection \<open>Stubbed answers\<close>

text \<open>
  The transport answers the request \<open>rq\<close>, whatever its headers and whatever happened
  before, with a response whose body \<^verbatim>\<open>fetchWithJar\<close> decodes to \<open>b\<close>.
\<close>

definition answers :: "'s collab \<Rightarrow> request \<Rightarrow> json \<Rightarrow> bool" where
  "answers env rq b =
     (\<forall>s hs. case fetch env s (rq\<lparr>headers := hs\<rparr>) of
               (None, s') \<Rightarrow> False
             | (Some r, s') \<Rightarrow>
                 if isJsonResponse r then JSON_parse env (payload r) = Some b
                 else b = JStr (payload r))"

text \<open>The world that a request leaves behind.\<close>

definition worldAfter1 :: "'s collab \<Rightarrow> request \<Rightarrow> 's world \<Rightarrow> 's world" where
  "worldAfter1 env rq w = snd (fetchWithJar1 env rq w)"

definition worldAfter2 :: "'s collab \<Rightarrow> request \<Rightarrow> 's world \<Rightarrow> 's world" where
  "worldAfter2 env rq w = snd (fetchWithJar2 env rq w)"

section \<open>A stubbed run\<close>

text \<open>
  The scenario of the specification, for evaluating the program: a seed page with the one
  film Elio, one day, one showtime, and a reveal page whose booking form holds the image
  that names room 10. The parsers are stubbed with the transport: each page or payload
  is a short text that stands for its parsed form.
\<close>

definition stubSeedDoc :: "node list" where
  "stubSeedDoc =
     [Element ''select'' [(''id'', ''modresa_film'')]
        [Element ''option'' [(''value'', ''67890'')] [TextNode ''Elio'']]]"

definition stubRevealDoc :: "node list" where
  "stubRevealDoc =
     [Element ''form'' [(''id'', ''ffselplace''), (''action'', ''/lefrancais/places/'')]
        [Element ''img'' [(''src'', ''/img/tags/sal_10.png'')] []]]"

definition stubDays :: json where
  "stubDays = JObj [(''2025-08-25'', JNum 1)]"

definition stubSeances :: json where
  "stubSeances = JObj [(''1724606400/VF/543210'', JStr ''14h00 - VF'')]"

definition stubPage :: "string \<Rightarrow> string \<Rightarrow> response" where
  "stubPage ct t = \<lparr>setCookie = NoHeader, contentType = Some ct, payload = t\<rparr>"

text \<open>
  The transport answers by the method and the address alone and keeps no state: the
  reveal page to a form, the seed page at the entry address, the showtimes where the
  address names a day, and the days otherwise.
\<close>

definition stubFetch :: "string \<Rightarrow> unit \<Rightarrow> request \<Rightarrow> response option \<times> unit" where
  "stubFetch slug s rq =
     (if meth rq = ''POST'' then (Some (stubPage ''text/html'' ''reveal''), ())
      else if url rq = RESERVER_URL slug
      then (Some ((stubPage ''text/html'' ''seed'')\<lparr>setCookie := One ''PHPSESSID=abc; path=/''\<rparr>), ())
      else if strIncludes (url rq) ''&modresa_jour=''
      then (Some (stubPage ''application/json'' ''seances''), ())
      else (Some (stubPage ''application/json'' ''days''), ()))"

definition stubParse :: "string \<Rightarrow> json option" where
  "stubParse t =
     (if t = ''days'' then Some stubDays else if t = ''seances'' then Some stubSeances else None)"

definition stubLoad :: "json \<Rightarrow> node list" where
  "stubLoad v = (if v = JStr ''seed'' then stubSeedDoc else if v = JStr ''reveal'' then stubRevealDoc else [])"

definition stubEnv :: "unit collab" where
  "stubEnv =
     \<lparr>fetch = stubFetch ''lefrancais'', JSON_parse = stubParse, loadHTML = stubLoad,
      localeCompare = codeUnitCompare, floatString = (\<lambda>lit. lit), envSlug = None\<rparr>"

definition stubFilm :: film where
  "stubFilm = \<lparr>filmId = ''67890'', title = ''Elio''\<rparr>"

text \<open>
  Variants of the stub: a seed page of two films, for the second listing, which crawls
  the film at index 1; a page without films; payloads without days; payloads without
  showtimes.
\<close>

definition stubSeedDoc2 :: "node list" where
  "stubSeedDoc2 =
     [Element ''select'' [(''name'', ''modresa_film'')]
        [Element ''option'' [(''value'', ''12345'')] [TextNode ''Bluey''],
         Element ''option'' [(''value'', ''67890'')] [TextNode ''Elio'']]]"

text \<open>
  A seed page with a placeholder and with an option that has no value: the placeholder
  gives no film, and the option without a value gives the film whose id is its text.
\<close>

definition stubSeedDoc3 :: "node list" where
  "stubSeedDoc3 =
     [Element ''select'' [(''id'', ''modresa_film'')]
        [Element ''option'' [(''value'', [])] [TextNode ''Choisir un film''],
         Element ''option'' [] [TextNode ''Elio'']]]"

definition stubEnv2 :: "unit collab" where
  "stubEnv2 = stubEnv\<lparr>loadHTML := (\<lambda>v. if v = JStr ''seed'' then stubSeedDoc2 else stubLoad v)\<rparr>"

definition stubEnvNoFilms :: "unit collab" where
  "stubEnvNoFilms = stubEnv\<lparr>loadHTML := (\<lambda>v. [])\<rparr>"

definition stubEnvNoDays :: "unit collab" where
  "stubEnvNoDays = stubEnv2\<lparr>JSON_parse := (\<lambda>t. Some (JObj []))\<rparr>"

definition stubEnvNoSeances :: "unit collab" where
  "stubEnvNoSeances =
     stubEnv2\<lparr>JSON_parse := (\<lambda>t. if t = ''days'' then Some stubDays else Some (JObj []))\<rparr>"

text \<open>
  A collation for the stub that, as the default collation of the runtime does, compares
  texts without regard to the case of their letters first and, between texts that differ
  in case alone, puts a lowercase letter before the same letter in uppercase.
\<close>

definition lowerFirstCompare :: "string \<Rightarrow> string \<Rightarrow> int" where
  "lowerFirstCompare a b =
     (let p = codeUnitCompare (map toLowerAscii a) (map toLowerAscii b)
      in if p \<noteq> 0 then p else codeUnitCompare b a)"

section \<open>A reader for the table\<close>

text \<open>
  Modelled from the spec: the listings write the table and never read it; the spec's
  round trip reads a serialised row back with the same escaping rule. The reader below is
  that rule read backwards. A field that opens with a quote runs to the quote that
  closes it, two quotes in a row inside standing for one; any other field runs to the
  next delimiter; a delimiter outside quotes ends the field. \<open>cur\<close> holds the field
  gathered so far.
\<close>

datatype readerState = FieldStart | InPlain | InQuoted | AfterQuote

fun specReadFields :: "char \<Rightarrow> readerState \<Rightarrow> string \<Rightarrow> string \<Rightarrow> string list" where
  "specReadFields d st cur [] = [cur]"
| "specReadFields d FieldStart cur (c # cs) =
     (if c = CHR 0x22 then specReadFields d InQuoted cur cs
      else if c = d then cur # specReadFields d FieldStart [] cs
      else specReadFields d InPlain (cur @ [c]) cs)"
| "specReadFields d InPlain cur (c # cs) =
     (if c = d then cur # specReadFields d FieldStart [] cs
      else specReadFields d InPlain (cur @ [c]) cs)"
| "specReadFields d InQuoted cur (c # cs) =
     (if c = CHR 0x22 then specReadFields d AfterQuote cur cs
      else specReadFields d InQuoted (cur @ [c]) cs)"
| "specReadFields d AfterQuote cur (c # cs) =
     (if c = CHR 0x22 then specReadFields d InQuoted (cur @ [CHR 0x22]) cs
      else if c = d then cur # specReadFields d FieldStart [] cs
      else specReadFields d InPlain (cur @ [c]) cs)"

definition specReadRecord :: "char \<Rightarrow> string \<Rightarrow> string list" where
  "specReadRecord d s = specReadFields d FieldStart [] s"

text \<open>The text of a cell as the two writers take it: nothing for \<^verbatim>\<open>undefined\<close>.\<close>

definition cellText :: "(string \<Rightarrow> string) \<Rightarrow> cell \<Rightarrow> string" where
  "cellText fmt c = (if c = CUndefined then [] else cellString fmt c)"

section \<open>Facts about strings and numbers\<close>

lemma splitAcc_nonempty: "splitAcc sep acc s \<noteq> []"
  by (induction sep acc s rule: splitAcc.induct) auto

lemma startsWith_take: "startsWith s p \<longleftrightarrow> take (length p) s = p"
  by (induction s p rule: startsWith.induct) auto

lemma strIncludes_singleton: "strIncludes a [d] \<longleftrightarrow> d \<in> set a"
  by (induction a) auto

lemma strIncludes_tl: "\<not> strIncludes (c # s) p \<Longrightarrow> \<not> strIncludes s p"
  by simp

lemma splitAcc_no_sep:
  "sep \<noteq> [] \<Longrightarrow> \<not> strIncludes a sep \<Longrightarrow> splitAcc sep acc a = [rev acc @ a]"
  by (induction a arbitrary: acc) auto

lemma startsWith_append_sep:
  assumes "x \<noteq> []" "sep \<noteq> []" "startsWith (x @ sep @ rest) sep"
  shows "startsWith (x @ butlast sep) sep"
proof -
  define y where "y = x @ butlast sep"
  have len: "length sep \<le> length y"
    using assms(1,2) unfolding y_def by (cases x) auto
  have eq: "x @ sep @ rest = y @ (last sep # rest)"
    using assms(2) unfolding y_def
    by (metis append.assoc append_Cons append_Nil append_butlast_last_id)
  have "take (length sep) (y @ (last sep # rest)) = take (length sep) y"
    using len by simp
  then have "take (length sep) (x @ sep @ rest) = take (length sep) y"
    by (simp only: eq)
  with assms(3) show ?thesis
    unfolding y_def by (simp add: startsWith_take)
qed

lemma splitAcc_at_sep:
  "sep \<noteq> [] \<Longrightarrow> \<not> strIncludes (a @ butlast sep) sep \<Longrightarrow>
   splitAcc sep acc (a @ sep @ rest) = (rev acc @ a) # splitAcc sep [] rest"
proof (induction a arbitrary: acc)
  case Nil
  then obtain c cs where sep: "sep = c # cs" by (cases sep) auto
  have "startsWith (sep @ rest) sep" by (simp add: startsWith_take)
  then show ?case using sep by simp
next
  case (Cons c a)
  have ns: "\<not> startsWith ((c # a) @ sep @ rest) sep"
    using Cons.prems startsWith_append_sep[of "c # a" sep rest] by auto
  have "\<not> strIncludes (a @ butlast sep) sep" using Cons.prems by simp
  then show ?case using Cons.IH[OF Cons.prems(1)] ns by simp
qed

lemma isDigit_not_space: "isDigit c \<Longrightarrow> \<not> isWhiteSpace c"
  by (auto simp: isDigit_def isWhiteSpace_def)

lemma isDigit_not_sign: "isDigit c \<Longrightarrow> c \<noteq> CHR ''+'' \<and> c \<noteq> CHR ''-''"
  by (auto simp: isDigit_def)

lemma trim_id: "s \<noteq> [] \<Longrightarrow> \<not> isWhiteSpace (hd s) \<Longrightarrow> \<not> isWhiteSpace (last s) \<Longrightarrow> trim s = s"
proof -
  assume a: "s \<noteq> []" "\<not> isWhiteSpace (hd s)" "\<not> isWhiteSpace (last s)"
  have 1: "dropWhile isWhiteSpace s = s"
    using a(1,2) by (simp add: dropWhile_eq_self_iff)
  have 2: "dropWhile isWhiteSpace (rev s) = rev s"
    using a(1,3) by (simp add: dropWhile_eq_self_iff hd_rev)
  show ?thesis by (simp add: trim_def 1 2)
qed

lemma isDigits_trim: "isDigits t \<Longrightarrow> trim t = t"
proof -
  assume d: "isDigits t"
  then have "t \<noteq> []" "isDigit (hd t)" "isDigit (last t)"
    by (auto simp: isDigits_def list_all_iff)
  then show ?thesis by (intro trim_id) (auto dest: isDigit_not_space)
qed

lemma isDigits_stripSign: "isDigits t \<Longrightarrow> stripSign t = t"
  by (cases t) (auto simp: isDigits_def stripSign_def dest: isDigit_not_sign)

lemma Number_digits:
  assumes "isDigits t" "digitsVal t \<le> 2 ^ 53"
  shows "Number t = Integer (int (digitsVal t))"
proof -
  have "t \<noteq> []" "isDigit (hd t)" using assms(1) by (auto simp: isDigits_def list_all_iff)
  then have "hd t \<noteq> CHR ''-''" using isDigit_not_sign by blast
  then show ?thesis
    using assms \<open>t \<noteq> []\<close> by (simp add: Number_def isDigits_trim isDigits_stripSign Let_def)
qed

lemma Number_blank: "trim t = [] \<Longrightarrow> Number t = Integer 0"
  by (simp add: Number_def)

lemma isDigits_unsigned: "isDigits u \<Longrightarrow> isUnsignedDecimal u"
proof -
  assume d: "isDigits u"
  then have all: "\<forall>x\<in>set u. isDigit x" and ne: "u \<noteq> []"
    by (auto simp: isDigits_def list_all_iff)
  from all have tw: "takeWhile isDigit u = u" and dw: "dropWhile isDigit u = []"
    by simp_all
  show ?thesis by (simp add: isUnsignedDecimal_def Let_def tw dw ne)
qed

lemma Number_not_literal:
  "trim t \<noteq> [] \<Longrightarrow> \<not> isNumericLiteral (trim t) \<Longrightarrow> Number t = NaN"
  by (auto simp: Number_def Let_def isNumericLiteral_def dest: isDigits_unsigned)

lemma splitAcc_at_char:
  "d \<notin> set a \<Longrightarrow> splitAcc [d] acc (a @ d # rest) = (rev acc @ a) # splitAcc [d] [] rest"
  using splitAcc_at_sep[where sep="[d]" and a=a and acc=acc and rest=rest]
  by (simp add: strIncludes_singleton)

lemma splitAcc_no_char: "d \<notin> set a \<Longrightarrow> splitAcc [d] acc a = [rev acc @ a]"
  by (simp add: splitAcc_no_sep strIncludes_singleton)

lemma split_slash3:
  assumes "CHR ''/'' \<notin> set t" "CHR ''/'' \<notin> set v" "CHR ''/'' \<notin> set i"
  shows "split (t @ ''/'' @ v @ ''/'' @ i) ''/'' = [t, v, i]"
  using assms by (simp add: split_def splitAcc_at_char splitAcc_no_char)

lemma split_slash2:
  assumes "CHR ''/'' \<notin> set t" "CHR ''/'' \<notin> set v"
  shows "split (t @ ''/'' @ v) ''/'' = [t, v]"
  using assms by (simp add: split_def splitAcc_at_char splitAcc_no_char)

lemma split_slash1:
  assumes "CHR ''/'' \<notin> set t"
  shows "split t ''/'' = [t]"
  using assms by (simp add: split_def splitAcc_no_char)

lemma split_dash1: "\<not> strIncludes a '' - '' \<Longrightarrow> split a '' - '' = [a]"
  by (simp add: split_def splitAcc_no_sep)

lemma split_dash2:
  "\<not> strIncludes (a @ '' -'') '' - '' \<Longrightarrow> \<not> strIncludes b '' - '' \<Longrightarrow>
   split (a @ '' - '' @ b) '' - '' = [a, b]"
  using splitAcc_at_sep[where sep="'' - ''" and a=a and acc="[]" and rest=b]
  by (simp add: split_def splitAcc_no_sep)

lemma split_dash3:
  "\<not> strIncludes (a @ '' -'') '' - '' \<Longrightarrow> \<not> strIncludes (b @ '' -'') '' - '' \<Longrightarrow>
   \<not> strIncludes c '' - '' \<Longrightarrow>
   split (a @ '' - '' @ b @ '' - '' @ c) '' - '' = [a, b, c]"
  using splitAcc_at_sep[where sep="'' - ''" and a=a and acc="[]" and rest="b @ '' - '' @ c"]
    splitAcc_at_sep[where sep="'' - ''" and a=b and acc="[]" and rest=c]
  by (simp add: split_def splitAcc_no_sep)

section \<open>The decoders of showtime keys and labels\<close>

text \<open>
  Claim C3, as the code has it. Both decoders are total functions of the text. A key of
  three pieces \<open>t/v/i\<close> decodes to \<^verbatim>\<open>Number(t)\<close>, \<open>v\<close> and \<open>i\<close>; a piece that is
  missing decodes to the empty string; and where \<open>t\<close> is a run of decimal digits of value
  up to \<open>2 ^ 53\<close> the timestamp is exactly that integer. The timestamp of an empty or
  blank first piece is the number \<open>0\<close>, and that of a first piece that is no numeric
  literal is \<open>NaN\<close>. A label is cut at \<^verbatim>\<open>" - "\<close>, its pieces trimmed, and a missing
  piece decodes to the empty string.
\<close>

theorem decoders_positional:
  "(CHR ''/'' \<notin> set t \<and> CHR ''/'' \<notin> set v \<and> CHR ''/'' \<notin> set i \<longrightarrow>
      parseSeanceKey (t @ ''/'' @ v @ ''/'' @ i) = \<lparr>key_ts = Number t, key_version = v, key_seanceId = i\<rparr> \<and>
      parseSeanceKey (t @ ''/'' @ v) = \<lparr>key_ts = Number t, key_version = v, key_seanceId = ''''\<rparr> \<and>
      parseSeanceKey t = \<lparr>key_ts = Number t, key_version = '''', key_seanceId = ''''\<rparr>) \<and>
   (isDigits t \<and> digitsVal t \<le> 2 ^ 53 \<longrightarrow> Number t = Integer (int (digitsVal t))) \<and>
   (trim e = [] \<longrightarrow> Number e = Integer 0) \<and>
   (trim n \<noteq> [] \<and> \<not> isNumericLiteral (trim n) \<longrightarrow> Number n = NaN) \<and>
   (\<not> strIncludes (a @ '' -'') '' - '' \<and> \<not> strIncludes (b @ '' -'') '' - '' \<and>
    \<not> strIncludes c '' - '' \<longrightarrow>
      parseSeanceLabel (a @ '' - '' @ b @ '' - '' @ c) =
        \<lparr>lbl_time = trim a, lbl_version = trim b, lbl_audio = trim c\<rparr>) \<and>
   (\<not> strIncludes (a @ '' -'') '' - '' \<and> \<not> strIncludes c '' - '' \<longrightarrow>
      parseSeanceLabel (a @ '' - '' @ c) = \<lparr>lbl_time = trim a, lbl_version = trim c, lbl_audio = ''''\<rparr>) \<and>
   (\<not> strIncludes c '' - '' \<longrightarrow>
      parseSeanceLabel c = \<lparr>lbl_time = trim c, lbl_version = '''', lbl_audio = ''''\<rparr>)"
proof -
  have key: "CHR ''/'' \<notin> set t \<and> CHR ''/'' \<notin> set v \<and> CHR ''/'' \<notin> set i \<longrightarrow>
      parseSeanceKey (t @ ''/'' @ v @ ''/'' @ i) = \<lparr>key_ts = Number t, key_version = v, key_seanceId = i\<rparr> \<and>
      parseSeanceKey (t @ ''/'' @ v) = \<lparr>key_ts = Number t, key_version = v, key_seanceId = ''''\<rparr> \<and>
      parseSeanceKey t = \<lparr>key_ts = Number t, key_version = '''', key_seanceId = ''''\<rparr>"
    by (simp add: parseSeanceKey_def split_slash3 split_slash2 split_slash1 nthOrEmpty_def
        del: append.simps append_assoc)
  have l3: "\<not> strIncludes (a @ '' -'') '' - '' \<and> \<not> strIncludes (b @ '' -'') '' - '' \<and>
    \<not> strIncludes c '' - '' \<longrightarrow>
      parseSeanceLabel (a @ '' - '' @ b @ '' - '' @ c) =
        \<lparr>lbl_time = trim a, lbl_version = trim b, lbl_audio = trim c\<rparr>"
    by (simp add: parseSeanceLabel_def split_dash3 nthOrEmpty_def del: append.simps append_assoc)
  have l2: "\<not> strIncludes (a @ '' -'') '' - '' \<and> \<not> strIncludes c '' - '' \<longrightarrow>
      parseSeanceLabel (a @ '' - '' @ c) = \<lparr>lbl_time = trim a, lbl_version = trim c, lbl_audio = ''''\<rparr>"
    by (simp add: parseSeanceLabel_def split_dash2 nthOrEmpty_def del: append.simps append_assoc)
  have l1: "\<not> strIncludes c '' - '' \<longrightarrow>
      parseSeanceLabel c = \<lparr>lbl_time = trim c, lbl_version = '''', lbl_audio = ''''\<rparr>"
    by (simp add: parseSeanceLabel_def split_dash1 nthOrEmpty_def)
  show ?thesis
    using key l3 l2 l1 Number_digits[of t] Number_blank[of e] Number_not_literal[of n]
    by blast
qed

theorem decoders_positional_witness:
  "parseSeanceKey ''1724606400/VF/543210'' =
     \<lparr>key_ts = Integer 1724606400, key_version = ''VF'', key_seanceId = ''543210''\<rparr> \<and>
   parseSeanceKey ''1724606400/VF'' = \<lparr>key_ts = Integer 1724606400, key_version = ''VF'', key_seanceId = ''''\<rparr> \<and>
   parseSeanceKey ''1724606400'' = \<lparr>key_ts = Integer 1724606400, key_version = '''', key_seanceId = ''''\<rparr> \<and>
   Number '' '' = Integer 0 \<and> Number ''abc'' = NaN \<and>
   parseSeanceLabel ''20h10 - VF - 7.1'' = \<lparr>lbl_time = ''20h10'', lbl_version = ''VF'', lbl_audio = ''7.1''\<rparr> \<and>
   parseSeanceLabel ''20h10 - 7.1'' = \<lparr>lbl_time = ''20h10'', lbl_version = ''7.1'', lbl_audio = ''''\<rparr> \<and>
   parseSeanceLabel ''7.1'' = \<lparr>lbl_time = ''7.1'', lbl_version = '''', lbl_audio = ''''\<rparr>"
  using decoders_positional[of "''1724606400''" "''VF''" "''543210''" "'' ''" "''abc''"
      "''20h10''" "''VF''" "''7.1''"]
  by (simp add: isDigits_def isDigit_def digitsVal_def digitVal_def trim_def isWhiteSpace_def
      isNumericLiteral_def isUnsignedDecimal_def isNonDecimalInteger_def stripSign_def)

text \<open>
  The claim says that a missing timestamp decodes to a sentinel that is no number. The
  first piece of a key is never missing, only empty, and the empty key decodes to the
  number \<open>0\<close>.
\<close>

theorem parseSeanceKey_empty_counterexample:
  "key_ts (parseSeanceKey '''') = Integer 0 \<and> key_ts (parseSeanceKey '''') \<noteq> NaN"
  by (simp add: parseSeanceKey_def split_def Number_def trim_def Let_def)

section \<open>Worlds, traces and pacing\<close>

lemma sleep_simps [simp]:
  "disk (sleep ms w) = disk w" "trace (sleep ms w) = trace w @ [Sleep ms]"
  "jar (sleep ms w) = jar w" "net (sleep ms w) = net w"
  by (simp_all add: sleep_def)

lemma exchange_world:
  "disk (snd (exchange env rq w)) = disk w \<and>
   trace (snd (exchange env rq w)) =
     trace w @ [Fetch (rq\<lparr>headers := applyJar (jar w) (mkHeaders (headers rq))\<rparr>)]"
  by (simp add: exchange_def Let_def split: prod.splits option.splits)

lemma fetchWithJar1_world:
  "disk (snd (fetchWithJar1 env rq w)) = disk w \<and>
   trace (snd (fetchWithJar1 env rq w)) =
     trace w @ [Fetch (rq\<lparr>headers := applyJar (jar w) (mkHeaders (headers rq))\<rparr>)]"
  using exchange_world[of env rq w]
  by (auto simp: fetchWithJar1_def split: prod.splits option.splits)

lemma fetchWithJar2_world:
  "disk (snd (fetchWithJar2 env rq w)) = disk w \<and>
   trace (snd (fetchWithJar2 env rq w)) =
     trace w @ [Fetch (rq\<lparr>headers := applyJar (jar w) (mkHeaders (headers rq))\<rparr>)]"
  using exchange_world[of env rq w]
  by (auto simp: fetchWithJar2_def split: prod.splits option.splits)

lemma paced_Sleep: "paced as \<Longrightarrow> paced (Sleep n # as)"
  by (cases as rule: paced.cases) auto

lemma paced_append: "paced as \<Longrightarrow> paced bs \<Longrightarrow> paced (as @ bs)"
  by (induction as rule: paced.induct) (auto simp: paced_Sleep)

lemma paced_step: "paced [Sleep DELAY_MS, Fetch rq]"
  by simp

lemma paced_nth:
  "paced as \<Longrightarrow> i < length as \<Longrightarrow> isFetch (as ! i) \<Longrightarrow> 0 < i \<and> as ! (i - 1) = Sleep DELAY_MS"
proof (induction as arbitrary: i rule: paced.induct)
  case 1
  then show ?case by simp
next
  case (2 rq as)
  then show ?case by simp
next
  case (3 n)
  then show ?case by simp
next
  case (4 n rq as)
  show ?case
  proof (cases i)
    case 0
    with 4 show ?thesis by simp
  next
    case (Suc j)
    show ?thesis
    proof (cases j)
      case 0
      with Suc 4 show ?thesis by simp
    next
      case (Suc k)
      with \<open>i = Suc j\<close> 4 have "isFetch (as ! k)" "k < length as" "paced as" by auto
      from 4(1)[OF _ this(2,1)] this(3) 4(2) have "0 < k \<and> as ! (k - 1) = Sleep DELAY_MS" by simp
      with Suc \<open>i = Suc j\<close> show ?thesis by (cases k) auto
    qed
  qed
next
  case (5 n m as)
  show ?case
  proof (cases i)
    case 0
    with 5 show ?thesis by simp
  next
    case (Suc j)
    with 5 have "isFetch ((Sleep m # as) ! j)" "j < length (Sleep m # as)" "paced (Sleep m # as)"
      by auto
    from 5(1)[OF this(3,2,1)] have "0 < j \<and> (Sleep m # as) ! (j - 1) = Sleep DELAY_MS" .
    with Suc show ?thesis by (cases j) auto
  qed
qed

lemma pacedFrom_refl: "pacedFrom w w"
  by (simp add: pacedFrom_def)

lemma pacedFrom_trans: "pacedFrom w w1 \<Longrightarrow> pacedFrom w1 w2 \<Longrightarrow> pacedFrom w w2"
  by (auto simp: pacedFrom_def intro: paced_append)

lemma pacedFrom_sleep: "pacedFrom w (sleep ms w)"
  by (simp add: pacedFrom_def)

lemma pacedFrom_fetch1: "pacedFrom w (snd (fetchWithJar1 env rq (sleep DELAY_MS w)))"
  using fetchWithJar1_world[of env rq "sleep DELAY_MS w"] by (simp add: pacedFrom_def)

lemma pacedFrom_fetch2: "pacedFrom w (snd (fetchWithJar2 env rq (sleep DELAY_MS w)))"
  using fetchWithJar2_world[of env rq "sleep DELAY_MS w"] by (simp add: pacedFrom_def)

lemma extractSalle1_raises: "extractSalle1 html = Inl ReferenceError"
  by (simp add: extractSalle1_def require_def)

lemma seanceLoop1_paced: "pacedFrom w (snd (seanceLoop1 env film day es rs w))"
proof (induction es arbitrary: rs w)
  case Nil
  show ?case by (simp add: pacedFrom_refl)
next
  case (Cons e es)
  obtain key label where e: "e = (key, label)" by (cases e)
  define rq where "rq = bookRequest CINEMA_SLUG1
     [(''modresa_film'', filmId film), (''modresa_jour'', day),
      (''modresa_seance'', key_seanceId (parseSeanceKey key)), (''valid'', ''Continuer'')]"
  obtain res w2 where f: "fetchWithJar1 env rq (sleep DELAY_MS w) = (res, w2)"
    by (cases "fetchWithJar1 env rq (sleep DELAY_MS w)")
  have p: "pacedFrom w w2" using pacedFrom_fetch1[of w env rq] f by simp
  show ?case
  proof (cases "jsString label")
    case None
    then show ?thesis unfolding e by (simp add: pacedFrom_refl)
  next
    case (Some lt)
    show ?thesis
    proof (cases res)
      case (Inl x)
      then show ?thesis using Some f p unfolding e by (simp add: Let_def rq_def)
    next
      case (Inr b)
      then show ?thesis using Some f p unfolding e
        by (simp add: Let_def rq_def extractSalle1_raises)
    qed
  qed
qed

lemma dayLoop1_paced: "pacedFrom w (snd (dayLoop1 env film days rs w))"
proof (induction days arbitrary: rs w)
  case Nil
  show ?case by (simp add: pacedFrom_refl)
next
  case (Cons day days)
  define rq where "rq = seancesRequest CINEMA_SLUG1 (filmId film) day"
  obtain res w2 where f: "fetchWithJar1 env rq (sleep DELAY_MS w) = (res, w2)"
    by (cases "fetchWithJar1 env rq (sleep DELAY_MS w)")
  have p: "pacedFrom w w2" using pacedFrom_fetch1[of w env rq] f by simp
  show ?case
  proof (cases res)
    case (Inl x)
    then show ?thesis using f p by (simp add: Let_def rq_def)
  next
    case (Inr b)
    show ?thesis
    proof (cases "objectKeys (orEmptyObject b) = []")
      case True
      then show ?thesis using Inr f pacedFrom_trans[OF p Cons.IH[where w=w2]]
        by (simp add: Let_def rq_def)
    next
      case False
      obtain res3 w3 where s: "seanceLoop1 env film day (objectEntries (orEmptyObject b)) rs w2 = (res3, w3)"
        by (cases "seanceLoop1 env film day (objectEntries (orEmptyObject b)) rs w2")
      have p3: "pacedFrom w w3"
        using pacedFrom_trans[OF p seanceLoop1_paced[where w=w2 and env=env and film=film and day=day and es="objectEntries (orEmptyObject b)" and rs=rs]] s by simp
      show ?thesis
      proof (cases res3)
        case (Inl x)
        then show ?thesis using False Inr f s p3 by (simp add: Let_def rq_def)
      next
        case (Inr rs')
        then show ?thesis
          using False \<open>res = Inr b\<close> f s pacedFrom_trans[OF p3 Cons.IH[where w=w3 and rs=rs']]
          by (simp add: Let_def rq_def)
      qed
    qed
  qed
qed

lemma filmLoop1_paced: "pacedFrom w (snd (filmLoop1 env films rs w))"
proof (induction films arbitrary: rs w)
  case Nil
  show ?case by (simp add: pacedFrom_refl)
next
  case (Cons fo films)
  show ?case
  proof (cases fo)
    case None
    then show ?thesis by (simp add: Let_def pacedFrom_sleep)
  next
    case (Some film)
    define rq where "rq = daysRequest CINEMA_SLUG1 (filmId film)"
    obtain res w2 where f: "fetchWithJar1 env rq (sleep DELAY_MS w) = (res, w2)"
      by (cases "fetchWithJar1 env rq (sleep DELAY_MS w)")
    have p: "pacedFrom w w2" using pacedFrom_fetch1[of w env rq] f by simp
    show ?thesis
    proof (cases res)
      case (Inl x)
      then show ?thesis using Some f p by (simp add: Let_def rq_def)
    next
      case (Inr b)
      show ?thesis
      proof (cases "objectKeys (orEmptyObject b) = []")
        case True
        then show ?thesis using Some Inr f pacedFrom_trans[OF p Cons.IH[where w=w2]]
          by (simp add: Let_def rq_def)
      next
        case False
        obtain res3 w3 where s: "dayLoop1 env film (objectKeys (orEmptyObject b)) rs w2 = (res3, w3)"
          by (cases "dayLoop1 env film (objectKeys (orEmptyObject b)) rs w2")
        have p3: "pacedFrom w w3"
          using pacedFrom_trans[OF p dayLoop1_paced[where w=w2 and env=env and film=film and days="objectKeys (orEmptyObject b)" and rs=rs]] s by simp
        show ?thesis
        proof (cases res3)
          case (Inl x)
          then show ?thesis using Some False Inr f s p3 by (simp add: Let_def rq_def)
        next
          case (Inr rs')
          then show ?thesis
            using Some False \<open>res = Inr b\<close> f s pacedFrom_trans[OF p3 Cons.IH[where w=w3 and rs=rs']]
            by (simp add: Let_def rq_def)
        qed
      qed
    qed
  qed
qed

lemma seanceLoop2_paced: "pacedFrom w (snd (seanceLoop2 env film day es rs w))"
proof (induction es arbitrary: rs w)
  case Nil
  show ?case by (simp add: pacedFrom_refl)
next
  case (Cons e es)
  obtain key label where e: "e = (key, label)" by (cases e)
  define rq where "rq = bookRequest (CINEMA_SLUG2 env)
     [(''modresa_film'', filmId film), (''modresa_jour'', day),
      (''modresa_seance'', key)]"
  obtain res w2 where f: "fetchWithJar2 env rq (sleep DELAY_MS w) = (res, w2)"
    by (cases "fetchWithJar2 env rq (sleep DELAY_MS w)")
  have p: "pacedFrom w w2" using pacedFrom_fetch2[of w env rq] f by simp
  show ?case
  proof (cases "jsString label")
    case None
    then show ?thesis unfolding e by (simp add: pacedFrom_refl)
  next
    case (Some lt)
    show ?thesis
    proof (cases res)
      case (Inl x)
      then show ?thesis using Some f p unfolding e by (simp add: Let_def rq_def)
    next
      case (Inr b)
      then show ?thesis using Some f pacedFrom_trans[OF p Cons.IH[where w=w2]] unfolding e
        by (simp add: Let_def rq_def)
    qed
  qed
qed

lemma dayLoop2_paced: "pacedFrom w (snd (dayLoop2 env film days rs w))"
proof (induction days arbitrary: rs w)
  case Nil
  show ?case by (simp add: pacedFrom_refl)
next
  case (Cons day days)
  define rq where "rq = seancesRequest (CINEMA_SLUG2 env) (filmId film) day"
  obtain res w2 where f: "fetchWithJar2 env rq (sleep DELAY_MS w) = (res, w2)"
    by (cases "fetchWithJar2 env rq (sleep DELAY_MS w)")
  have p: "pacedFrom w w2" using pacedFrom_fetch2[of w env rq] f by simp
  show ?case
  proof (cases res)
    case (Inl x)
    then show ?thesis using f p by (simp add: Let_def rq_def)
  next
    case (Inr b)
    show ?thesis
    proof (cases "objectKeys (orEmptyObject b) = []")
      case True
      then show ?thesis using Inr f pacedFrom_trans[OF p Cons.IH[where w=w2]]
        by (simp add: Let_def rq_def)
    next
      case False
      obtain res3 w3 where s: "seanceLoop2 env film day (objectEntries (orEmptyObject b)) rs w2 = (res3, w3)"
        by (cases "seanceLoop2 env film day (objectEntries (orEmptyObject b)) rs w2")
      have p3: "pacedFrom w w3"
        using pacedFrom_trans[OF p seanceLoop2_paced[where w=w2 and env=env and film=film and day=day and es="objectEntries (orEmptyObject b)" and rs=rs]] s by simp
      show ?thesis
      proof (cases res3)
        case (Inl x)
        then show ?thesis using False Inr f s p3 by (simp add: Let_def rq_def)
      next
        case (Inr rs')
        then show ?thesis
          using False \<open>res = Inr b\<close> f s pacedFrom_trans[OF p3 Cons.IH[where w=w3 and rs=rs']]
          by (simp add: Let_def rq_def)
      qed
    qed
  qed
qed

lemma filmLoop2_paced: "pacedFrom w (snd (filmLoop2 env films rs w))"
proof (induction films arbitrary: rs w)
  case Nil
  show ?case by (simp add: pacedFrom_refl)
next
  case (Cons fo films)
  show ?case
  proof (cases fo)
    case None
    then show ?thesis by (simp add: pacedFrom_refl)
  next
    case (Some film)
    define rq where "rq = daysRequest (CINEMA_SLUG2 env) (filmId film)"
    obtain res w2 where f: "fetchWithJar2 env rq (sleep DELAY_MS w) = (res, w2)"
      by (cases "fetchWithJar2 env rq (sleep DELAY_MS w)")
    have p: "pacedFrom w w2" using pacedFrom_fetch2[of w env rq] f by simp
    show ?thesis
    proof (cases res)
      case (Inl x)
      then show ?thesis using Some f p by (simp add: Let_def rq_def)
    next
      case (Inr b)
      show ?thesis
      proof (cases "objectKeys (orEmptyObject b) = []")
        case True
        then show ?thesis using Some Inr f pacedFrom_trans[OF p Cons.IH[where w=w2]]
          by (simp add: Let_def rq_def)
      next
        case False
        obtain res3 w3 where s: "dayLoop2 env film (objectKeys (orEmptyObject b)) rs w2 = (res3, w3)"
          by (cases "dayLoop2 env film (objectKeys (orEmptyObject b)) rs w2")
        have p3: "pacedFrom w w3"
          using pacedFrom_trans[OF p dayLoop2_paced[where w=w2 and env=env and film=film and days="objectKeys (orEmptyObject b)" and rs=rs]] s by simp
        show ?thesis
        proof (cases res3)
          case (Inl x)
          then show ?thesis using Some False Inr f s p3 by (simp add: Let_def rq_def)
        next
          case (Inr rs')
          then show ?thesis
            using Some False \<open>res = Inr b\<close> f s pacedFrom_trans[OF p3 Cons.IH[where w=w3 and rs=rs']]
            by (simp add: Let_def rq_def)
        qed
      qed
    qed
  qed
qed

lemma worldAfter1_simps [simp]:
  "disk (worldAfter1 env rq w) = disk w"
  "trace (worldAfter1 env rq w) =
     trace w @ [Fetch (rq\<lparr>headers := applyJar (jar w) (mkHeaders (headers rq))\<rparr>)]"
  using fetchWithJar1_world[of env rq w] by (simp_all add: worldAfter1_def)

lemma worldAfter2_simps [simp]:
  "disk (worldAfter2 env rq w) = disk w"
  "trace (worldAfter2 env rq w) =
     trace w @ [Fetch (rq\<lparr>headers := applyJar (jar w) (mkHeaders (headers rq))\<rparr>)]"
  using fetchWithJar2_world[of env rq w] by (simp_all add: worldAfter2_def)

lemma answers_exchange:
  assumes "answers env rq b"
  obtains r w1 where "exchange env rq w = (Some r, w1)"
    and "if isJsonResponse r then JSON_parse env (payload r) = Some b else b = JStr (payload r)"
proof -
  define hs where "hs = applyJar (jar w) (mkHeaders (headers rq))"
  obtain res s' where f: "fetch env (net w) (rq\<lparr>headers := hs\<rparr>) = (res, s')"
    by (cases "fetch env (net w) (rq\<lparr>headers := hs\<rparr>)")
  have "case fetch env (net w) (rq\<lparr>headers := hs\<rparr>) of
               (None, s') \<Rightarrow> False
             | (Some r, s') \<Rightarrow>
                 if isJsonResponse r then JSON_parse env (payload r) = Some b
                 else b = JStr (payload r)"
    using assms[unfolded answers_def, THEN spec, THEN spec, of "net w" hs] .
  with f obtain r where r: "res = Some r"
    "if isJsonResponse r then JSON_parse env (payload r) = Some b else b = JStr (payload r)"
    by (cases res) auto
  have "exchange env rq w =
      (Some r, (w\<lparr>net := s', trace := trace w @ [Fetch (rq\<lparr>headers := hs\<rparr>)]\<rparr>)
                 \<lparr>jar := setFrom (jar w) (setCookie r)\<rparr>)"
    using f r(1) by (simp add: exchange_def Let_def hs_def)
  with r(2) that show ?thesis by blast
qed

lemma answers_fetch1:
  assumes "answers env rq b"
  shows "fetchWithJar1 env rq w = (Inr b, worldAfter1 env rq w)"
proof -
  obtain r w1 where e: "exchange env rq w = (Some r, w1)"
    and d: "if isJsonResponse r then JSON_parse env (payload r) = Some b else b = JStr (payload r)"
    using answers_exchange[OF assms] by blast
  have "fst (fetchWithJar1 env rq w) = Inr b"
    using e d by (auto simp: fetchWithJar1_def safeJson_def split: if_splits)
  then show ?thesis
    unfolding worldAfter1_def by (metis prod.collapse)
qed

lemma answers_fetch2:
  assumes "answers env rq b"
  shows "fetchWithJar2 env rq w = (Inr b, worldAfter2 env rq w)"
proof -
  obtain r w1 where e: "exchange env rq w = (Some r, w1)"
    and d: "if isJsonResponse r then JSON_parse env (payload r) = Some b else b = JStr (payload r)"
    using answers_exchange[OF assms] by blast
  have "fst (fetchWithJar2 env rq w) = Inr b"
    using e d by (auto simp: fetchWithJar2_def split: if_splits)
  then show ?thesis
    unfolding worldAfter2_def by (metis prod.collapse)
qed

lemma crawl1_trace:
  "disk (snd (crawl1 env w)) = disk w \<and>
   (\<exists>rq ext. trace (snd (crawl1 env w)) = trace w @ Fetch rq # ext \<and> paced ext)"
proof -
  define rq where "rq = seedRequest CINEMA_SLUG1"
  obtain res w1 where f: "fetchWithJar1 env rq w = (res, w1)"
    by (cases "fetchWithJar1 env rq w")
  have w1: "disk w1 = disk w"
    "trace w1 = trace w @ [Fetch (rq\<lparr>headers := applyJar (jar w) (mkHeaders (headers rq))\<rparr>)]"
    using fetchWithJar1_world[of env rq w] f by simp_all
  show ?thesis
  proof (cases res)
    case (Inl e)
    then show ?thesis using f w1 by (simp add: crawl1_def rq_def)
  next
    case (Inr page)
    define films where "films = [nthOpt (parseFilmsFromHTML (loadHTML env (orEmptyString page))) 0]"
    have c: "crawl1 env w = filmLoop1 env films [] w1"
      using f Inr by (simp add: crawl1_def rq_def films_def)
    have "pacedFrom w1 (snd (filmLoop1 env films [] w1))" by (rule filmLoop1_paced)
    then show ?thesis using w1 c by (auto simp: pacedFrom_def)
  qed
qed

lemma crawl2_trace:
  "disk (snd (crawl2 env w)) = disk w \<and>
   (\<exists>rq ext. trace (snd (crawl2 env w)) = trace w @ Fetch rq # ext \<and> paced ext)"
proof -
  define rq where "rq = seedRequest (CINEMA_SLUG2 env)"
  obtain res w1 where f: "fetchWithJar2 env rq w = (res, w1)"
    by (cases "fetchWithJar2 env rq w")
  have w1: "disk w1 = disk w"
    "trace w1 = trace w @ [Fetch (rq\<lparr>headers := applyJar (jar w) (mkHeaders (headers rq))\<rparr>)]"
    using fetchWithJar2_world[of env rq w] f by simp_all
  show ?thesis
  proof (cases res)
    case (Inl e)
    then show ?thesis using f w1 by (simp add: crawl2_def rq_def)
  next
    case (Inr page)
    define films where "films = [nthOpt (parseFilmsFromHTML (loadHTML env (orEmptyString page))) 1]"
    have c: "crawl2 env w = filmLoop2 env films [] w1"
      using f Inr by (simp add: crawl2_def rq_def films_def)
    have "pacedFrom w1 (snd (filmLoop2 env films [] w1))" by (rule filmLoop2_paced)
    then show ?thesis using w1 c by (auto simp: pacedFrom_def)
  qed
qed

lemma main1_trace: "trace (snd (main1 env n fs)) = trace (snd (crawl1 env (initialWorld n fs)))"
  by (simp add: main1_def split: prod.splits sum.splits)

lemma main2_trace: "trace (snd (main2 env n fs)) = trace (snd (crawl2 env (initialWorld n fs)))"
  by (simp add: main2_def split: prod.splits sum.splits)

lemma main1_failed:
  "fst (crawl1 env (initialWorld n fs)) = Inl e \<Longrightarrow>
   fst (main1 env n fs) = Exited 1 \<and> disk (snd (main1 env n fs)) = fs"
  using crawl1_trace[of env "initialWorld n fs"]
  by (auto simp: main1_def initialWorld_def split: prod.splits sum.splits)

lemma main2_failed:
  "fst (crawl2 env (initialWorld n fs)) = Inl e \<Longrightarrow>
   fst (main2 env n fs) = Exited 1 \<and> disk (snd (main2 env n fs)) = fs"
  using crawl2_trace[of env "initialWorld n fs"]
  by (auto simp: main2_def initialWorld_def split: prod.splits sum.splits)

lemma seeded_trace:
  assumes "tr = Fetch rq # ext" "paced ext"
  shows "tr \<noteq> [] \<and> isFetch (tr ! 0) \<and>
     (\<forall>i. 0 < i \<and> i < length tr \<and> isFetch (tr ! i) \<longrightarrow> tr ! (i - 1) = Sleep DELAY_MS)"
proof -
  have "tr ! (i - 1) = Sleep DELAY_MS" if i: "0 < i" "i < length tr" "isFetch (tr ! i)" for i
  proof -
    obtain j where j: "i = Suc j" using i(1) by (cases i) auto
    then have "j < length ext" "isFetch (ext ! j)" using i assms(1) by auto
    from paced_nth[OF assms(2) this] have "0 < j" "ext ! (j - 1) = Sleep DELAY_MS" by auto
    then show ?thesis using j assms(1) by (cases j) auto
  qed
  then show ?thesis using assms(1) by auto
qed

text \<open>
  Claim C7, as the code has it. In the trace of a run of either listing the first action
  is the seed request, with no suspension before it; every later request comes right
  after a suspension of \<open>DELAY_MS\<close>. So the days, showtimes and reveal requests are
  paced and the seed request is not.
\<close>

theorem pacing_after_seed:
  assumes "tr = trace (snd (main1 env n fs)) \<or> tr = trace (snd (main2 env n fs))"
  shows "tr \<noteq> [] \<and> isFetch (tr ! 0) \<and>
     (\<forall>i. 0 < i \<and> i < length tr \<and> isFetch (tr ! i) \<longrightarrow> tr ! (i - 1) = Sleep DELAY_MS)"
proof -
  have "\<exists>rq ext. tr = Fetch rq # ext \<and> paced ext"
    using assms crawl1_trace[of env "initialWorld n fs"] crawl2_trace[of env "initialWorld n fs"]
    by (auto simp: main1_trace main2_trace initialWorld_def)
  then show ?thesis using seeded_trace by blast
qed

section \<open>The room extractor\<close>

lemma toLowerAscii_underscore: "toLowerAscii c = CHR ''_'' \<longleftrightarrow> c = CHR ''_''"
proof
  assume a: "toLowerAscii c = CHR ''_''"
  show "c = CHR ''_''"
  proof (cases "65 \<le> (of_char c :: nat) \<and> (of_char c :: nat) \<le> 90")
    case True
    then have "of_char (toLowerAscii c) = (of_char c :: nat) + 32"
      by (simp add: toLowerAscii_def)
    with a True show ?thesis by simp
  next
    case False
    with a show ?thesis by (simp add: toLowerAscii_def)
  qed
qed (simp add: toLowerAscii_def)

lemma toLowerAscii_dash: "toLowerAscii c = CHR ''-'' \<longleftrightarrow> c = CHR ''-''"
proof
  assume a: "toLowerAscii c = CHR ''-''"
  show "c = CHR ''-''"
  proof (cases "65 \<le> (of_char c :: nat) \<and> (of_char c :: nat) \<le> 90")
    case True
    then have "of_char (toLowerAscii c) = (of_char c :: nat) + 32"
      by (simp add: toLowerAscii_def)
    with a True show ?thesis by simp
  next
    case False
    with a show ?thesis by (simp add: toLowerAscii_def)
  qed
qed (simp add: toLowerAscii_def)

lemma startsWith_nth:
  "startsWith s p \<Longrightarrow> i < length p \<Longrightarrow> i < length s \<and> s ! i = p ! i"
  by (induction s p arbitrary: i rule: startsWith.induct) (auto simp: nth_Cons split: nat.splits)

lemma matchSalPngAt_underscore:
  assumes "matchSalPngAt s \<noteq> None"
  shows "3 < length s \<and> s ! 3 = CHR ''_''"
proof -
  have "startsWith (map toLowerAscii s) ''sal_''"
    using assms by (auto simp: matchSalPngAt_def ciStartsWith_def split: if_splits)
  from startsWith_nth[OF this, of 3] have "3 < length s" "toLowerAscii (s ! 3) = CHR ''_''"
    by auto
  then show ?thesis by (simp add: toLowerAscii_underscore)
qed

lemma matchTagSalAt_dash:
  assumes "matchTagSalAt s \<noteq> None"
  shows "3 < length s \<and> s ! 3 = CHR ''-''"
proof -
  have "startsWith (map toLowerAscii s) ''tag-sal''"
    using assms by (auto simp: matchTagSalAt_def ciStartsWith_def split: if_splits)
  from startsWith_nth[OF this, of 3] have "3 < length s" "toLowerAscii (s ! 3) = CHR ''-''"
    by auto
  then show ?thesis by (simp add: toLowerAscii_dash)
qed

text \<open>Skipping a prefix in which no match can start.\<close>

lemma firstMatch_skip:
  assumes "\<And>k. k < length p \<Longrightarrow> m (drop k (p @ rest)) = None"
  shows "firstMatch m (p @ rest) = firstMatch m rest"
  using assms
proof (induction p)
  case Nil
  then show ?case by simp
next
  case (Cons c p)
  have 0: "m ((c # p) @ rest) = None" using Cons.prems[of 0] by simp
  have "\<And>k. k < length p \<Longrightarrow> m (drop k (p @ rest)) = None"
    using Cons.prems[of "Suc k" for k] by simp
  from Cons.IH[OF this] 0 show ?case by simp
qed

lemma nth_drop_append_3:
  assumes "k < length p" "c \<notin> set p" "3 \<le> length rest" "rest ! 0 \<noteq> c" "rest ! 1 \<noteq> c" "rest ! 2 \<noteq> c"
  shows "drop k (p @ rest) ! 3 \<noteq> c"
proof -
  have d: "drop k (p @ rest) ! 3 = (p @ rest) ! (k + 3)"
    using assms(1) by (subst nth_drop) simp_all
  show ?thesis
  proof (cases "k + 3 < length p")
    case True
    then have "(p @ rest) ! (k + 3) \<in> set p" by (simp add: nth_append)
    with assms(2) d show ?thesis by auto
  next
    case False
    then have "(p @ rest) ! (k + 3) = rest ! (k + 3 - length p)" by (simp add: nth_append)
    moreover have "k + 3 - length p < 3" using assms(1) by arith
    then have "k + 3 - length p = 0 \<or> k + 3 - length p = 1 \<or> k + 3 - length p = 2" by arith
    ultimately show ?thesis using assms(4,5,6) d by auto
  qed
qed

lemma firstMatch_sal_png_prefix:
  assumes "CHR ''_'' \<notin> set p"
  shows "firstMatch matchSalPngAt (p @ ''/img/tags/sal_'' @ r) = firstMatch matchSalPngAt (''sal_'' @ r)"
proof -
  have 1: "firstMatch matchSalPngAt (p @ ''/img/tags/sal_'' @ r)
         = firstMatch matchSalPngAt (''/img/tags/sal_'' @ r)"
  proof (rule firstMatch_skip)
    fix k assume k: "k < length p"
    have "drop k (p @ ''/img/tags/sal_'' @ r) ! 3 \<noteq> CHR ''_''"
      by (rule nth_drop_append_3[OF k assms]) simp_all
    then show "matchSalPngAt (drop k (p @ ''/img/tags/sal_'' @ r)) = None"
      using matchSalPngAt_underscore by blast
  qed
  have 2: "firstMatch matchSalPngAt (''/img/tags/sal_'' @ r) = firstMatch matchSalPngAt (''sal_'' @ r)"
    by (simp add: matchSalPngAt_def ciStartsWith_def toLowerAscii_def)
  show ?thesis using 1 2 by simp
qed

lemma ciStartsWith_dot_png: "ciStartsWith (''.png'' @ q) ''.png''"
  by (simp add: ciStartsWith_def toLowerAscii_def)

lemma isDigit_dot: "\<not> isDigit (CHR ''.'')"
  by (simp add: isDigit_def)

lemma firstMatch_sal_png2:
  assumes "CHR ''_'' \<notin> set p" "isDigit d1" "isDigit d2"
  shows "firstMatch matchSalPngAt (p @ ''/img/tags/sal_'' @ [d1, d2] @ ''.png'' @ q) = Some [d1, d2]"
proof -
  have "matchSalPngAt (''sal_'' @ [d1, d2] @ ''.png'' @ q) = Some [d1, d2]"
    using assms(2,3) ciStartsWith_dot_png[of q]
    by (simp add: matchSalPngAt_def ciStartsWith_def toLowerAscii_def)
  then show ?thesis
    using firstMatch_sal_png_prefix[OF assms(1), of "[d1, d2] @ ''.png'' @ q"] by simp
qed

lemma firstMatch_sal_png1:
  assumes "CHR ''_'' \<notin> set p" "isDigit d1"
  shows "firstMatch matchSalPngAt (p @ ''/img/tags/sal_'' @ [d1] @ ''.png'' @ q) = Some [d1]"
proof -
  have "matchSalPngAt (''sal_'' @ [d1] @ ''.png'' @ q) = Some [d1]"
    using assms(2) ciStartsWith_dot_png[of q] isDigit_dot
    by (simp add: matchSalPngAt_def ciStartsWith_def toLowerAscii_def)
  then show ?thesis
    using firstMatch_sal_png_prefix[OF assms(1), of "[d1] @ ''.png'' @ q"] by simp
qed

lemma firstMatch_tag_sal_prefix:
  assumes "CHR ''-'' \<notin> set p"
  shows "firstMatch matchTagSalAt (p @ ''tag-SAL'' @ r) = firstMatch matchTagSalAt (''tag-SAL'' @ r)"
proof (rule firstMatch_skip)
  fix k assume k: "k < length p"
  have "drop k (p @ ''tag-SAL'' @ r) ! 3 \<noteq> CHR ''-''"
    by (rule nth_drop_append_3[OF k assms]) simp_all
  then show "matchTagSalAt (drop k (p @ ''tag-SAL'' @ r)) = None"
    using matchTagSalAt_dash by blast
qed

lemma firstMatch_tag_sal2:
  assumes "CHR ''-'' \<notin> set p" "isDigit d1" "isDigit d2"
  shows "firstMatch matchTagSalAt (p @ ''tag-SAL'' @ [d1, d2] @ q) = Some [d1, d2]"
proof -
  have "matchTagSalAt (''tag-SAL'' @ [d1, d2] @ q) = Some [d1, d2]"
    using assms(2,3)
    by (simp add: matchTagSalAt_def ciStartsWith_def toLowerAscii_def char_of_eq_iff)
  then show ?thesis
    using firstMatch_tag_sal_prefix[OF assms(1), of "[d1, d2] @ q"] by simp
qed

lemma digitChar_digitVal: "isDigit d \<Longrightarrow> digitChar (digitVal d) = d"
  by (simp add: isDigit_def digitChar_def digitVal_def)

lemma digitVal_less: "isDigit d \<Longrightarrow> digitVal d < 10"
  by (auto simp: isDigit_def digitVal_def)

lemma digitVal_zero: "isDigit d \<Longrightarrow> digitVal d = 0 \<Longrightarrow> d = CHR ''0''"
proof -
  assume a: "isDigit d" "digitVal d = 0"
  then have "(of_char d :: nat) = 48" by (auto simp: isDigit_def digitVal_def)
  then have "char_of (of_char d :: nat) = (char_of (48 :: nat) :: char)" by simp
  then show ?thesis by (simp add: char_of_eq_iff)
qed

lemma showNat_digit: "n < 10 \<Longrightarrow> showNat n = [digitChar n]"
  by (simp add: showNat.simps)

text \<open>One or two digits: the padded text and the decimal text of the same number.\<close>

lemma numericSalle_shape:
  assumes "ds \<noteq> []" "length ds \<le> 2" "list_all isDigit ds"
  shows "digitsVal ds < 100 \<and>
     numericSalle ds = \<lparr>salleNum = padStart2 (showNat (digitsVal ds)),
                        salleLabel = ''Salle '' @ showNat (digitsVal ds)\<rparr>"
proof (cases ds)
  case Nil
  with assms show ?thesis by simp
next
  case (Cons d1 r)
  show ?thesis
  proof (cases r)
    case Nil
    have d: "isDigit d1" using assms(3) Cons by simp
    have v: "digitsVal [d1] = digitVal d1" by (simp add: digitsVal_def)
    have s: "showNat (digitVal d1) = [d1]"
      using d by (simp add: showNat_digit digitVal_less digitChar_digitVal)
    have p: "digitsVal (padStart2 [d1]) = digitVal d1"
      by (simp add: padStart2_def digitsVal_def digitVal_def)
    show ?thesis
      using Cons Nil v s p digitVal_less[OF d] by (simp add: numericSalle_def Let_def padStart2_def)
  next
    case (Cons d2 r2)
    with assms(2) \<open>ds = d1 # r\<close> have ds: "ds = [d1, d2]" by simp
    have d: "isDigit d1" "isDigit d2" using assms(3) ds by simp_all
    have v: "digitsVal [d1, d2] = 10 * digitVal d1 + digitVal d2" by (simp add: digitsVal_def)
    have lt: "digitsVal [d1, d2] < 100" using v digitVal_less[OF d(1)] digitVal_less[OF d(2)] by arith
    have s: "padStart2 (showNat (digitsVal [d1, d2])) = [d1, d2]"
    proof (cases "digitVal d1 = 0")
      case True
      then have "d1 = CHR ''0''" using digitVal_zero[OF d(1)] by simp
      then show ?thesis
        using True v digitVal_less[OF d(2)] d(2)
        by (simp add: showNat_digit digitChar_digitVal padStart2_def)
    next
      case False
      have ge: "\<not> 10 * digitVal d1 + digitVal d2 < 10" using False by arith
      have dv: "(10 * digitVal d1 + digitVal d2) div 10 = digitVal d1"
        "(10 * digitVal d1 + digitVal d2) mod 10 = digitVal d2"
        using digitVal_less[OF d(2)] by simp_all
      have "showNat (10 * digitVal d1 + digitVal d2) = showNat (digitVal d1) @ [digitChar (digitVal d2)]"
        by (subst showNat.simps) (simp only: ge dv if_False)
      then show ?thesis
        using v d by (simp add: showNat_digit digitVal_less digitChar_digitVal padStart2_def)
    qed
    show ?thesis
      using ds lt s by (simp add: numericSalle_def Let_def padStart2_def)
  qed
qed

lemma firstMatch_Some: "firstMatch m s = Some r \<Longrightarrow> \<exists>k. m (drop k s) = Some r"
proof (induction s)
  case Nil
  then show ?case by auto
next
  case (Cons c s)
  show ?case
  proof (cases "m (c # s)")
    case None
    with Cons obtain k where "m (drop k s) = Some r" by auto
    then have "m (drop (Suc k) (c # s)) = Some r" by simp
    then show ?thesis by blast
  next
    case (Some a)
    with Cons.prems have "m (drop 0 (c # s)) = Some r" by simp
    then show ?thesis by blast
  qed
qed

lemma takeWhile_digits2: "list_all isDigit (takeWhile isDigit (take 2 r)) \<and> length (takeWhile isDigit (take 2 r)) \<le> 2"
proof -
  have "length (takeWhile isDigit (take 2 r)) \<le> length (take 2 r)" by (rule length_takeWhile_le)
  moreover have "list_all isDigit (takeWhile isDigit (take 2 r))"
    by (simp add: list_all_iff) (meson set_takeWhileD)
  ultimately show ?thesis by simp
qed

lemma matchSalPngAt_digits: "matchSalPngAt s = Some ds \<Longrightarrow> roomDigits ds"
  using takeWhile_digits2[of "drop 4 s"]
  by (auto simp: matchSalPngAt_def roomDigits_def Let_def list_all_iff split: if_splits
      dest: in_set_takeD)

lemma matchTagSalAt_digits: "matchTagSalAt s = Some ds \<Longrightarrow> roomDigits ds"
  using takeWhile_digits2[of "drop 7 s"]
  by (auto simp: matchTagSalAt_def roomDigits_def Let_def split: if_splits)

lemma matchSalleAt_digits: "matchSalleAt s = Some ds \<Longrightarrow> roomDigits ds"
  using takeWhile_digits2[of "dropWhile isWhiteSpace (drop 5 s)"]
  by (auto simp: matchSalleAt_def roomDigits_def Let_def split: if_splits)

lemma salleDigits_digits: "salleDigits img = Some ds \<Longrightarrow> roomDigits ds"
  by (auto simp: salleDigits_def split: option.splits
      dest!: firstMatch_Some dest: matchSalPngAt_digits matchTagSalAt_digits matchSalleAt_digits)

lemma firstSome_single: "firstSome [x] = x"
  by (cases x) simp_all

lemma salleDigits_priority:
  "salleDigits i =
     firstSome [firstMatch matchSalPngAt (attrOr i ''src''),
                firstMatch matchTagSalAt (attrOr i ''class''),
                firstMatch matchSalleAt (attrOr i ''alt''),
                firstMatch matchSalleAt (attrOr i ''title'')]"
  by (simp add: salleDigits_def firstSome_single split: option.splits)

lemma salleDigits_src06:
  assumes "CHR ''_'' \<notin> set p" "attr i ''src'' = Some (p @ ''/img/tags/sal_06.png'' @ q)"
  shows "salleDigits i = Some ''06''"
proof -
  have "firstMatch matchSalPngAt (p @ ''/img/tags/sal_'' @ [CHR ''0'', CHR ''6''] @ ''.png'' @ q)
        = Some [CHR ''0'', CHR ''6'']"
    by (rule firstMatch_sal_png2[OF assms(1)]) (simp_all add: isDigit_def)
  then show ?thesis using assms(2) by (simp add: salleDigits_def attrOr_def)
qed

lemma salleDigits_src10:
  assumes "CHR ''_'' \<notin> set p" "attr i ''src'' = Some (p @ ''/img/tags/sal_10.png'' @ q)"
  shows "salleDigits i = Some ''10''"
proof -
  have "firstMatch matchSalPngAt (p @ ''/img/tags/sal_'' @ [CHR ''1'', CHR ''0''] @ ''.png'' @ q)
        = Some [CHR ''1'', CHR ''0'']"
    by (rule firstMatch_sal_png2[OF assms(1)]) (simp_all add: isDigit_def)
  then show ?thesis using assms(2) by (simp add: salleDigits_def attrOr_def)
qed

lemma salleDigits_class10:
  assumes "firstMatch matchSalPngAt (attrOr i ''src'') = None"
    "CHR ''-'' \<notin> set p" "attr i ''class'' = Some (p @ ''tag-SAL10'' @ q)"
  shows "salleDigits i = Some ''10''"
proof -
  have "firstMatch matchTagSalAt (p @ ''tag-SAL'' @ [CHR ''1'', CHR ''0''] @ q)
        = Some [CHR ''1'', CHR ''0'']"
    by (rule firstMatch_tag_sal2[OF assms(2)]) (simp_all add: isDigit_def)
  then show ?thesis using assms(1,3) by (simp add: salleDigits_def attrOr_def)
qed

lemma numericSalle_06: "numericSalle ''06'' = \<lparr>salleNum = ''06'', salleLabel = ''Salle 6''\<rparr>"
  by (simp add: numericSalle_def padStart2_def digitsVal_def digitVal_def showNat.simps
      digitChar_def char_of_eq_iff)

lemma numericSalle_10: "numericSalle ''10'' = \<lparr>salleNum = ''10'', salleLabel = ''Salle 10''\<rparr>"
  by (simp add: numericSalle_def padStart2_def digitsVal_def digitVal_def showNat.simps
      digitChar_def char_of_eq_iff)

text \<open>
  Claim C2, as the second listing has it. \<open>img\<close> is the first image that the selector
  finds in the page \<open>doc\<close>. A source \<open>p\<close>\<^verbatim>\<open>/img/tags/sal_06.png\<close>\<open>q\<close> with no
  underscore in \<open>p\<close> gives the room \<open>06\<close> with the label \<^verbatim>\<open>Salle 6\<close>. A class
  \<open>p\<close>\<^verbatim>\<open>tag-SAL10\<close>\<open>q\<close> with no hyphen in \<open>p\<close>, on an image whose source has no
  match of the file name pattern, gives the room \<open>10\<close> with the label \<^verbatim>\<open>Salle 10\<close>.
  Where none of the patterns matches, the class \<^verbatim>\<open>tag tag-ICEBYCGR\<close> gives the room
  \<open>ICE\<close> with the label \<^verbatim>\<open>Salle ICE\<close> and any other image the empty room; a page
  \<open>dn\<close> without such an image gives the empty room. The digits are looked for in
  \<^verbatim>\<open>src\<close>, \<^verbatim>\<open>class\<close>, \<^verbatim>\<open>alt\<close> and \<^verbatim>\<open>title\<close> in that order, the leftmost
  match of each, and the special class is tried after them. The number found is the
  decimal text of some \<open>n < 100\<close> padded to two digits and the label is \<^verbatim>\<open>Salle\<close>
  followed by the same text unpadded. The extractor is a total function: it raises
  nothing.
\<close>

theorem extractSalle_rooms:
  assumes "find isSalleImg2 (docElements doc) = Some img"
  shows "(CHR ''_'' \<notin> set p \<and> attr img ''src'' = Some (p @ ''/img/tags/sal_06.png'' @ q) \<longrightarrow>
       extractSalle2 doc = \<lparr>salleNum = ''06'', salleLabel = ''Salle 6''\<rparr>) \<and>
    (firstMatch matchSalPngAt (attrOr img ''src'') = None \<and> CHR ''-'' \<notin> set p \<and>
     attr img ''class'' = Some (p @ ''tag-SAL10'' @ q) \<longrightarrow>
       extractSalle2 doc = \<lparr>salleNum = ''10'', salleLabel = ''Salle 10''\<rparr>) \<and>
    (salleDigits img = None \<and> attr img ''class'' = Some ''tag tag-ICEBYCGR'' \<longrightarrow>
       extractSalle2 doc = \<lparr>salleNum = ''ICE'', salleLabel = ''Salle ICE''\<rparr>) \<and>
    (salleDigits img = None \<and> attr img ''class'' \<noteq> Some ''tag tag-ICEBYCGR'' \<longrightarrow>
       extractSalle2 doc = \<lparr>salleNum = [], salleLabel = []\<rparr>) \<and>
    (find isSalleImg2 (docElements dn) = None \<longrightarrow>
       extractSalle2 dn = \<lparr>salleNum = [], salleLabel = []\<rparr>) \<and>
    salleDigits img =
      firstSome [firstMatch matchSalPngAt (attrOr img ''src''),
                 firstMatch matchTagSalAt (attrOr img ''class''),
                 firstMatch matchSalleAt (attrOr img ''alt''),
                 firstMatch matchSalleAt (attrOr img ''title'')] \<and>
    (salleDigits img = Some ds \<longrightarrow>
       (\<exists>n<100. extractSalle2 doc = \<lparr>salleNum = padStart2 (showNat n),
                                       salleLabel = ''Salle '' @ showNat n\<rparr>))"
proof -
  have num: "extractSalle2 doc = numericSalle ds'" if "salleDigits img = Some ds'" for ds'
    using assms that by (simp add: extractSalle2_def)
  have shape: "salleDigits img = Some ds \<longrightarrow>
       (\<exists>n<100. extractSalle2 doc = \<lparr>salleNum = padStart2 (showNat n),
                                       salleLabel = ''Salle '' @ showNat n\<rparr>)"
  proof
    assume d: "salleDigits img = Some ds"
    then have "roomDigits ds" by (rule salleDigits_digits)
    then show "\<exists>n<100. extractSalle2 doc = \<lparr>salleNum = padStart2 (showNat n),
                                     salleLabel = ''Salle '' @ showNat n\<rparr>"
      using numericSalle_shape[of ds] num[OF d] unfolding roomDigits_def by auto
  qed
  have other: "(salleDigits img = None \<and> attr img ''class'' = Some ''tag tag-ICEBYCGR'' \<longrightarrow>
       extractSalle2 doc = \<lparr>salleNum = ''ICE'', salleLabel = ''Salle ICE''\<rparr>) \<and>
    (salleDigits img = None \<and> attr img ''class'' \<noteq> Some ''tag tag-ICEBYCGR'' \<longrightarrow>
       extractSalle2 doc = \<lparr>salleNum = [], salleLabel = []\<rparr>)"
    using assms
    by (auto simp: extractSalle2_def noSalle_def salleICE_def attrOr_def split: option.splits)
  have none: "find isSalleImg2 (docElements dn) = None \<longrightarrow>
       extractSalle2 dn = \<lparr>salleNum = [], salleLabel = []\<rparr>"
    by (simp add: extractSalle2_def noSalle_def)
  have a: "CHR ''_'' \<notin> set p \<and> attr img ''src'' = Some (p @ ''/img/tags/sal_06.png'' @ q) \<longrightarrow>
       extractSalle2 doc = \<lparr>salleNum = ''06'', salleLabel = ''Salle 6''\<rparr>"
    using salleDigits_src06[of p img q] num[of "''06''"] numericSalle_06 by auto
  have b: "firstMatch matchSalPngAt (attrOr img ''src'') = None \<and> CHR ''-'' \<notin> set p \<and>
     attr img ''class'' = Some (p @ ''tag-SAL10'' @ q) \<longrightarrow>
       extractSalle2 doc = \<lparr>salleNum = ''10'', salleLabel = ''Salle 10''\<rparr>"
    using salleDigits_class10[of img p q] num[of "''10''"] numericSalle_10 by auto
  show ?thesis
    using a b other none shape salleDigits_priority[of img] by blast
qed

theorem extractSalle_rooms_witness:
  "extractSalle2 [Element ''div'' [] [Element ''img'' [(''alt'', ''logo'')] [],
                                       Element ''img'' [(''src'', ''/img/tags/sal_06.png'')] []]]
     = \<lparr>salleNum = ''06'', salleLabel = ''Salle 6''\<rparr> \<and>
   extractSalle2 [Element ''img'' [(''class'', ''tag tag-SAL10'')] []]
     = \<lparr>salleNum = ''10'', salleLabel = ''Salle 10''\<rparr> \<and>
   extractSalle2 [Element ''img'' [(''class'', ''tag tag-ICEBYCGR'')] []]
     = \<lparr>salleNum = ''ICE'', salleLabel = ''Salle ICE''\<rparr> \<and>
   extractSalle2 [Element ''img'' [(''class'', ''tag-SALON'')] []]
     = \<lparr>salleNum = [], salleLabel = []\<rparr> \<and>
   extractSalle2 [Element ''p'' [] [TextNode ''complet'']] = \<lparr>salleNum = [], salleLabel = []\<rparr>"
proof -
  define ia where "ia = Element ''img'' [(''src'', ''/img/tags/sal_06.png'')] []"
  define da where "da = [Element ''div'' [] [Element ''img'' [(''alt'', ''logo'')] [], ia]]"
  define ib where "ib = Element ''img'' [(''class'', ''tag tag-SAL10'')] []"
  define ic where "ic = Element ''img'' [(''class'', ''tag tag-ICEBYCGR'')] []"
  define ie where "ie = Element ''img'' [(''class'', ''tag-SALON'')] []"
  define dn where "dn = [Element ''p'' [] [TextNode ''complet'']]"
  have fa: "find isSalleImg2 (docElements da) = Some ia"
    by (simp add: da_def ia_def docElements_def isSalleImg2_def attrContains_def)
  have fb: "find isSalleImg2 (docElements [ib]) = Some ib"
    by (simp add: ib_def docElements_def isSalleImg2_def attrContains_def)
  have fc: "find isSalleImg2 (docElements [ic]) = Some ic"
    by (simp add: ic_def docElements_def isSalleImg2_def attrContains_def)
  have fe: "find isSalleImg2 (docElements [ie]) = Some ie"
    by (simp add: ie_def docElements_def isSalleImg2_def attrContains_def)
  have fn: "find isSalleImg2 (docElements dn) = None"
    by (simp add: dn_def docElements_def isSalleImg2_def attrContains_def)
  have sc: "salleDigits ic = None"
    by (simp add: ic_def salleDigits_def attrOr_def matchSalPngAt_def matchTagSalAt_def
        matchSalleAt_def ciStartsWith_def toLowerAscii_def char_of_eq_iff booleanAttrs_def)
  have se: "salleDigits ie = None"
    by (simp add: ie_def salleDigits_def attrOr_def matchSalPngAt_def matchTagSalAt_def
        matchSalleAt_def ciStartsWith_def toLowerAscii_def char_of_eq_iff isDigit_def
        booleanAttrs_def)
  have ha: "CHR ''_'' \<notin> set [] \<and> attr ia ''src'' = Some ([] @ ''/img/tags/sal_06.png'' @ [])"
    by (simp add: ia_def booleanAttrs_def)
  have hb: "firstMatch matchSalPngAt (attrOr ib ''src'') = None \<and> CHR ''-'' \<notin> set ''tag '' \<and>
     attr ib ''class'' = Some (''tag '' @ ''tag-SAL10'' @ [])"
    by (simp add: ib_def attrOr_def matchSalPngAt_def ciStartsWith_def booleanAttrs_def)
  have hc: "attr ic ''class'' = Some ''tag tag-ICEBYCGR''"
    by (simp add: ic_def booleanAttrs_def)
  have he: "attr ie ''class'' \<noteq> Some ''tag tag-ICEBYCGR''"
    by (simp add: ie_def booleanAttrs_def)
  have a: "extractSalle2 da = \<lparr>salleNum = ''06'', salleLabel = ''Salle 6''\<rparr>"
    using extractSalle_rooms[OF fa, of "[]" "[]" dn "''06''"] ha by metis
  have b: "extractSalle2 [ib] = \<lparr>salleNum = ''10'', salleLabel = ''Salle 10''\<rparr>"
    using extractSalle_rooms[OF fb, of "''tag ''" "[]" dn "''10''"] hb by metis
  have c: "extractSalle2 [ic] = \<lparr>salleNum = ''ICE'', salleLabel = ''Salle ICE''\<rparr>"
    using extractSalle_rooms[OF fc, of "[]" "[]" dn "''06''"] sc hc by metis
  have e: "extractSalle2 [ie] = \<lparr>salleNum = [], salleLabel = []\<rparr>"
    using extractSalle_rooms[OF fe, of "[]" "[]" dn "''06''"] se he by metis
  have n: "extractSalle2 dn = \<lparr>salleNum = [], salleLabel = []\<rparr>"
    using extractSalle_rooms[OF fa, of "[]" "[]" dn "''06''"] fn by metis
  show ?thesis
    using a b c e n unfolding da_def ia_def ib_def ic_def ie_def dn_def by simp
qed

text \<open>
  The claim gives the labels as \<^verbatim>\<open>Room 6\<close> and \<^verbatim>\<open>Room 10\<close>; the code writes
  \<^verbatim>\<open>Salle 6\<close>. A source that embeds \<^verbatim>\<open>sal_06.png\<close> after another match of the
  pattern gives the room of the leftmost match. The extractor of the first listing
  raises on every page.
\<close>

theorem extractSalle_label_counterexample:
  "extractSalle2 [Element ''img'' [(''src'', ''/img/tags/sal_06.png'')] []]
     = \<lparr>salleNum = ''06'', salleLabel = ''Salle 6''\<rparr> \<and>
   extractSalle2 [Element ''img'' [(''src'', ''/img/tags/sal_06.png'')] []]
     \<noteq> \<lparr>salleNum = ''06'', salleLabel = ''Room 6''\<rparr> \<and>
   extractSalle2 [Element ''img'' [(''src'', ''/x/sal_7.png?u=/img/tags/sal_06.png'')] []]
     = \<lparr>salleNum = ''07'', salleLabel = ''Salle 7''\<rparr> \<and>
   extractSalle1 (JStr ''<img src=/img/tags/sal_06.png>'') = Inl ReferenceError"
proof -
  define ia where "ia = Element ''img'' [(''src'', ''/img/tags/sal_06.png'')] []"
  define ib where "ib = Element ''img'' [(''src'', ''/x/sal_7.png?u=/img/tags/sal_06.png'')] []"
  have sa: "salleDigits ia = Some ''06''"
    using salleDigits_src06[of "[]" ia "[]"] by (simp add: ia_def booleanAttrs_def)
  have m: "firstMatch matchSalPngAt ''/x/sal_7.png?u=/img/tags/sal_06.png'' = Some ''7''"
    by (simp add: matchSalPngAt_def ciStartsWith_def toLowerAscii_def isDigit_def char_of_eq_iff)
  have sb: "salleDigits ib = Some ''7''"
    using m by (simp add: salleDigits_def attrOr_def ib_def booleanAttrs_def)
  have n7: "numericSalle ''7'' = \<lparr>salleNum = ''07'', salleLabel = ''Salle 7''\<rparr>"
    by (simp add: numericSalle_def padStart2_def digitsVal_def digitVal_def showNat.simps
        digitChar_def char_of_eq_iff)
  have "extractSalle2 [ia] = numericSalle ''06''" "extractSalle2 [ib] = numericSalle ''7''"
    using sa sb
    by (simp_all add: extractSalle2_def docElements_def isSalleImg2_def attrContains_def
        ia_def ib_def)
  then show ?thesis
    unfolding ia_def ib_def by (simp add: numericSalle_06 n7 extractSalle1_raises)
qed

section \<open>The end-to-end scenario\<close>

lemma key_example:
  "parseSeanceKey ''1724606400/VF/543210'' =
     \<lparr>key_ts = Integer 1724606400, key_version = ''VF'', key_seanceId = ''543210''\<rparr>"
proof -
  have d: "isDigits ''1724606400''" "digitsVal ''1724606400'' = 1724606400"
    by (simp_all add: isDigits_def isDigit_def digitsVal_def digitVal_def)
  have "Number ''1724606400'' = Integer 1724606400"
    using Number_digits[OF d(1)] d(2) by simp
  moreover have "split (''1724606400'' @ ''/'' @ ''VF'' @ ''/'' @ ''543210'') ''/''
      = [''1724606400'', ''VF'', ''543210'']"
    by (rule split_slash3) simp_all
  ultimately show ?thesis
    by (simp add: parseSeanceKey_def nthOrEmpty_def)
qed

lemma label_example:
  "parseSeanceLabel ''14h00 - VF'' = \<lparr>lbl_time = ''14h00'', lbl_version = ''VF'', lbl_audio = ''''\<rparr>"
proof -
  have "split (''14h00'' @ '' - '' @ ''VF'') '' - '' = [''14h00'', ''VF'']"
    by (rule split_dash2) simp_all
  then show ?thesis
    by (simp add: parseSeanceLabel_def nthOrEmpty_def trim_def isWhiteSpace_def)
qed

lemma jsString_label: "jsString (JStr t) = Some t"
  by simp

text \<open>
  The first listing on the scenario: the seed, days, showtimes and reveal requests go
  out, and the room extractor raises on the reveal page, so the crawl ends with the
  exception and no row.
\<close>

lemma crawl1_scenario:
  assumes seed: "answers env (seedRequest CINEMA_SLUG1) page"
    and films: "parseFilmsFromHTML (loadHTML env (orEmptyString page))
                = \<lparr>filmId = ''67890'', title = ''Elio''\<rparr> # others"
    and days: "answers env (daysRequest CINEMA_SLUG1 ''67890'') (JObj [(''2025-08-25'', JNum 1)])"
    and seances: "answers env (seancesRequest CINEMA_SLUG1 ''67890'' ''2025-08-25'')
                   (JObj [(''1724606400/VF/543210'', JStr ''14h00 - VF'')])"
    and reveal: "answers env
                   (bookRequest CINEMA_SLUG1
                      [(''modresa_film'', ''67890''), (''modresa_jour'', ''2025-08-25''),
                       (''modresa_seance'', ''543210''), (''valid'', ''Continuer'')]) rpage"
  shows "fst (crawl1 env w) = Inl ReferenceError \<and>
         map isFetch (trace (snd (crawl1 env w))) =
           map isFetch (trace w) @ [True, False, True, False, True, False, True]"
  by (simp add: crawl1_def Let_def films nthOpt_def
      answers_fetch1[OF seed] answers_fetch1[OF days] answers_fetch1[OF seances]
      answers_fetch1[OF reveal] extractSalle1_raises orEmptyObject_def objectKeys_def
      key_example label_example chooseVersion_def)

text \<open>
  The second listing on the scenario, for a seed page whose film at index 1 is Elio.
\<close>

lemma crawl2_scenario:
  assumes seed: "answers env (seedRequest (CINEMA_SLUG2 env)) page"
    and films: "parseFilmsFromHTML (loadHTML env (orEmptyString page))
                = f0 # \<lparr>filmId = ''67890'', title = ''Elio''\<rparr> # others"
    and days: "answers env (daysRequest (CINEMA_SLUG2 env) ''67890'')
                 (JObj [(''2025-08-25'', JNum 1)])"
    and seances: "answers env (seancesRequest (CINEMA_SLUG2 env) ''67890'' ''2025-08-25'')
                   (JObj [(''1724606400/VF/543210'', JStr ''14h00 - VF'')])"
    and reveal: "answers env
                   (bookRequest (CINEMA_SLUG2 env)
                      [(''modresa_film'', ''67890''), (''modresa_jour'', ''2025-08-25''),
                       (''modresa_seance'', ''1724606400/VF/543210'')]) rpage"
    and room: "extractSalle2 (loadHTML env (orEmptyString rpage))
                = \<lparr>salleNum = ''10'', salleLabel = ''Salle 10''\<rparr>"
  shows "fst (crawl2 env w) =
           Inr [\<lparr>cinema = CINEMA_SLUG2 env, salle = ''10'', salle_label = ''Salle 10'',
                  film_id = ''67890'', film_titre = ''Elio'', date = ''2025-08-25'',
                  heure = ''14h00'', version = ''VF'', audio = [], seance_id = ''543210'',
                  ts = Integer 1724606400,
                  reservation_url = extractReservationUrl (loadHTML env (orEmptyString rpage))\<rparr>] \<and>
         map isFetch (trace (snd (crawl2 env w))) =
           map isFetch (trace w) @ [True, False, True, False, True, False, True]"
  by (simp add: crawl2_def Let_def films nthOpt_def
      answers_fetch2[OF seed] answers_fetch2[OF days] answers_fetch2[OF seances]
      answers_fetch2[OF reveal] room orEmptyObject_def objectKeys_def
      key_example label_example chooseVersion_def)

lemma stub_encode: "encodeURIComponent ''67890'' = ''67890''"
  "encodeURIComponent ''12345'' = ''12345''"
  "encodeURIComponent ''2025-08-25'' = ''2025-08-25''"
  by (simp_all add: encodeURIComponent_def isAlnum_def)

lemma stub_fetch:
  "stubFetch ''lefrancais'' s ((seedRequest CINEMA_SLUG1)\<lparr>headers := hs\<rparr>) =
     (Some ((stubPage ''text/html'' ''seed'')\<lparr>setCookie := One ''PHPSESSID=abc; path=/''\<rparr>), ())"
  "stubFetch ''lefrancais'' s ((daysRequest CINEMA_SLUG1 ''67890'')\<lparr>headers := hs\<rparr>) =
     (Some (stubPage ''application/json'' ''days''), ())"
  "stubFetch ''lefrancais'' s ((daysRequest CINEMA_SLUG1 ''12345'')\<lparr>headers := hs\<rparr>) =
     (Some (stubPage ''application/json'' ''days''), ())"
  "stubFetch ''lefrancais'' s ((seancesRequest CINEMA_SLUG1 ''67890'' ''2025-08-25'')\<lparr>headers := hs\<rparr>) =
     (Some (stubPage ''application/json'' ''seances''), ())"
  "stubFetch ''lefrancais'' s ((seancesRequest CINEMA_SLUG1 ''12345'' ''2025-08-25'')\<lparr>headers := hs\<rparr>) =
     (Some (stubPage ''application/json'' ''seances''), ())"
  "stubFetch ''lefrancais'' s ((bookRequest CINEMA_SLUG1 form)\<lparr>headers := hs\<rparr>) =
     (Some (stubPage ''text/html'' ''reveal''), ())"
  by (simp_all add: stubFetch_def seedRequest_def daysRequest_def
      seancesRequest_def bookRequest_def CINEMA_SLUG1_def stub_encode
      RESERVER_URL_def AJAX_URL_def BASE_def)

lemma stub_json: "\<not> isJsonResponse (stubPage ''text/html'' t)"
  "\<not> isJsonResponse ((stubPage ''text/html'' t)\<lparr>setCookie := c\<rparr>)"
  "isJsonResponse (stubPage ''application/json'' t)"
  by (simp_all add: isJsonResponse_def stubPage_def)

lemma stub_answers1:
  "answers stubEnv (seedRequest CINEMA_SLUG1) (JStr ''seed'')"
  "answers stubEnv (daysRequest CINEMA_SLUG1 ''67890'') stubDays"
  "answers stubEnv (seancesRequest CINEMA_SLUG1 ''67890'' ''2025-08-25'') stubSeances"
  "answers stubEnv (bookRequest CINEMA_SLUG1 form) (JStr ''reveal'')"
  by (simp_all add: answers_def stubEnv_def stub_fetch stub_json)
     (simp_all add: stubParse_def stubPage_def)

lemma stub_slug2: "CINEMA_SLUG2 stubEnv = CINEMA_SLUG1"
  by (simp add: CINEMA_SLUG2_def CINEMA_SLUG1_def stubEnv_def)

lemma stub_films: "parseFilmsFromHTML (loadHTML stubEnv (orEmptyString (JStr ''seed'')))
    = [\<lparr>filmId = ''67890'', title = ''Elio''\<rparr>]"
  by (simp add: stubEnv_def stubLoad_def orEmptyString_def stubSeedDoc_def parseFilmsFromHTML_def
      filmOfOption_def trim_def isWhiteSpace_def booleanAttrs_def)

text \<open>An option without a value counts with its text as the id; a blank value gives no film.\<close>

lemma films_option_without_value:
  "parseFilmsFromHTML stubSeedDoc3 = [\<lparr>filmId = ''Elio'', title = ''Elio''\<rparr>]"
  by (simp add: stubSeedDoc3_def parseFilmsFromHTML_def filmOfOption_def trim_def
      isWhiteSpace_def booleanAttrs_def)

text \<open>
  Two options under the selector, the first with a value that is not blank and the second
  with the value 67890 and the text Elio, give two films, Elio at index 1.
\<close>

lemma films_two_options:
  assumes "concat (map (optionsUnder False) doc) = [o0, o1]"
    and "attr o0 ''value'' = Some v0" and "trim v0 \<noteq> []"
    and "attr o1 ''value'' = Some ''67890''" and "textOf o1 = ''Elio''"
  shows "parseFilmsFromHTML doc =
     [\<lparr>filmId = trim v0, title = trim (textOf o0)\<rparr>, \<lparr>filmId = ''67890'', title = ''Elio''\<rparr>]"
proof -
  have "v0 \<noteq> []" using assms(3) by (auto simp: trim_def)
  then show ?thesis
    using assms by (simp add: parseFilmsFromHTML_def filmOfOption_def trim_def isWhiteSpace_def)
qed

lemma stub_crawl1:
  "fst (crawl1 stubEnv w) = Inl ReferenceError \<and>
   map isFetch (trace (snd (crawl1 stubEnv w))) =
     map isFetch (trace w) @ [True, False, True, False, True, False, True]"
  by (rule crawl1_scenario[OF stub_answers1(1) stub_films
        stub_answers1(2)[unfolded stubDays_def] stub_answers1(3)[unfolded stubSeances_def]
        stub_answers1(4)])

text \<open>The second listing takes the film at index 1: a page of one film gives none.\<close>

lemma crawl2_one_film:
  assumes "answers env (seedRequest (CINEMA_SLUG2 env)) page"
    and "length (parseFilmsFromHTML (loadHTML env (orEmptyString page))) \<le> 1"
  shows "crawl2 env w = (Inl TypeError, worldAfter2 env (seedRequest (CINEMA_SLUG2 env)) w)"
  using assms(2) by (simp add: crawl2_def answers_fetch2[OF assms(1)] nthOpt_def)

lemma stub_crawl2:
  "crawl2 stubEnv w = (Inl TypeError, worldAfter2 stubEnv (seedRequest CINEMA_SLUG1) w)"
  using crawl2_one_film[of stubEnv "JStr ''seed''" w] stub_answers1(1) stub_films
  by (simp add: stub_slug2)

text \<open>The stub with the seed page of two films.\<close>

lemma stub2_slug: "CINEMA_SLUG2 stubEnv2 = ''lefrancais''"
  by (simp add: CINEMA_SLUG2_def stubEnv2_def stubEnv_def)

lemma stub2_answers:
  "answers stubEnv2 (seedRequest CINEMA_SLUG1) (JStr ''seed'')"
  "answers stubEnv2 (daysRequest CINEMA_SLUG1 ''67890'') stubDays"
  "answers stubEnv2 (seancesRequest CINEMA_SLUG1 ''67890'' ''2025-08-25'') stubSeances"
  "answers stubEnv2 (bookRequest CINEMA_SLUG1 form) (JStr ''reveal'')"
  by (simp_all add: answers_def stubEnv2_def stubEnv_def stub_fetch stub_json)
     (simp_all add: stubParse_def stubPage_def)

lemma stub2_options:
  "concat (map (optionsUnder False) (loadHTML stubEnv2 (orEmptyString (JStr ''seed'')))) =
     [Element ''option'' [(''value'', ''12345'')] [TextNode ''Bluey''],
      Element ''option'' [(''value'', ''67890'')] [TextNode ''Elio'']]"
  by (simp add: stubEnv2_def stubEnv_def orEmptyString_def stubSeedDoc2_def)

lemma stub2_reveal:
  "loadHTML stubEnv2 (orEmptyString (JStr ''reveal'')) = stubRevealDoc"
  by (simp add: stubEnv2_def stubEnv_def stubLoad_def orEmptyString_def)

lemma stub_reveal_img:
  "find isSalleImg2 (docElements stubRevealDoc)
     = Some (Element ''img'' [(''src'', ''/img/tags/sal_10.png'')] [])"
  by (simp add: stubRevealDoc_def docElements_def isSalleImg2_def attrContains_def)

lemma stub_reservation:
  "extractReservationUrl stubRevealDoc = ''/lefrancais/places/''"
  by (simp add: extractReservationUrl_def stubRevealDoc_def docElements_def attrOr_def
      booleanAttrs_def)

lemma extractSalle2_src10:
  assumes "find isSalleImg2 (docElements doc) = Some img" "CHR ''_'' \<notin> set p"
    "attr img ''src'' = Some (p @ ''/img/tags/sal_10.png'' @ q)"
  shows "extractSalle2 doc = \<lparr>salleNum = ''10'', salleLabel = ''Salle 10''\<rparr>"
  using assms(1) salleDigits_src10[OF assms(2,3)]
  by (simp add: extractSalle2_def numericSalle_10)

lemma sortBy_single: "sortBy cmp [x] = [x]"
  by (simp add: sortBy_def)

lemma main1_completed:
  assumes "fst (crawl1 env (initialWorld n fs)) = Inr rows"
  shows "fst (main1 env n fs) = Completed \<and>
     disk (snd (main1 env n fs)) (OUTPUT_CSV CINEMA_SLUG1) =
       Some (toCSV (floatString env) (sortBy (compareRows (localeCompare env)) rows) csvHeaders1)"
  using assms by (auto simp: main1_def split: prod.splits sum.splits)

lemma main2_completed:
  assumes "fst (crawl2 env (initialWorld n fs)) = Inr rows"
  shows "fst (main2 env n fs) = Completed \<and>
     disk (snd (main2 env n fs)) =
       saveCSV (floatString env) (OUTPUT_CSV (CINEMA_SLUG2 env))
         (sortBy (compareRows (localeCompare env)) rows) fs"
  using assms crawl2_trace[of env "initialWorld n fs"]
  by (auto simp: main2_def initialWorld_def split: prod.splits sum.splits)

text \<open>
  Claim C1, as the second listing has it. The transport answers the seed request with a
  page in which the film selector finds exactly two options, the first with a value that
  is not blank and the second with the value 67890 and the text Elio; the days request
  for the film 67890 with \<^verbatim>\<open>{"2025-08-25": 1}\<close>; the showtimes request for that day
  with \<^verbatim>\<open>{"1724606400/VF/543210": "14h00 - VF"}\<close>; and the form posted with the key of
  the showtime with a page in which the first image of the room selector has a source
  \<open>p\<close>\<^verbatim>\<open>/img/tags/sal_10.png\<close>\<open>q\<close>, with no underscore in \<open>p\<close>. The second listing
  crawls the film at index 1. Its crawl collects exactly one row: the configured slug,
  room \<open>10\<close> with the label \<^verbatim>\<open>Salle 10\<close>, film 67890 Elio, the day, the time
  \<^verbatim>\<open>14h00\<close>, the version \<^verbatim>\<open>VF\<close>, no audio, the showtime id 543210, the timestamp
  1724606400, and the reservation link that the page holds; and the run completes.
\<close>

theorem end_to_end_second_listing:
  assumes "answers env (seedRequest (CINEMA_SLUG2 env)) page"
    and "concat (map (optionsUnder False) (loadHTML env (orEmptyString page))) = [o0, o1]"
    and "attr o0 ''value'' = Some v0" and "trim v0 \<noteq> []"
    and "attr o1 ''value'' = Some ''67890''" and "textOf o1 = ''Elio''"
    and "answers env (daysRequest (CINEMA_SLUG2 env) ''67890'') (JObj [(''2025-08-25'', JNum 1)])"
    and "answers env (seancesRequest (CINEMA_SLUG2 env) ''67890'' ''2025-08-25'')
           (JObj [(''1724606400/VF/543210'', JStr ''14h00 - VF'')])"
    and "answers env
           (bookRequest (CINEMA_SLUG2 env)
              [(''modresa_film'', ''67890''), (''modresa_jour'', ''2025-08-25''),
               (''modresa_seance'', ''1724606400/VF/543210'')]) rpage"
    and "find isSalleImg2 (docElements (loadHTML env (orEmptyString rpage))) = Some img"
    and "CHR ''_'' \<notin> set p"
    and "attr img ''src'' = Some (p @ ''/img/tags/sal_10.png'' @ q)"
  shows "fst (crawl2 env (initialWorld n fs)) =
           Inr [\<lparr>cinema = CINEMA_SLUG2 env, salle = ''10'', salle_label = ''Salle 10'',
                  film_id = ''67890'', film_titre = ''Elio'', date = ''2025-08-25'',
                  heure = ''14h00'', version = ''VF'', audio = [], seance_id = ''543210'',
                  ts = Integer 1724606400,
                  reservation_url = extractReservationUrl (loadHTML env (orEmptyString rpage))\<rparr>] \<and>
         fst (main2 env n fs) = Completed"
proof -
  have films: "parseFilmsFromHTML (loadHTML env (orEmptyString page)) =
      \<lparr>filmId = trim v0, title = trim (textOf o0)\<rparr> # \<lparr>filmId = ''67890'', title = ''Elio''\<rparr> # []"
    using films_two_options[OF assms(2,3,4,5,6)] by simp
  have room: "extractSalle2 (loadHTML env (orEmptyString rpage))
                = \<lparr>salleNum = ''10'', salleLabel = ''Salle 10''\<rparr>"
    by (rule extractSalle2_src10[OF assms(10,11,12)])
  have c: "fst (crawl2 env (initialWorld n fs)) =
           Inr [\<lparr>cinema = CINEMA_SLUG2 env, salle = ''10'', salle_label = ''Salle 10'',
                  film_id = ''67890'', film_titre = ''Elio'', date = ''2025-08-25'',
                  heure = ''14h00'', version = ''VF'', audio = [], seance_id = ''543210'',
                  ts = Integer 1724606400,
                  reservation_url = extractReservationUrl (loadHTML env (orEmptyString rpage))\<rparr>]"
    using crawl2_scenario[OF assms(1) films assms(7,8,9) room] by blast
  show ?thesis
    using c main2_completed[OF c] by simp
qed

theorem end_to_end_second_listing_witness:
  "fst (crawl2 stubEnv2 (initialWorld () Map.empty)) =
           Inr [\<lparr>cinema = ''lefrancais'', salle = ''10'', salle_label = ''Salle 10'',
                  film_id = ''67890'', film_titre = ''Elio'', date = ''2025-08-25'',
                  heure = ''14h00'', version = ''VF'', audio = [], seance_id = ''543210'',
                  ts = Integer 1724606400, reservation_url = ''/lefrancais/places/''\<rparr>] \<and>
   fst (main2 stubEnv2 () Map.empty) = Completed"
proof -
  have s: "CINEMA_SLUG2 stubEnv2 = CINEMA_SLUG1"
    by (simp add: stub2_slug CINEMA_SLUG1_def)
  have a: "attr (Element ''option'' [(''value'', ''12345'')] [TextNode ''Bluey'']) ''value''
        = Some ''12345''"
      "trim ''12345'' \<noteq> []"
      "attr (Element ''option'' [(''value'', ''67890'')] [TextNode ''Elio'']) ''value''
        = Some ''67890''"
      "textOf (Element ''option'' [(''value'', ''67890'')] [TextNode ''Elio'']) = ''Elio''"
    by (simp_all add: booleanAttrs_def trim_def isWhiteSpace_def)
  have i: "attr (Element ''img'' [(''src'', ''/img/tags/sal_10.png'')] []) ''src''
        = Some ([] @ ''/img/tags/sal_10.png'' @ [])"
    by (simp add: booleanAttrs_def)
  show ?thesis
    using end_to_end_second_listing[of stubEnv2 "JStr ''seed''" _ _ "''12345''" "JStr ''reveal''"
        _ "[]" "[]" "()" Map.empty,
        unfolded s, OF stub2_answers(1) stub2_options a
        stub2_answers(2)[unfolded stubDays_def] stub2_answers(3)[unfolded stubSeances_def]
        stub2_answers(4) stub_reveal_img[folded stub2_reveal] _ i]
    by (simp add: stub2_reveal stub_reservation CINEMA_SLUG1_def)
qed

text \<open>
  On the scenario of the claim the seed page holds one option. The first listing ends
  with the \<^verbatim>\<open>ReferenceError\<close> of its room extractor after the reveal request, and the
  second, which takes the film at index 1, with a \<^verbatim>\<open>TypeError\<close>: neither collects a
  row, and both runs exit with status 1. Where the second listing does collect the row,
  on the page of two films, its label is \<^verbatim>\<open>Salle 10\<close>, not \<^verbatim>\<open>Room 10\<close>.
\<close>

theorem end_to_end_counterexample:
  "concat (map (optionsUnder False) (loadHTML stubEnv (orEmptyString (JStr ''seed'')))) =
     [Element ''option'' [(''value'', ''67890'')] [TextNode ''Elio'']] \<and>
   fst (crawl1 stubEnv (initialWorld () Map.empty)) = Inl ReferenceError \<and>
   fst (main1 stubEnv () Map.empty) = Exited 1 \<and>
   fst (crawl2 stubEnv (initialWorld () Map.empty)) = Inl TypeError \<and>
   fst (main2 stubEnv () Map.empty) = Exited 1 \<and>
   map salle_label (projr (fst (crawl2 stubEnv2 (initialWorld () Map.empty)))) = [''Salle 10'']"
proof -
  have 0: "concat (map (optionsUnder False) (loadHTML stubEnv (orEmptyString (JStr ''seed'')))) =
     [Element ''option'' [(''value'', ''67890'')] [TextNode ''Elio'']]"
    by (simp add: stubEnv_def stubLoad_def orEmptyString_def stubSeedDoc_def)
  have 1: "fst (crawl1 stubEnv (initialWorld () Map.empty)) = Inl ReferenceError"
    using stub_crawl1[of "initialWorld () Map.empty"] by simp
  have 2: "fst (crawl2 stubEnv (initialWorld () Map.empty)) = Inl TypeError"
    by (simp add: stub_crawl2)
  have s: "CINEMA_SLUG2 stubEnv2 = CINEMA_SLUG1"
    by (simp add: stub2_slug CINEMA_SLUG1_def)
  have f: "parseFilmsFromHTML (loadHTML stubEnv2 (orEmptyString (JStr ''seed''))) =
      \<lparr>filmId = ''12345'', title = ''Bluey''\<rparr> # \<lparr>filmId = ''67890'', title = ''Elio''\<rparr> # []"
    by (simp add: stubEnv2_def stubEnv_def orEmptyString_def stubSeedDoc2_def
        parseFilmsFromHTML_def filmOfOption_def trim_def isWhiteSpace_def booleanAttrs_def)
  have r: "extractSalle2 (loadHTML stubEnv2 (orEmptyString (JStr ''reveal'')))
      = \<lparr>salleNum = ''10'', salleLabel = ''Salle 10''\<rparr>"
    unfolding stub2_reveal
    by (rule extractSalle2_src10[OF stub_reveal_img, of "[]" "[]"]) (simp_all add: booleanAttrs_def)
  have 3: "map salle_label (projr (fst (crawl2 stubEnv2 (initialWorld () Map.empty)))) = [''Salle 10'']"
    using crawl2_scenario[of stubEnv2 "JStr ''seed''" _ "[]" "JStr ''reveal''" "initialWorld () Map.empty",
        unfolded s, OF stub2_answers(1) f stub2_answers(2)[unfolded stubDays_def]
        stub2_answers(3)[unfolded stubSeances_def] stub2_answers(4) r]
    by simp
  show ?thesis using 0 1 2 3 main1_failed[OF 1] main2_failed[OF 2] by simp
qed

theorem pacing_after_seed_witness:
  "isFetch (trace (snd (main1 stubEnv () Map.empty)) ! 0) \<and>
   trace (snd (main1 stubEnv () Map.empty)) ! 1 = Sleep DELAY_MS \<and>
   isFetch (trace (snd (main1 stubEnv () Map.empty)) ! 2) \<and>
   trace (snd (main1 stubEnv () Map.empty)) ! 3 = Sleep DELAY_MS \<and>
   isFetch (trace (snd (main1 stubEnv () Map.empty)) ! 4) \<and>
   trace (snd (main1 stubEnv () Map.empty)) ! 5 = Sleep DELAY_MS \<and>
   isFetch (trace (snd (main1 stubEnv () Map.empty)) ! 6) \<and>
   length (trace (snd (main1 stubEnv () Map.empty))) = 7"
proof -
  define tr where "tr = trace (snd (main1 stubEnv () Map.empty))"
  have m: "map isFetch tr = [True, False, True, False, True, False, True]"
    using stub_crawl1[of "initialWorld () Map.empty"]
    by (simp add: tr_def main1_trace initialWorld_def)
  have len: "length tr = 7"
    using arg_cong[OF m, of length] by simp
  have f: "isFetch (tr ! i) = ([True, False, True, False, True, False, True] ! i)" if "i < 7" for i
    using nth_map[of i tr isFetch] that len m by simp
  have f0: "isFetch (tr ! 0)" and f2: "isFetch (tr ! 2)" and f4: "isFetch (tr ! 4)"
    and f6: "isFetch (tr ! 6)"
    using f[of 0] f[of 2] f[of 4] f[of 6] by simp_all
  have p: "\<forall>i. 0 < i \<and> i < length tr \<and> isFetch (tr ! i) \<longrightarrow> tr ! (i - 1) = Sleep DELAY_MS"
    using pacing_after_seed[of tr stubEnv "()" Map.empty] tr_def by blast
  have "tr ! 1 = Sleep DELAY_MS" "tr ! 3 = Sleep DELAY_MS" "tr ! 5 = Sleep DELAY_MS"
    using p[rule_format, of 2] p[rule_format, of 4] p[rule_format, of 6] f2 f4 f6 len
    by simp_all
  then show ?thesis using f0 f2 f4 f6 len unfolding tr_def by simp
qed

text \<open>
  The first action of a run is the seed request: no suspension comes before it.
\<close>

theorem seed_unpaced_counterexample:
  "isFetch (trace (snd (main1 stubEnv () Map.empty)) ! 0) \<and>
   \<not> paced (trace (snd (main1 stubEnv () Map.empty))) \<and>
   isFetch (trace (snd (main2 stubEnv () Map.empty)) ! 0) \<and>
   \<not> paced (trace (snd (main2 stubEnv () Map.empty)))"
  using crawl1_trace[of stubEnv "initialWorld () Map.empty"]
    crawl2_trace[of stubEnv "initialWorld () Map.empty"]
  by (auto simp: main1_trace main2_trace initialWorld_def)

section \<open>The version of a row\<close>

lemma seanceLoop2_version:
  "seanceLoop2 env film day es rs w = (Inr rows, w') \<Longrightarrow>
   (\<forall>e\<in>set es. jsString (snd e) \<noteq> None) \<and>
   map version rows = map version rs @
     map (\<lambda>(key, label).
            case jsString label of
              None \<Rightarrow> []
            | Some t \<Rightarrow>
                if lbl_version (parseSeanceLabel t) \<noteq> []
                then lbl_version (parseSeanceLabel t)
                else key_version (parseSeanceKey key)) es"
proof (induction es arbitrary: rs w)
  case Nil
  then show ?case by simp
next
  case (Cons e es)
  obtain key label where e: "e = (key, label)" by (cases e)
  show ?case
  proof (cases "jsString label")
    case None
    with Cons.prems show ?thesis unfolding e by simp
  next
    case (Some t)
    show ?thesis using Cons.prems Cons.IH Some unfolding e
      by (auto simp: Let_def chooseVersion_def split: prod.splits sum.splits)
  qed
qed

lemma seanceLoop1_no_row:
  "seanceLoop1 env film day es rs w = (Inr rows, w') \<Longrightarrow> es = [] \<and> rows = rs"
proof (cases es)
  case Nil
  assume "seanceLoop1 env film day es rs w = (Inr rows, w')"
  with Nil show ?thesis by simp
next
  case (Cons e es')
  obtain key label where e: "e = (key, label)" by (cases e)
  assume "seanceLoop1 env film day es rs w = (Inr rows, w')"
  then show ?thesis unfolding Cons e
    by (auto simp: Let_def extractSalle1_raises split: option.splits prod.splits sum.splits)
qed

text \<open>
  Claim C9. Where the showtime loop of the second listing returns, the label of every
  showtime had a text, and the rows added to those collected before carry, in order, for
  each showtime the version decoded from its label when that is not empty and the version
  decoded from its key otherwise. The first listing computes the same version, but its
  loop raises before it assembles a row: it returns only for no showtime at all, with
  the rows it was given.
\<close>

theorem version_from_label_then_key:
  "(seanceLoop2 env film day es2 rs2 w2 = (Inr rows2, w2') \<longrightarrow>
      (\<forall>e\<in>set es2. jsString (snd e) \<noteq> None) \<and>
      map version rows2 = map version rs2 @
        map (\<lambda>(key, label).
               case jsString label of
                 None \<Rightarrow> []
               | Some t \<Rightarrow>
                   if lbl_version (parseSeanceLabel t) \<noteq> []
                   then lbl_version (parseSeanceLabel t)
                   else key_version (parseSeanceKey key)) es2) \<and>
   (seanceLoop1 env film day es rs w = (Inr rows, w') \<longrightarrow> es = [] \<and> rows = rs)"
  using seanceLoop1_no_row[of env film day es rs w rows w']
    seanceLoop2_version[of env film day es2 rs2 w2 rows2 w2']
  by blast

lemma label_short: "parseSeanceLabel ''14h00'' = \<lparr>lbl_time = ''14h00'', lbl_version = [], lbl_audio = []\<rparr>"
proof -
  have "split ''14h00'' '' - '' = [''14h00'']"
    by (rule split_dash1) simp
  then show ?thesis
    by (simp add: parseSeanceLabel_def nthOrEmpty_def trim_def isWhiteSpace_def)
qed

lemma stub_answers2:
  "answers stubEnv (bookRequest (CINEMA_SLUG2 stubEnv) form) (JStr ''reveal'')"
  by (simp add: stub_slug2 stub_answers1(4))

theorem version_from_label_then_key_witness:
  "map version (projr (fst (seanceLoop2 stubEnv stubFilm ''2025-08-25''
       [(''1724606400/VO/543210'', JStr ''14h00 - VF''), (''1724606400/VO/543210'', JStr ''14h00'')]
       [] (initialWorld () Map.empty)))) = [''VF'', ''VO''] \<and>
   fst (seanceLoop1 stubEnv stubFilm ''2025-08-25''
       [(''1724606400/VO/543210'', JStr ''14h00 - VF''), (''1724606400/VO/543210'', JStr ''14h00'')]
       [] (initialWorld () Map.empty)) = Inl ReferenceError \<and>
   seanceLoop1 stubEnv stubFilm ''2025-08-25'' [] [] (initialWorld () Map.empty)
     = (Inr [], initialWorld () Map.empty)"
proof -
  define es where "es = [(''1724606400/VO/543210'', JStr ''14h00 - VF''),
                         (''1724606400/VO/543210'', JStr ''14h00'')]"
  define w where "w = initialWorld () Map.empty"
  have key: "key_version (parseSeanceKey ''1724606400/VO/543210'') = ''VO''"
  proof -
    have "split (''1724606400'' @ ''/'' @ ''VO'' @ ''/'' @ ''543210'') ''/''
        = [''1724606400'', ''VO'', ''543210'']"
      by (rule split_slash3) simp_all
    then show ?thesis by (simp add: parseSeanceKey_def nthOrEmpty_def)
  qed
  obtain r2 w2 where l2: "seanceLoop2 stubEnv stubFilm ''2025-08-25'' es [] w = (r2, w2)"
    by (cases "seanceLoop2 stubEnv stubFilm ''2025-08-25'' es [] w")
  have "\<exists>rows. r2 = Inr rows"
    using l2 by (auto simp: es_def Let_def answers_fetch2[OF stub_answers2])
  then obtain rows2 where r2: "r2 = Inr rows2" by blast
  have l1: "fst (seanceLoop1 stubEnv stubFilm ''2025-08-25'' es [] w) = Inl ReferenceError"
    by (simp add: es_def Let_def answers_fetch1[OF stub_answers1(4)] extractSalle1_raises)
  have l0: "seanceLoop1 stubEnv stubFilm ''2025-08-25'' [] [] w = (Inr [], w)"
    by simp
  note T = version_from_label_then_key[of stubEnv stubFilm "''2025-08-25''" es "[]" w rows2 w2
        "[]" "[]" w "[]" w]
  have "map version rows2 = [''VF'', ''VO'']"
    using T l2 r2 by (simp add: es_def label_example label_short key)
  then show ?thesis
    using l1 l0 l2 r2 unfolding es_def w_def by simp
qed

section \<open>Aborting and skipping\<close>

lemma crawl1_no_films:
  assumes "fst (fetchWithJar1 env (seedRequest CINEMA_SLUG1) w) = Inr page"
    and "parseFilmsFromHTML (loadHTML env (orEmptyString page)) = []"
  shows "fst (crawl1 env w) = Inl TypeError"
proof -
  obtain w1 where e: "fetchWithJar1 env (seedRequest CINEMA_SLUG1) w = (Inr page, w1)"
    using assms(1) by (cases "fetchWithJar1 env (seedRequest CINEMA_SLUG1) w") auto
  show ?thesis using assms(2) by (simp add: crawl1_def nthOpt_def e Let_def)
qed

lemma crawl2_no_films:
  assumes "fst (fetchWithJar2 env (seedRequest (CINEMA_SLUG2 env)) w) = Inr page"
    and "parseFilmsFromHTML (loadHTML env (orEmptyString page)) = []"
  shows "fst (crawl2 env w) = Inl TypeError"
proof -
  obtain w1 where e: "fetchWithJar2 env (seedRequest (CINEMA_SLUG2 env)) w = (Inr page, w1)"
    using assms(1) by (cases "fetchWithJar2 env (seedRequest (CINEMA_SLUG2 env)) w") auto
  show ?thesis using assms(2) by (simp add: crawl2_def nthOpt_def e Let_def)
qed

lemma filmLoop1_skip:
  assumes "fst (fetchWithJar1 env (daysRequest CINEMA_SLUG1 (filmId film)) (sleep DELAY_MS w)) = Inr b"
    and "objectKeys (orEmptyObject b) = []"
  shows "filmLoop1 env (Some film # films) rs w =
     filmLoop1 env films rs
       (snd (fetchWithJar1 env (daysRequest CINEMA_SLUG1 (filmId film)) (sleep DELAY_MS w)))"
proof -
  obtain w1 where e: "fetchWithJar1 env (daysRequest CINEMA_SLUG1 (filmId film)) (sleep DELAY_MS w) = (Inr b, w1)"
    using assms(1) by (cases "fetchWithJar1 env (daysRequest CINEMA_SLUG1 (filmId film)) (sleep DELAY_MS w)") auto
  show ?thesis using assms(2) by (simp add:  e Let_def)
qed

lemma dayLoop1_skip:
  assumes "fst (fetchWithJar1 env (seancesRequest CINEMA_SLUG1 (filmId film) day) (sleep DELAY_MS w)) = Inr b"
    and "objectKeys (orEmptyObject b) = []"
  shows "dayLoop1 env film (day # days) rs w =
     dayLoop1 env film days rs
       (snd (fetchWithJar1 env (seancesRequest CINEMA_SLUG1 (filmId film) day) (sleep DELAY_MS w)))"
proof -
  obtain w1 where e: "fetchWithJar1 env (seancesRequest CINEMA_SLUG1 (filmId film) day) (sleep DELAY_MS w) = (Inr b, w1)"
    using assms(1) by (cases "fetchWithJar1 env (seancesRequest CINEMA_SLUG1 (filmId film) day) (sleep DELAY_MS w)") auto
  show ?thesis using assms(2) by (simp add:  e Let_def)
qed

lemma filmLoop2_skip:
  assumes "fst (fetchWithJar2 env (daysRequest (CINEMA_SLUG2 env) (filmId film)) (sleep DELAY_MS w)) = Inr b"
    and "objectKeys (orEmptyObject b) = []"
  shows "filmLoop2 env (Some film # films) rs w =
     filmLoop2 env films rs
       (snd (fetchWithJar2 env (daysRequest (CINEMA_SLUG2 env) (filmId film)) (sleep DELAY_MS w)))"
proof -
  obtain w1 where e: "fetchWithJar2 env (daysRequest (CINEMA_SLUG2 env) (filmId film)) (sleep DELAY_MS w) = (Inr b, w1)"
    using assms(1) by (cases "fetchWithJar2 env (daysRequest (CINEMA_SLUG2 env) (filmId film)) (sleep DELAY_MS w)") auto
  show ?thesis using assms(2) by (simp add:  e Let_def)
qed

lemma dayLoop2_skip:
  assumes "fst (fetchWithJar2 env (seancesRequest (CINEMA_SLUG2 env) (filmId film) day) (sleep DELAY_MS w)) = Inr b"
    and "objectKeys (orEmptyObject b) = []"
  shows "dayLoop2 env film (day # days) rs w =
     dayLoop2 env film days rs
       (snd (fetchWithJar2 env (seancesRequest (CINEMA_SLUG2 env) (filmId film) day) (sleep DELAY_MS w)))"
proof -
  obtain w1 where e: "fetchWithJar2 env (seancesRequest (CINEMA_SLUG2 env) (filmId film) day) (sleep DELAY_MS w) = (Inr b, w1)"
    using assms(1) by (cases "fetchWithJar2 env (seancesRequest (CINEMA_SLUG2 env) (filmId film) day) (sleep DELAY_MS w)") auto
  show ?thesis using assms(2) by (simp add:  e Let_def)
qed

text \<open>A run whose one film has no day, or whose one day has no showtime, collects no row.\<close>

lemma crawl1_no_days:
  assumes "answers env (seedRequest CINEMA_SLUG1) page"
    and "parseFilmsFromHTML (loadHTML env (orEmptyString page)) = film # others"
    and "answers env (daysRequest CINEMA_SLUG1 (filmId film)) db"
    and "objectKeys (orEmptyObject db) = []"
  shows "fst (crawl1 env w) = Inr []"
  using assms(2,4)
  by (simp add: crawl1_def nthOpt_def Let_def answers_fetch1[OF assms(1)] answers_fetch1[OF assms(3)])

lemma crawl1_no_seances:
  assumes "answers env (seedRequest CINEMA_SLUG1) page"
    and "parseFilmsFromHTML (loadHTML env (orEmptyString page)) = film # others"
    and "answers env (daysRequest CINEMA_SLUG1 (filmId film)) db"
    and "objectKeys (orEmptyObject db) = [day]"
    and "answers env (seancesRequest CINEMA_SLUG1 (filmId film) day) sb"
    and "objectKeys (orEmptyObject sb) = []"
  shows "fst (crawl1 env w) = Inr []"
  using assms(2,4,6)
  by (simp add: crawl1_def nthOpt_def Let_def answers_fetch1[OF assms(1)]
      answers_fetch1[OF assms(3)] answers_fetch1[OF assms(5)])

lemma crawl2_no_days:
  assumes "answers env (seedRequest (CINEMA_SLUG2 env)) page"
    and "parseFilmsFromHTML (loadHTML env (orEmptyString page)) = film0 # film # others"
    and "answers env (daysRequest (CINEMA_SLUG2 env) (filmId film)) db"
    and "objectKeys (orEmptyObject db) = []"
  shows "fst (crawl2 env w) = Inr []"
  using assms(2,4)
  by (simp add: crawl2_def nthOpt_def Let_def answers_fetch2[OF assms(1)] answers_fetch2[OF assms(3)])

lemma crawl2_no_seances:
  assumes "answers env (seedRequest (CINEMA_SLUG2 env)) page"
    and "parseFilmsFromHTML (loadHTML env (orEmptyString page)) = film0 # film # others"
    and "answers env (daysRequest (CINEMA_SLUG2 env) (filmId film)) db"
    and "objectKeys (orEmptyObject db) = [day]"
    and "answers env (seancesRequest (CINEMA_SLUG2 env) (filmId film) day) sb"
    and "objectKeys (orEmptyObject sb) = []"
  shows "fst (crawl2 env w) = Inr []"
  using assms(2,4,6)
  by (simp add: crawl2_def nthOpt_def Let_def answers_fetch2[OF assms(1)]
      answers_fetch2[OF assms(3)] answers_fetch2[OF assms(5)])

text \<open>
  Claim C4. When the seed page yields no film, a run of either listing ends with the
  report of a failure and the exit status 1, and the files are as before: no report is
  written. (The array \<^verbatim>\<open>films\<close> has one element even then, so the end comes from the
  \<^verbatim>\<open>TypeError\<close> on the missing film and the handler of \<^verbatim>\<open>main().catch\<close>, not from
  the test on \<^verbatim>\<open>films.length\<close>.) When the days of a film are empty the film loop goes on
  with the next film and the rows it had, and when the showtimes of a day are empty the
  day loop goes on with the next day; a run whose film has no day, or whose day has no
  showtime, completes.
\<close>

theorem abort_without_films_skip_when_empty:
  "(fst (fetchWithJar1 env (seedRequest CINEMA_SLUG1) (initialWorld n fs)) = Inr page0 \<and>
    parseFilmsFromHTML (loadHTML env (orEmptyString page0)) = [] \<longrightarrow>
      fst (main1 env n fs) = Exited 1 \<and> disk (snd (main1 env n fs)) = fs) \<and>
   (fst (fetchWithJar2 env (seedRequest (CINEMA_SLUG2 env)) (initialWorld n fs)) = Inr page0 \<and>
    parseFilmsFromHTML (loadHTML env (orEmptyString page0)) = [] \<longrightarrow>
      fst (main2 env n fs) = Exited 1 \<and> disk (snd (main2 env n fs)) = fs) \<and>
   (fst (fetchWithJar1 env (daysRequest CINEMA_SLUG1 (filmId film)) (sleep DELAY_MS w)) = Inr b \<and>
    objectKeys (orEmptyObject b) = [] \<longrightarrow>
      filmLoop1 env (Some film # films) rs w =
        filmLoop1 env films rs
          (snd (fetchWithJar1 env (daysRequest CINEMA_SLUG1 (filmId film)) (sleep DELAY_MS w)))) \<and>
   (fst (fetchWithJar1 env (seancesRequest CINEMA_SLUG1 (filmId film) day) (sleep DELAY_MS w)) = Inr b \<and>
    objectKeys (orEmptyObject b) = [] \<longrightarrow>
      dayLoop1 env film (day # days) rs w =
        dayLoop1 env film days rs
          (snd (fetchWithJar1 env (seancesRequest CINEMA_SLUG1 (filmId film) day) (sleep DELAY_MS w)))) \<and>
   (fst (fetchWithJar2 env (daysRequest (CINEMA_SLUG2 env) (filmId film)) (sleep DELAY_MS w)) = Inr b \<and>
    objectKeys (orEmptyObject b) = [] \<longrightarrow>
      filmLoop2 env (Some film # films) rs2 w =
        filmLoop2 env films rs2
          (snd (fetchWithJar2 env (daysRequest (CINEMA_SLUG2 env) (filmId film)) (sleep DELAY_MS w)))) \<and>
   (fst (fetchWithJar2 env (seancesRequest (CINEMA_SLUG2 env) (filmId film) day) (sleep DELAY_MS w)) = Inr b \<and>
    objectKeys (orEmptyObject b) = [] \<longrightarrow>
      dayLoop2 env film (day # days) rs2 w =
        dayLoop2 env film days rs2
          (snd (fetchWithJar2 env (seancesRequest (CINEMA_SLUG2 env) (filmId film) day) (sleep DELAY_MS w)))) \<and>
   (answers env (seedRequest CINEMA_SLUG1) page \<and>
    parseFilmsFromHTML (loadHTML env (orEmptyString page)) = film1 # others \<and>
    answers env (daysRequest CINEMA_SLUG1 (filmId film1)) db \<and>
    (objectKeys (orEmptyObject db) = [] \<or>
     objectKeys (orEmptyObject db) = [d] \<and>
     answers env (seancesRequest CINEMA_SLUG1 (filmId film1) d) sb \<and>
     objectKeys (orEmptyObject sb) = []) \<longrightarrow>
      fst (main1 env n fs) = Completed) \<and>
   (answers env (seedRequest (CINEMA_SLUG2 env)) page \<and>
    parseFilmsFromHTML (loadHTML env (orEmptyString page)) = film1 # film2 # others \<and>
    answers env (daysRequest (CINEMA_SLUG2 env) (filmId film2)) db2 \<and>
    (objectKeys (orEmptyObject db2) = [] \<or>
     objectKeys (orEmptyObject db2) = [d] \<and>
     answers env (seancesRequest (CINEMA_SLUG2 env) (filmId film2) d) sb2 \<and>
     objectKeys (orEmptyObject sb2) = []) \<longrightarrow>
      fst (main2 env n fs) = Completed)"
proof -
  have a1: "fst (fetchWithJar1 env (seedRequest CINEMA_SLUG1) (initialWorld n fs)) = Inr page0 \<and>
    parseFilmsFromHTML (loadHTML env (orEmptyString page0)) = [] \<longrightarrow>
      fst (main1 env n fs) = Exited 1 \<and> disk (snd (main1 env n fs)) = fs"
    using crawl1_no_films[of env "initialWorld n fs" page0] main1_failed[of env n fs TypeError]
    by blast
  have a2: "fst (fetchWithJar2 env (seedRequest (CINEMA_SLUG2 env)) (initialWorld n fs)) = Inr page0 \<and>
    parseFilmsFromHTML (loadHTML env (orEmptyString page0)) = [] \<longrightarrow>
      fst (main2 env n fs) = Exited 1 \<and> disk (snd (main2 env n fs)) = fs"
    using crawl2_no_films[of env "initialWorld n fs" page0] main2_failed[of env n fs TypeError]
    by blast
  have c1: "answers env (seedRequest CINEMA_SLUG1) page \<and>
    parseFilmsFromHTML (loadHTML env (orEmptyString page)) = film1 # others \<and>
    answers env (daysRequest CINEMA_SLUG1 (filmId film1)) db \<and>
    (objectKeys (orEmptyObject db) = [] \<or>
     objectKeys (orEmptyObject db) = [d] \<and>
     answers env (seancesRequest CINEMA_SLUG1 (filmId film1) d) sb \<and>
     objectKeys (orEmptyObject sb) = []) \<longrightarrow>
      fst (main1 env n fs) = Completed"
    using crawl1_no_days[of env page film1 others db "initialWorld n fs"]
      crawl1_no_seances[of env page film1 others db d sb "initialWorld n fs"]
      main1_completed[of env n fs "[]"]
    by blast
  have c2: "answers env (seedRequest (CINEMA_SLUG2 env)) page \<and>
    parseFilmsFromHTML (loadHTML env (orEmptyString page)) = film1 # film2 # others \<and>
    answers env (daysRequest (CINEMA_SLUG2 env) (filmId film2)) db2 \<and>
    (objectKeys (orEmptyObject db2) = [] \<or>
     objectKeys (orEmptyObject db2) = [d] \<and>
     answers env (seancesRequest (CINEMA_SLUG2 env) (filmId film2) d) sb2 \<and>
     objectKeys (orEmptyObject sb2) = []) \<longrightarrow>
      fst (main2 env n fs) = Completed"
    using crawl2_no_days[of env page film1 film2 others db2 "initialWorld n fs"]
      crawl2_no_seances[of env page film1 film2 others db2 d sb2 "initialWorld n fs"]
      main2_completed[of env n fs "[]"]
    by blast
  show ?thesis
    using a1 a2 c1 c2 filmLoop1_skip[of env film w b films rs] dayLoop1_skip[of env film day w b days rs]
      filmLoop2_skip[of env film w b films rs2] dayLoop2_skip[of env film day w b days rs2]
    by blast
qed

text \<open>
  Claim C10. \<^verbatim>\<open>saveCSV\<close> returns without writing when it is given no row, and a run
  whose crawl collects no row completes with the files as they were: no report, empty or
  with a header only, is written.
\<close>

theorem no_rows_no_file:
  "saveCSV fmt filename [] fs = fs \<and>
   (fst (crawl2 env (initialWorld n fs)) = Inr [] \<longrightarrow>
      fst (main2 env n fs) = Completed \<and> disk (snd (main2 env n fs)) = fs)"
  using main2_completed[of env n fs "[]"]
  by (simp add: saveCSV_def sortBy_def)

lemma stub_variants_fetch:
  "fetch stubEnv2 = stubFetch ''lefrancais''" "fetch stubEnvNoFilms = stubFetch ''lefrancais''"
  "fetch stubEnvNoDays = stubFetch ''lefrancais''" "fetch stubEnvNoSeances = stubFetch ''lefrancais''"
  by (simp_all add: stubEnv2_def stubEnvNoFilms_def stubEnvNoDays_def stubEnvNoSeances_def stubEnv_def)

lemma stub_variants_slug:
  "CINEMA_SLUG2 stubEnv2 = CINEMA_SLUG1" "CINEMA_SLUG2 stubEnvNoFilms = CINEMA_SLUG1"
  "CINEMA_SLUG2 stubEnvNoDays = CINEMA_SLUG1" "CINEMA_SLUG2 stubEnvNoSeances = CINEMA_SLUG1"
  by (simp_all add: CINEMA_SLUG2_def CINEMA_SLUG1_def stubEnv2_def stubEnvNoFilms_def
      stubEnvNoDays_def stubEnvNoSeances_def stubEnv_def)

lemma stub_variants_seed:
  "answers stubEnvNoFilms (seedRequest CINEMA_SLUG1) (JStr ''seed'')"
  "answers stubEnvNoDays (seedRequest CINEMA_SLUG1) (JStr ''seed'')"
  "answers stubEnvNoSeances (seedRequest CINEMA_SLUG1) (JStr ''seed'')"
  by (simp_all add: answers_def stub_variants_fetch stub_fetch stub_json)
     (simp_all add: stubPage_def)

lemma stub_variants_days:
  "answers stubEnvNoDays (daysRequest CINEMA_SLUG1 ''67890'') (JObj [])"
  "answers stubEnvNoDays (daysRequest CINEMA_SLUG1 ''12345'') (JObj [])"
  "answers stubEnvNoSeances (daysRequest CINEMA_SLUG1 ''67890'') stubDays"
  "answers stubEnvNoSeances (daysRequest CINEMA_SLUG1 ''12345'') stubDays"
  "answers stubEnvNoSeances (seancesRequest CINEMA_SLUG1 ''67890'' ''2025-08-25'') (JObj [])"
  "answers stubEnvNoSeances (seancesRequest CINEMA_SLUG1 ''12345'' ''2025-08-25'') (JObj [])"
  by (simp_all add: answers_def stub_variants_fetch stub_fetch stub_json)
     (simp_all add: stubEnvNoDays_def stubEnvNoSeances_def stubPage_def)

lemma stub_variants_films:
  "parseFilmsFromHTML (loadHTML stubEnvNoFilms (orEmptyString (JStr ''seed''))) = []"
  "parseFilmsFromHTML (loadHTML stubEnvNoDays (orEmptyString (JStr ''seed'')))
     = [\<lparr>filmId = ''12345'', title = ''Bluey''\<rparr>, \<lparr>filmId = ''67890'', title = ''Elio''\<rparr>]"
  "parseFilmsFromHTML (loadHTML stubEnvNoSeances (orEmptyString (JStr ''seed'')))
     = [\<lparr>filmId = ''12345'', title = ''Bluey''\<rparr>, \<lparr>filmId = ''67890'', title = ''Elio''\<rparr>]"
  by (simp_all add: stubEnvNoFilms_def stubEnvNoDays_def stubEnvNoSeances_def stubEnv2_def
      stubEnv_def orEmptyString_def stubSeedDoc2_def parseFilmsFromHTML_def filmOfOption_def
      trim_def isWhiteSpace_def booleanAttrs_def)

lemma stub_keys:
  "objectKeys (orEmptyObject (JObj [])) = []"
  "objectKeys (orEmptyObject stubDays) = [''2025-08-25'']"
  by (simp_all add: objectKeys_def orEmptyObject_def stubDays_def)

theorem abort_without_films_skip_when_empty_witness:
  "fst (main1 stubEnvNoFilms () Map.empty) = Exited 1 \<and>
   disk (snd (main1 stubEnvNoFilms () Map.empty)) = Map.empty \<and>
   fst (main2 stubEnvNoFilms () Map.empty) = Exited 1 \<and>
   disk (snd (main2 stubEnvNoFilms () Map.empty)) = Map.empty \<and>
   fst (main1 stubEnvNoDays () Map.empty) = Completed \<and>
   fst (main2 stubEnvNoDays () Map.empty) = Completed \<and>
   fst (main1 stubEnvNoSeances () Map.empty) = Completed \<and>
   fst (main2 stubEnvNoSeances () Map.empty) = Completed \<and>
   fst (filmLoop1 stubEnvNoDays [Some stubFilm] [] (initialWorld () Map.empty)) = Inr [] \<and>
   fst (filmLoop2 stubEnvNoDays [Some stubFilm] [] (initialWorld () Map.empty)) = Inr [] \<and>
   fst (dayLoop1 stubEnvNoSeances stubFilm [''2025-08-25''] [] (initialWorld () Map.empty)) = Inr [] \<and>
   fst (dayLoop2 stubEnvNoSeances stubFilm [''2025-08-25''] [] (initialWorld () Map.empty)) = Inr []"
proof -
  define w0 :: "unit world" where "w0 = initialWorld () Map.empty"
  define bluey where "bluey = \<lparr>filmId = ''12345'', title = ''Bluey''\<rparr>"
  define elio where "elio = \<lparr>filmId = ''67890'', title = ''Elio''\<rparr>"
  have ids: "filmId bluey = ''12345''" "filmId elio = ''67890''" "filmId stubFilm = ''67890''"
    by (simp_all add: bluey_def elio_def stubFilm_def)
  note T = abort_without_films_skip_when_empty
  note c2 = conjunct2
  have f1: "fst (main1 stubEnvNoFilms () Map.empty) = Exited 1 \<and>
     disk (snd (main1 stubEnvNoFilms () Map.empty)) = Map.empty"
    by (rule T[where env=stubEnvNoFilms and n="()" and fs=Map.empty and ?page0.0="JStr ''seed''",
          THEN conjunct1, THEN mp])
       (simp add: answers_fetch1[OF stub_variants_seed(1)] stub_variants_films(1))
  have f2: "fst (main2 stubEnvNoFilms () Map.empty) = Exited 1 \<and>
     disk (snd (main2 stubEnvNoFilms () Map.empty)) = Map.empty"
    by (rule T[where env=stubEnvNoFilms and n="()" and fs=Map.empty and ?page0.0="JStr ''seed''",
          THEN c2, THEN conjunct1, THEN mp])
       (simp add: stub_variants_slug answers_fetch2[OF stub_variants_seed(1)] stub_variants_films(1))
  have d1: "fst (main1 stubEnvNoDays () Map.empty) = Completed"
    by (rule T[where env=stubEnvNoDays and n="()" and fs=Map.empty and page="JStr ''seed''"
          and ?film1.0=bluey and others="[elio]" and db="JObj []",
          THEN c2, THEN c2, THEN c2, THEN c2, THEN c2, THEN c2, THEN conjunct1, THEN mp])
       (simp add: stub_variants_seed(2) stub_variants_films(2) stub_variants_days(2) stub_keys(1)
          ids bluey_def[symmetric] elio_def[symmetric])
  have d2: "fst (main2 stubEnvNoDays () Map.empty) = Completed"
    by (rule T[where env=stubEnvNoDays and n="()" and fs=Map.empty and page="JStr ''seed''"
          and ?film1.0=bluey and ?film2.0=elio and others="[]" and ?db2.0="JObj []",
          THEN c2, THEN c2, THEN c2, THEN c2, THEN c2, THEN c2, THEN c2, THEN mp])
       (simp add: stub_variants_slug stub_variants_seed(2) stub_variants_films(2)
          stub_variants_days(1) stub_keys(1) ids bluey_def[symmetric] elio_def[symmetric])
  have s1: "fst (main1 stubEnvNoSeances () Map.empty) = Completed"
    by (rule T[where env=stubEnvNoSeances and n="()" and fs=Map.empty and page="JStr ''seed''"
          and ?film1.0=bluey and others="[elio]" and db=stubDays and d="''2025-08-25''"
          and sb="JObj []",
          THEN c2, THEN c2, THEN c2, THEN c2, THEN c2, THEN c2, THEN conjunct1, THEN mp])
       (simp add: stub_variants_seed(3) stub_variants_films(3) stub_variants_days(4,6) stub_keys
          ids bluey_def[symmetric] elio_def[symmetric])
  have s2: "fst (main2 stubEnvNoSeances () Map.empty) = Completed"
    by (rule T[where env=stubEnvNoSeances and n="()" and fs=Map.empty and page="JStr ''seed''"
          and ?film1.0=bluey and ?film2.0=elio and others="[]" and ?db2.0=stubDays
          and d="''2025-08-25''" and ?sb2.0="JObj []",
          THEN c2, THEN c2, THEN c2, THEN c2, THEN c2, THEN c2, THEN c2, THEN mp])
       (simp add: stub_variants_slug stub_variants_seed(3) stub_variants_films(3)
          stub_variants_days(3,5) stub_keys ids bluey_def[symmetric] elio_def[symmetric])
  have k1: "filmLoop1 stubEnvNoDays (Some stubFilm # []) [] w0 =
      filmLoop1 stubEnvNoDays [] []
        (snd (fetchWithJar1 stubEnvNoDays (daysRequest CINEMA_SLUG1 (filmId stubFilm)) (sleep DELAY_MS w0)))"
    by (rule T[where env=stubEnvNoDays and film=stubFilm and w=w0 and b="JObj []",
          THEN c2, THEN c2, THEN conjunct1, THEN mp])
       (simp add: ids answers_fetch1[OF stub_variants_days(1)] stub_keys(1))
  have k2: "dayLoop1 stubEnvNoSeances stubFilm (''2025-08-25'' # []) [] w0 =
      dayLoop1 stubEnvNoSeances stubFilm [] []
        (snd (fetchWithJar1 stubEnvNoSeances (seancesRequest CINEMA_SLUG1 (filmId stubFilm) ''2025-08-25'')
               (sleep DELAY_MS w0)))"
    by (rule T[where env=stubEnvNoSeances and film=stubFilm and w=w0 and b="JObj []",
          THEN c2, THEN c2, THEN c2, THEN conjunct1, THEN mp])
       (simp add: ids answers_fetch1[OF stub_variants_days(5)] stub_keys(1))
  have k3: "filmLoop2 stubEnvNoDays (Some stubFilm # []) [] w0 =
      filmLoop2 stubEnvNoDays [] []
        (snd (fetchWithJar2 stubEnvNoDays (daysRequest (CINEMA_SLUG2 stubEnvNoDays) (filmId stubFilm))
               (sleep DELAY_MS w0)))"
    by (rule T[where env=stubEnvNoDays and film=stubFilm and w=w0 and b="JObj []",
          THEN c2, THEN c2, THEN c2, THEN c2, THEN conjunct1, THEN mp])
       (simp add: stub_variants_slug ids answers_fetch2[OF stub_variants_days(1)] stub_keys(1))
  have k4: "dayLoop2 stubEnvNoSeances stubFilm (''2025-08-25'' # []) [] w0 =
      dayLoop2 stubEnvNoSeances stubFilm [] []
        (snd (fetchWithJar2 stubEnvNoSeances
               (seancesRequest (CINEMA_SLUG2 stubEnvNoSeances) (filmId stubFilm) ''2025-08-25'')
               (sleep DELAY_MS w0)))"
    by (rule T[where env=stubEnvNoSeances and film=stubFilm and w=w0 and b="JObj []",
          THEN c2, THEN c2, THEN c2, THEN c2, THEN c2, THEN conjunct1, THEN mp])
       (simp add: stub_variants_slug ids answers_fetch2[OF stub_variants_days(5)] stub_keys(1))
  have l: "fst (filmLoop1 stubEnvNoDays [Some stubFilm] [] w0) = Inr []"
    "fst (dayLoop1 stubEnvNoSeances stubFilm [''2025-08-25''] [] w0) = Inr []"
    "fst (filmLoop2 stubEnvNoDays [Some stubFilm] [] w0) = Inr []"
    "fst (dayLoop2 stubEnvNoSeances stubFilm [''2025-08-25''] [] w0) = Inr []"
    by (simp_all only: k1 k2 k3 k4 filmLoop1.simps(1) dayLoop1.simps(1) filmLoop2.simps(1)
        dayLoop2.simps(1) fst_conv)
  show ?thesis using f1 f2 d1 d2 s1 s2 l unfolding w0_def by simp
qed

theorem no_rows_no_file_witness:
  "fst (crawl2 stubEnvNoDays (initialWorld () Map.empty)) = Inr [] \<and>
   fst (main2 stubEnvNoDays () Map.empty) = Completed \<and>
   disk (snd (main2 stubEnvNoDays () Map.empty)) = Map.empty \<and>
   saveCSV (\<lambda>lit. lit) ''cgr_lefrancais_programme.csv'' [] Map.empty = Map.empty"
proof -
  have c: "fst (crawl2 stubEnvNoDays (initialWorld () Map.empty)) = Inr []"
    using crawl2_no_days[of stubEnvNoDays "JStr ''seed''" "\<lparr>filmId = ''12345'', title = ''Bluey''\<rparr>"
        "\<lparr>filmId = ''67890'', title = ''Elio''\<rparr>" "[]" "JObj []" "initialWorld () Map.empty"]
      stub_variants_seed(2) stub_variants_films(2) stub_variants_days(1) stub_keys(1)
    by (simp add: stub_variants_slug)
  show ?thesis
    using no_rows_no_file[of "\<lambda>lit. lit" "''cgr_lefrancais_programme.csv''" Map.empty stubEnvNoDays "()"] c
    by simp
qed

section \<open>The order of the report\<close>

lemma mset_insertBy: "mset (insertBy cmp x xs) = add_mset x (mset xs)"
  by (induction xs) auto

lemma mset_sortBy: "mset (sortBy cmp xs) = mset xs"
  by (induction xs) (auto simp: sortBy_def mset_insertBy)

lemma set_insertBy: "set (insertBy cmp x xs) = insert x (set xs)"
  by (induction xs) auto

lemma consistent_flip: "consistent cmp \<Longrightarrow> \<not> cmp x y \<le> 0 \<Longrightarrow> cmp y x \<le> 0"
proof -
  assume c: "consistent cmp" and n: "\<not> cmp x y \<le> 0"
  from c have "(cmp y x < 0) = (0 < cmp x y)" unfolding consistent_def by blast
  with n show ?thesis by simp
qed

lemma consistent_trans: "consistent cmp \<Longrightarrow> cmp x y \<le> 0 \<Longrightarrow> cmp y z \<le> 0 \<Longrightarrow> cmp x z \<le> 0"
  unfolding consistent_def by blast

lemma sorted_insertBy:
  assumes "consistent cmp" "sorted_wrt (\<lambda>a b. cmp a b \<le> 0) xs"
  shows "sorted_wrt (\<lambda>a b. cmp a b \<le> 0) (insertBy cmp x xs)"
  using assms(2)
proof (induction xs)
  case Nil
  then show ?case by simp
next
  case (Cons y ys)
  show ?case
  proof (cases "cmp x y \<le> 0")
    case True
    then have "\<forall>z\<in>set ys. cmp x z \<le> 0"
      using Cons.prems consistent_trans[OF assms(1)] by auto
    with True Cons.prems show ?thesis by simp
  next
    case False
    then have "cmp y x \<le> 0" by (rule consistent_flip[OF assms(1)])
    with False Cons show ?thesis by (auto simp: set_insertBy)
  qed
qed

lemma sorted_sortBy:
  "consistent cmp \<Longrightarrow> sorted_wrt (\<lambda>a b. cmp a b \<le> 0) (sortBy cmp xs)"
  by (induction xs) (auto simp: sortBy_def sorted_insertBy)

text \<open>Facts about a consistent collation.\<close>

lemma lc_zero_sym: "consistent lc \<Longrightarrow> lc a b = 0 \<Longrightarrow> lc b a = 0"
proof -
  assume c: "consistent lc" and z: "lc a b = 0"
  from c have "(lc a b < 0) = (0 < lc b a)" "(lc b a < 0) = (0 < lc a b)"
    unfolding consistent_def by blast+
  with z show ?thesis by simp
qed

lemma lc_lt_le: "consistent lc \<Longrightarrow> lc a b < 0 \<Longrightarrow> lc b c \<le> 0 \<Longrightarrow> lc a c < 0"
proof (rule ccontr)
  assume c: "consistent lc" and 1: "lc a b < 0" and 2: "lc b c \<le> 0" and n: "\<not> lc a c < 0"
  from c have "(lc c a < 0) = (0 < lc a c)" unfolding consistent_def by blast
  with n have "lc c a \<le> 0 \<or> lc a c = 0" by auto
  then have "lc c a \<le> 0" using lc_zero_sym[OF c] by auto
  with 2 have "lc b a \<le> 0" using consistent_trans[OF c] by blast
  moreover from c have "(lc a b < 0) = (0 < lc b a)" unfolding consistent_def by blast
  ultimately show False using 1 by simp
qed

lemma lc_le_lt: "consistent lc \<Longrightarrow> lc a b \<le> 0 \<Longrightarrow> lc b c < 0 \<Longrightarrow> lc a c < 0"
proof (rule ccontr)
  assume c: "consistent lc" and 1: "lc a b \<le> 0" and 2: "lc b c < 0" and n: "\<not> lc a c < 0"
  from c have "(lc c a < 0) = (0 < lc a c)" unfolding consistent_def by blast
  with n have "lc c a \<le> 0 \<or> lc a c = 0" by auto
  then have "lc c a \<le> 0" using lc_zero_sym[OF c] by auto
  with 1 have "lc c b \<le> 0" using consistent_trans[OF c] by blast
  moreover from c have "(lc b c < 0) = (0 < lc c b)" unfolding consistent_def by blast
  ultimately show False using 2 by simp
qed

lemma lc_zero_trans: "consistent lc \<Longrightarrow> lc a b = 0 \<Longrightarrow> lc b c = 0 \<Longrightarrow> lc a c = 0"
proof -
  assume c: "consistent lc" and 1: "lc a b = 0" and 2: "lc b c = 0"
  have "lc a c \<le> 0" using consistent_trans[OF c, of a b c] 1 2 by simp
  moreover have "lc c a \<le> 0"
    using consistent_trans[OF c, of c b a] lc_zero_sym[OF c 1] lc_zero_sym[OF c 2] by simp
  moreover from c have "(lc a c < 0) = (0 < lc c a)" unfolding consistent_def by blast
  ultimately show ?thesis by auto
qed

lemma compareRows_le:
  "compareRows lc a b \<le> 0 \<longleftrightarrow>
     lc (salle a) (salle b) < 0 \<or>
     (lc (salle a) (salle b) = 0 \<and>
      (lc (date a) (date b) < 0 \<or>
       (lc (date a) (date b) = 0 \<and> lc (heure a) (heure b) \<le> 0)))"
  by (auto simp: compareRows_def Let_def)

lemma compareRows_lt:
  "compareRows lc a b < 0 \<longleftrightarrow>
     lc (salle a) (salle b) < 0 \<or>
     (lc (salle a) (salle b) = 0 \<and>
      (lc (date a) (date b) < 0 \<or>
       (lc (date a) (date b) = 0 \<and> lc (heure a) (heure b) < 0)))"
  by (auto simp: compareRows_def Let_def)

lemma compareRows_gt:
  "0 < compareRows lc a b \<longleftrightarrow>
     0 < lc (salle a) (salle b) \<or>
     (lc (salle a) (salle b) = 0 \<and>
      (0 < lc (date a) (date b) \<or>
       (lc (date a) (date b) = 0 \<and> 0 < lc (heure a) (heure b))))"
  by (auto simp: compareRows_def Let_def)

lemma lex_step:
  assumes c: "consistent lc"
    and xy: "lc x y < 0 \<or> (lc x y = 0 \<and> P)"
    and yz: "lc y z < 0 \<or> (lc y z = 0 \<and> Q)"
    and r: "P \<Longrightarrow> Q \<Longrightarrow> R"
  shows "lc x z < 0 \<or> (lc x z = 0 \<and> R)"
proof (cases "lc x y < 0")
  case True
  have "lc y z \<le> 0" using yz by auto
  then show ?thesis using lc_lt_le[OF c True] by blast
next
  case False
  then have xy0: "lc x y = 0" and p: P using xy by auto
  show ?thesis
  proof (cases "lc y z < 0")
    case True
    then show ?thesis using lc_le_lt[OF c, of x y z] xy0 by simp
  next
    case False
    then have yz0: "lc y z = 0" and q: Q using yz by auto
    show ?thesis using lc_zero_trans[OF c xy0 yz0] r[OF p q] by simp
  qed
qed

lemma lex_flip:
  assumes "A1 = B1" "Z1 = Z1'" "A2 = B2"
  shows "(A1 \<or> (Z1 \<and> A2)) = (B1 \<or> (Z1' \<and> B2))"
  using assms by blast

lemma consistent_compareRows:
  assumes c: "consistent lc"
  shows "consistent (compareRows lc)"
proof -
  have flip: "(lc x y < 0) = (0 < lc y x)" for x y
    using c unfolding consistent_def by blast
  have zero: "(lc x y = 0) = (lc y x = 0)" for x y
    using lc_zero_sym[OF c] by blast
  have anti: "(compareRows lc a b < 0) = (0 < compareRows lc b a)" for a b :: "'a row_scheme"
    unfolding compareRows_lt compareRows_gt
    by (intro lex_flip flip zero)
  have trans: "compareRows lc a d \<le> 0"
    if ab: "compareRows lc a b \<le> 0" and bd: "compareRows lc b d \<le> 0"
    for a b d :: "'a row_scheme"
  proof -
    have h: "lc (heure a) (heure d) \<le> 0"
      if "lc (heure a) (heure b) \<le> 0" "lc (heure b) (heure d) \<le> 0"
      using consistent_trans[OF c that] .
    have dd: "lc (date a) (date d) < 0 \<or> (lc (date a) (date d) = 0 \<and> lc (heure a) (heure d) \<le> 0)"
      if "lc (date a) (date b) < 0 \<or> (lc (date a) (date b) = 0 \<and> lc (heure a) (heure b) \<le> 0)"
        "lc (date b) (date d) < 0 \<or> (lc (date b) (date d) = 0 \<and> lc (heure b) (heure d) \<le> 0)"
      using lex_step[OF c that h] .
    show ?thesis
      using lex_step[OF c ab[unfolded compareRows_le] bd[unfolded compareRows_le] dd]
      unfolding compareRows_le .
  qed
  show ?thesis
    unfolding consistent_def using anti trans by blast
qed

lemma codeUnitCompare_flip: "(codeUnitCompare a b < 0) = (0 < codeUnitCompare b a)"
  by (induction a b rule: codeUnitCompare.induct) auto

lemma codeUnitCompare_zero: "(codeUnitCompare a b = 0) = (a = b)"
  by (induction a b rule: codeUnitCompare.induct) auto

lemma codeUnitCompare_refl: "codeUnitCompare a a = 0"
  by (simp add: codeUnitCompare_zero)

lemma codeUnitCompare_trans:
  "codeUnitCompare a b \<le> 0 \<Longrightarrow> codeUnitCompare b c \<le> 0 \<Longrightarrow> codeUnitCompare a c \<le> 0"
proof (induction a b arbitrary: c rule: codeUnitCompare.induct)
  case 1
  then show ?case by simp
next
  case (2 y ys)
  then show ?case by (cases c) simp_all
next
  case (3 x xs)
  then show ?case by simp
next
  case (4 x xs y ys)
  show ?case
  proof (cases c)
    case Nil
    with 4 show ?thesis by simp
  next
    case (Cons z zs)
    show ?thesis
    proof (cases "(of_char x :: nat) < of_char y")
      case True
      with 4(3) Cons show ?thesis by (auto split: if_splits)
    next
      case False
      with 4(2) have xy: "(of_char x :: nat) = of_char y" and r: "codeUnitCompare xs ys \<le> 0"
        by (auto split: if_splits)
      from 4(3) Cons have "(of_char y :: nat) < of_char z \<or>
          ((of_char y :: nat) = of_char z \<and> codeUnitCompare ys zs \<le> 0)"
        by (auto split: if_splits)
      then show ?thesis
      proof
        assume "(of_char y :: nat) < of_char z"
        with xy Cons show ?thesis by simp
      next
        assume a: "(of_char y :: nat) = of_char z \<and> codeUnitCompare ys zs \<le> 0"
        with 4(1)[OF False _ r, of zs] xy have "codeUnitCompare xs zs \<le> 0" by simp
        with a xy Cons show ?thesis by simp
      qed
    qed
  qed
qed

lemma consistent_codeUnitCompare: "consistent codeUnitCompare"
  unfolding consistent_def using codeUnitCompare_flip codeUnitCompare_trans by blast

lemma consistent_lowerFirstCompare: "consistent lowerFirstCompare"
proof -
  define p where "p = (\<lambda>a b. codeUnitCompare (map toLowerAscii a) (map toLowerAscii b))"
  have cp: "consistent p"
    unfolding consistent_def p_def using codeUnitCompare_flip codeUnitCompare_trans by blast
  have lf: "lowerFirstCompare a b = (if p a b \<noteq> 0 then p a b else codeUnitCompare b a)" for a b
    by (simp add: lowerFirstCompare_def p_def Let_def)
  have le: "(lowerFirstCompare a b \<le> 0) = (p a b < 0 \<or> (p a b = 0 \<and> codeUnitCompare b a \<le> 0))"
    for a b by (auto simp: lf)
  have pflip: "(p a b < 0) = (0 < p b a)" for a b
    using cp unfolding consistent_def by blast
  have pzero: "(p a b = 0) = (p b a = 0)" for a b
    using lc_zero_sym[OF cp] by blast
  have anti: "(lowerFirstCompare a b < 0) = (0 < lowerFirstCompare b a)" for a b
    using pflip[of a b] pflip[of b a] pzero[of a b] codeUnitCompare_flip[of b a]
    by (auto simp: lf)
  have trans: "lowerFirstCompare a c \<le> 0"
    if ab: "lowerFirstCompare a b \<le> 0" and bc: "lowerFirstCompare b c \<le> 0" for a b c
  proof -
    have r: "codeUnitCompare c a \<le> 0"
      if "codeUnitCompare b a \<le> 0" "codeUnitCompare c b \<le> 0"
      using codeUnitCompare_trans[OF that(2) that(1)] .
    show ?thesis
      using lex_step[OF cp ab[unfolded le] bc[unfolded le] r] unfolding le .
  qed
  show ?thesis unfolding consistent_def using anti trans by blast
qed

text \<open>
  Claim C5, as the code has it. The report that a run writes is made of the rows of the
  crawl sorted by the comparator of \<^verbatim>\<open>main\<close>, under the collation that
  \<^verbatim>\<open>localeCompare\<close> computes, taken to be a consistent comparator. The sorted rows are
  the same rows, and of any two of them the earlier has the room that the collation does
  not put after the room of the later; where it holds the rooms equal, the same of the
  dates; and where it holds rooms and dates equal, the same of the times.
\<close>

theorem report_sorted:
  assumes "consistent (localeCompare env)"
    and "out = sortBy (compareRows (localeCompare env)) rows"
    and "i < j" and "j < length out"
  shows "mset out = mset rows \<and>
    localeCompare env (salle (out ! i)) (salle (out ! j)) \<le> 0 \<and>
    (localeCompare env (salle (out ! i)) (salle (out ! j)) = 0 \<longrightarrow>
       localeCompare env (date (out ! i)) (date (out ! j)) \<le> 0) \<and>
    (localeCompare env (salle (out ! i)) (salle (out ! j)) = 0 \<and>
     localeCompare env (date (out ! i)) (date (out ! j)) = 0 \<longrightarrow>
       localeCompare env (heure (out ! i)) (heure (out ! j)) \<le> 0) \<and>
    (fst (crawl1 env (initialWorld n fs)) = Inr rows1 \<longrightarrow>
       disk (snd (main1 env n fs)) (OUTPUT_CSV CINEMA_SLUG1) =
         Some (toCSV (floatString env) (sortBy (compareRows (localeCompare env)) rows1)
                 csvHeaders1)) \<and>
    (fst (crawl2 env (initialWorld n fs)) = Inr rows2 \<longrightarrow>
       disk (snd (main2 env n fs)) =
         saveCSV (floatString env) (OUTPUT_CSV (CINEMA_SLUG2 env))
           (sortBy (compareRows (localeCompare env)) rows2) fs)"
proof -
  have "sorted_wrt (\<lambda>a b. compareRows (localeCompare env) a b \<le> 0) out"
    unfolding assms(2) by (rule sorted_sortBy[OF consistent_compareRows[OF assms(1)]])
  then have le: "compareRows (localeCompare env) (out ! i) (out ! j) \<le> 0"
    using assms(3,4) by (simp add: sorted_wrt_iff_nth_less)
  have m: "mset out = mset rows" unfolding assms(2) by (rule mset_sortBy)
  have order: "localeCompare env (salle (out ! i)) (salle (out ! j)) \<le> 0 \<and>
    (localeCompare env (salle (out ! i)) (salle (out ! j)) = 0 \<longrightarrow>
       localeCompare env (date (out ! i)) (date (out ! j)) \<le> 0) \<and>
    (localeCompare env (salle (out ! i)) (salle (out ! j)) = 0 \<and>
     localeCompare env (date (out ! i)) (date (out ! j)) = 0 \<longrightarrow>
       localeCompare env (heure (out ! i)) (heure (out ! j)) \<le> 0)"
    using le unfolding compareRows_le by auto
  show ?thesis
    using m order main1_completed[of env n fs rows1] main2_completed[of env n fs rows2]
    by blast
qed

lemma stub_lower_collation:
  "localeCompare (stubEnv2\<lparr>localeCompare := lowerFirstCompare\<rparr>) = lowerFirstCompare"
  "localeCompare stubEnv2 = codeUnitCompare"
  by (simp_all add: stubEnv2_def stubEnv_def)

theorem report_sorted_witness:
  "map (\<lambda>r. (salle r, date r, heure r))
     (sortBy (compareRows lowerFirstCompare)
        [\<lparr>cinema = ''c'', salle = ''10'', salle_label = ''Salle 10'', film_id = ''1'',
           film_titre = ''A'', date = ''2025-08-25'', heure = ''14h00'', version = ''VF'',
           audio = [], seance_id = ''1'', ts = Integer 1\<rparr>,
         \<lparr>cinema = ''c'', salle = ''06'', salle_label = ''Salle 6'', film_id = ''1'',
           film_titre = ''A'', date = ''2025-08-26'', heure = ''14h00'', version = ''VF'',
           audio = [], seance_id = ''2'', ts = Integer 2\<rparr>,
         \<lparr>cinema = ''c'', salle = ''06'', salle_label = ''Salle 6'', film_id = ''1'',
           film_titre = ''A'', date = ''2025-08-25'', heure = ''22h30'', version = ''VF'',
           audio = [], seance_id = ''3'', ts = Integer 3\<rparr>,
         \<lparr>cinema = ''c'', salle = ''06'', salle_label = ''Salle 6'', film_id = ''1'',
           film_titre = ''A'', date = ''2025-08-25'', heure = ''14h00'', version = ''VF'',
           audio = [], seance_id = ''4'', ts = Integer 4\<rparr>])
   = [(''06'', ''2025-08-25'', ''14h00''), (''06'', ''2025-08-25'', ''22h30''),
      (''06'', ''2025-08-26'', ''14h00''), (''10'', ''2025-08-25'', ''14h00'')] \<and>
   lowerFirstCompare ''06'' ''10'' \<le> 0 \<and> lowerFirstCompare ''2025-08-25'' ''2025-08-26'' \<le> 0 \<and>
   lowerFirstCompare ''14h00'' ''22h30'' \<le> 0 \<and>
   disk (snd (main2 stubEnv2 () Map.empty)) =
     saveCSV (\<lambda>lit. lit) ''cgr_lefrancais_programme.csv''
       [\<lparr>cinema = ''lefrancais'', salle = ''10'', salle_label = ''Salle 10'',
          film_id = ''67890'', film_titre = ''Elio'', date = ''2025-08-25'',
          heure = ''14h00'', version = ''VF'', audio = [], seance_id = ''543210'',
          ts = Integer 1724606400, reservation_url = ''/lefrancais/places/''\<rparr>] Map.empty"
proof -
  define rows :: "row list" where "rows =
        [\<lparr>cinema = ''c'', salle = ''10'', salle_label = ''Salle 10'', film_id = ''1'',
           film_titre = ''A'', date = ''2025-08-25'', heure = ''14h00'', version = ''VF'',
           audio = [], seance_id = ''1'', ts = Integer 1\<rparr>,
         \<lparr>cinema = ''c'', salle = ''06'', salle_label = ''Salle 6'', film_id = ''1'',
           film_titre = ''A'', date = ''2025-08-26'', heure = ''14h00'', version = ''VF'',
           audio = [], seance_id = ''2'', ts = Integer 2\<rparr>,
         \<lparr>cinema = ''c'', salle = ''06'', salle_label = ''Salle 6'', film_id = ''1'',
           film_titre = ''A'', date = ''2025-08-25'', heure = ''22h30'', version = ''VF'',
           audio = [], seance_id = ''3'', ts = Integer 3\<rparr>,
         \<lparr>cinema = ''c'', salle = ''06'', salle_label = ''Salle 6'', film_id = ''1'',
           film_titre = ''A'', date = ''2025-08-25'', heure = ''14h00'', version = ''VF'',
           audio = [], seance_id = ''4'', ts = Integer 4\<rparr>]"
  define env where "env = stubEnv2\<lparr>localeCompare := lowerFirstCompare\<rparr>"
  have lc: "localeCompare env = lowerFirstCompare"
    by (simp add: env_def stub_lower_collation)
  define out where "out = sortBy (compareRows (localeCompare env)) rows"
  have c: "consistent (localeCompare env)"
    unfolding lc by (rule consistent_lowerFirstCompare)
  have o: "map (\<lambda>r. (salle r, date r, heure r)) out
     = [(''06'', ''2025-08-25'', ''14h00''), (''06'', ''2025-08-25'', ''22h30''),
        (''06'', ''2025-08-26'', ''14h00''), (''10'', ''2025-08-25'', ''14h00'')]"
    by (simp add: out_def lc rows_def sortBy_def compareRows_def lowerFirstCompare_def
        toLowerAscii_def Let_def)
  have len: "length out = 4" using arg_cong[OF o, of length] by simp
  have k: "(salle (out ! m), date (out ! m), heure (out ! m)) =
      [(''06'', ''2025-08-25'', ''14h00''), (''06'', ''2025-08-25'', ''22h30''),
       (''06'', ''2025-08-26'', ''14h00''), (''10'', ''2025-08-25'', ''14h00'')] ! m" if "m < 4" for m
    using nth_map[of m out "\<lambda>r. (salle r, date r, heure r)"] that len o by simp
  have z: "lowerFirstCompare x x = 0" for x
    by (simp add: lowerFirstCompare_def codeUnitCompare_refl)
  have a: "lowerFirstCompare ''06'' ''10'' \<le> 0"
    using report_sorted[OF c out_def, of 2 3] len k[of 2] k[of 3] unfolding lc
    by simp
  have b: "lowerFirstCompare ''2025-08-25'' ''2025-08-26'' \<le> 0"
    using report_sorted[OF c out_def, of 1 2] len k[of 1] k[of 2] unfolding lc
    by (simp add: z)
  have d: "lowerFirstCompare ''14h00'' ''22h30'' \<le> 0"
    using report_sorted[OF c out_def, of 0 1] len k[of 0] k[of 1] unfolding lc
    by (simp add: z)
  have s: "CINEMA_SLUG2 stubEnv2 = CINEMA_SLUG1"
    by (simp add: stub2_slug CINEMA_SLUG1_def)
  have f: "parseFilmsFromHTML (loadHTML stubEnv2 (orEmptyString (JStr ''seed''))) =
      \<lparr>filmId = ''12345'', title = ''Bluey''\<rparr> # \<lparr>filmId = ''67890'', title = ''Elio''\<rparr> # []"
    by (simp add: stubEnv2_def stubEnv_def orEmptyString_def stubSeedDoc2_def
        parseFilmsFromHTML_def filmOfOption_def trim_def isWhiteSpace_def booleanAttrs_def)
  have r: "extractSalle2 (loadHTML stubEnv2 (orEmptyString (JStr ''reveal'')))
      = \<lparr>salleNum = ''10'', salleLabel = ''Salle 10''\<rparr>"
    unfolding stub2_reveal
    by (rule extractSalle2_src10[OF stub_reveal_img, of "[]" "[]"]) (simp_all add: booleanAttrs_def)
  have cr: "fst (crawl2 stubEnv2 (initialWorld () Map.empty)) =
      Inr [\<lparr>cinema = ''lefrancais'', salle = ''10'', salle_label = ''Salle 10'',
          film_id = ''67890'', film_titre = ''Elio'', date = ''2025-08-25'',
          heure = ''14h00'', version = ''VF'', audio = [], seance_id = ''543210'',
          ts = Integer 1724606400, reservation_url = ''/lefrancais/places/''\<rparr>]"
    using crawl2_scenario[of stubEnv2 "JStr ''seed''" _ "[]" "JStr ''reveal''" "initialWorld () Map.empty",
        unfolded s, OF stub2_answers(1) f stub2_answers(2)[unfolded stubDays_def]
        stub2_answers(3)[unfolded stubSeances_def] stub2_answers(4) r]
    by (simp add: stub2_reveal stub_reservation CINEMA_SLUG1_def)
  have c2: "consistent (localeCompare stubEnv2)"
    unfolding stub_lower_collation by (rule consistent_codeUnitCompare)
  have m: "disk (snd (main2 stubEnv2 () Map.empty)) =
     saveCSV (\<lambda>lit. lit) ''cgr_lefrancais_programme.csv''
       [\<lparr>cinema = ''lefrancais'', salle = ''10'', salle_label = ''Salle 10'',
          film_id = ''67890'', film_titre = ''Elio'', date = ''2025-08-25'',
          heure = ''14h00'', version = ''VF'', audio = [], seance_id = ''543210'',
          ts = Integer 1724606400, reservation_url = ''/lefrancais/places/''\<rparr>] Map.empty"
  proof -
    have fl: "floatString stubEnv2 = (\<lambda>lit. lit)"
      by (simp add: stubEnv2_def stubEnv_def)
    have oc: "OUTPUT_CSV (CINEMA_SLUG2 stubEnv2) = ''cgr_lefrancais_programme.csv''"
      by (simp add: stub2_slug OUTPUT_CSV_def)
    have l2: "1 < length (sortBy (compareRows (localeCompare stubEnv2)) rows)"
      using mset_eq_length[OF mset_sortBy[of "compareRows (localeCompare stubEnv2)" rows]]
      by (simp add: rows_def)
    note T = report_sorted[where env=stubEnv2 and rows=rows and i=0 and j=1 and n="()"
        and fs=Map.empty and ?rows1.0="[]", OF c2 refl zero_less_one l2]
    have "fst (crawl2 stubEnv2 (initialWorld () Map.empty)) = Inr rows2 \<longrightarrow>
       disk (snd (main2 stubEnv2 () Map.empty)) =
         saveCSV (floatString stubEnv2) (OUTPUT_CSV (CINEMA_SLUG2 stubEnv2))
           (sortBy (compareRows (localeCompare stubEnv2)) rows2) Map.empty" for rows2
      using T[where ?rows2.0=rows2] by blast
    from this[rule_format, OF cr] show ?thesis
      unfolding fl oc by (simp add: sortBy_single)
  qed
  show ?thesis using o a b d m unfolding out_def lc rows_def by simp
qed

text \<open>
  Under a collation that puts a lowercase letter before the same letter in uppercase, two
  rows of one room and date with the times \<^verbatim>\<open>20H10\<close> and \<^verbatim>\<open>20h10\<close> come out with
  \<^verbatim>\<open>20h10\<close> first, which the lexicographic order of the texts puts last.
\<close>

theorem report_collation_counterexample:
  "map heure
     (sortBy (compareRows lowerFirstCompare)
        [\<lparr>cinema = ''c'', salle = ''06'', salle_label = ''Salle 6'', film_id = ''1'',
           film_titre = ''A'', date = ''2025-08-25'', heure = ''20H10'', version = ''VF'',
           audio = [], seance_id = ''1'', ts = Integer 1\<rparr>,
         \<lparr>cinema = ''c'', salle = ''06'', salle_label = ''Salle 6'', film_id = ''1'',
           film_titre = ''A'', date = ''2025-08-25'', heure = ''20h10'', version = ''VF'',
           audio = [], seance_id = ''2'', ts = Integer 2\<rparr>])
   = [''20h10'', ''20H10''] \<and>
   codeUnitCompare ''20H10'' ''20h10'' < 0 \<and>
   lowerFirstCompare ''20h10'' ''20H10'' < 0"
  by (simp add: sortBy_def compareRows_def lowerFirstCompare_def toLowerAscii_def Let_def
      char_of_eq_iff)

lemma read_quoted:
  "specReadFields d InQuoted cur (doubleQuotes s @ CHR 0x22 # rest)
     = specReadFields d AfterQuote (cur @ s) rest"
  by (induction s arbitrary: cur) (simp_all add: doubleQuotes_def)

lemma read_plain:
  "d \<notin> set s \<Longrightarrow>
   specReadFields d InPlain cur (s @ rest) = specReadFields d InPlain (cur @ s) rest"
  by (induction s arbitrary: cur) auto

lemma read_plain_start:
  assumes "d \<notin> set s" and "CHR 0x22 \<notin> set s" and "d \<noteq> CHR 0x22"
  shows "specReadFields d FieldStart [] (s @ d # rest) = s # specReadFields d FieldStart [] rest"
proof (cases s)
  case Nil
  with assms(3) show ?thesis by simp
next
  case (Cons c cs)
  with assms have c: "c \<noteq> CHR 0x22" "c \<noteq> d" "d \<notin> set cs" by auto
  have "specReadFields d FieldStart [] ((c # cs) @ d # rest)
      = specReadFields d InPlain [c] (cs @ d # rest)"
    using c by simp
  also have "\<dots> = specReadFields d InPlain ([c] @ cs) (d # rest)"
    by (rule read_plain[OF c(3)])
  finally show ?thesis using Cons by simp
qed

lemma read_plain_end:
  assumes "d \<notin> set s" and "CHR 0x22 \<notin> set s"
  shows "specReadFields d FieldStart [] s = [s]"
proof (cases s)
  case Nil
  then show ?thesis by simp
next
  case (Cons c cs)
  with assms have c: "c \<noteq> CHR 0x22" "c \<noteq> d" "d \<notin> set cs" by auto
  have "specReadFields d FieldStart [] (c # cs) = specReadFields d InPlain [c] (cs @ [])"
    using c by simp
  also have "\<dots> = specReadFields d InPlain ([c] @ cs) []"
    by (rule read_plain[OF c(3)])
  finally show ?thesis using Cons by simp
qed

lemma read_wrapped_start:
  "d \<noteq> CHR 0x22 \<Longrightarrow>
   specReadFields d FieldStart [] (CHR 0x22 # doubleQuotes s @ CHR 0x22 # d # rest)
     = s # specReadFields d FieldStart [] rest"
  by (simp add: read_quoted)

lemma read_wrapped_end:
  "specReadFields d FieldStart [] (CHR 0x22 # doubleQuotes s @ [CHR 0x22]) = [s]"
  by (simp add: read_quoted)

lemma read_join:
  assumes "d \<noteq> CHR 0x22"
    and "\<And>c. c \<in> set cells \<Longrightarrow>
           enc c = CHR 0x22 # doubleQuotes (tx c) @ [CHR 0x22] \<or>
           (enc c = tx c \<and> d \<notin> set (tx c) \<and> CHR 0x22 \<notin> set (tx c))"
    and "cells \<noteq> []"
  shows "specReadFields d FieldStart [] (joinWith [d] (map enc cells)) = map tx cells"
  using assms(2,3)
proof (induction cells rule: induct_list012)
  case 1
  then show ?case by simp
next
  case (2 x)
  from 2(1)[of x] show ?case
    using read_wrapped_end[of d "tx x"] read_plain_end[of d "tx x"] by auto
next
  case (3 x y zs)
  have rest: "specReadFields d FieldStart [] (joinWith [d] (map enc (y # zs))) = map tx (y # zs)"
    using 3(2) 3(3) by simp
  have "specReadFields d FieldStart [] (enc x @ d # joinWith [d] (map enc (y # zs)))
      = tx x # specReadFields d FieldStart [] (joinWith [d] (map enc (y # zs)))"
    using 3(3)[of x] read_wrapped_start[OF assms(1), of "tx x"]
      read_plain_start[of d "tx x", OF _ _ assms(1)]
    by auto
  with rest show ?case by simp
qed

lemma csvEscape_shape:
  "csvEscape fmt c = CHR 0x22 # doubleQuotes (cellText fmt c) @ [CHR 0x22] \<or>
   (csvEscape fmt c = cellText fmt c \<and> CHR '';'' \<notin> set (cellText fmt c) \<and>
    CHR 0x22 \<notin> set (cellText fmt c))"
  by (simp add: csvEscape_def cellText_def strIncludes_singleton Let_def)

lemma toCsvRow_join:
  "toCsvRow fmt cells
     = joinWith '','' (map (\<lambda>c. CHR 0x22 # doubleQuotes (cellText fmt c) @ [CHR 0x22]) cells)"
  by (simp add: toCsvRow_def cellText_def)

text \<open>
  Claim C6. A text that holds the delimiter, a quote or a line feed is written between
  quotes with its quotes doubled, by both writers (the second wraps every cell). A row
  of cells written by either writer and read back with its delimiter gives the texts of
  the cells again; so does the line of a row of the report under the headers of the
  first listing.
\<close>

theorem csv_round_trip:
  "(strIncludes s '';'' \<or> strIncludes s [CHR 0x0A] \<or> strIncludes s [CHR 0x22] \<longrightarrow>
      csvEscape fmt (CStr s) = [CHR 0x22] @ doubleQuotes s @ [CHR 0x22]) \<and>
   toCsvRow fmt [CStr s] = [CHR 0x22] @ doubleQuotes s @ [CHR 0x22] \<and>
   specReadRecord CHR '';'' (csvEscape fmt (CStr s)) = [s] \<and>
   specReadRecord CHR '','' (toCsvRow fmt [CStr s]) = [s] \<and>
   (cells \<noteq> [] \<longrightarrow>
      specReadRecord CHR '';'' (joinWith '';'' (map (csvEscape fmt) cells))
        = map (cellText fmt) cells \<and>
      specReadRecord CHR '','' (toCsvRow fmt cells) = map (cellText fmt) cells) \<and>
   specReadRecord CHR '';'' (joinWith '';'' (map (\<lambda>h. csvEscape fmt (rowGet r h)) csvHeaders1))
     = map (\<lambda>h. cellText fmt (rowGet r h)) csvHeaders1"
proof -
  have one: "specReadRecord CHR '';'' (joinWith '';'' (map (csvEscape fmt) cs))
        = map (cellText fmt) cs" if "cs \<noteq> []" for cs
    unfolding specReadRecord_def
    using read_join[of "CHR '';''" cs "csvEscape fmt" "cellText fmt"] csvEscape_shape that
    by simp
  have two: "specReadRecord CHR '','' (toCsvRow fmt cs) = map (cellText fmt) cs"
    if "cs \<noteq> []" for cs
    unfolding specReadRecord_def toCsvRow_join
    using read_join[of "CHR '',''" cs
        "\<lambda>c. CHR 0x22 # doubleQuotes (cellText fmt c) @ [CHR 0x22]" "cellText fmt"] that
    by simp
  have a: "strIncludes s '';'' \<or> strIncludes s [CHR 0x0A] \<or> strIncludes s [CHR 0x22] \<longrightarrow>
      csvEscape fmt (CStr s) = [CHR 0x22] @ doubleQuotes s @ [CHR 0x22]"
    by (simp add: csvEscape_def cellString_def)
  have b: "toCsvRow fmt [CStr s] = [CHR 0x22] @ doubleQuotes s @ [CHR 0x22]"
    by (simp add: toCsvRow_def cellString_def)
  have c: "specReadRecord CHR '';'' (csvEscape fmt (CStr s)) = [s]"
    using one[of "[CStr s]"] by (simp add: cellText_def cellString_def)
  have d: "specReadRecord CHR '','' (toCsvRow fmt [CStr s]) = [s]"
    using two[of "[CStr s]"] by (simp add: cellText_def cellString_def)
  have e: "specReadRecord CHR '';'' (joinWith '';'' (map (\<lambda>h. csvEscape fmt (rowGet r h)) csvHeaders1))
     = map (\<lambda>h. cellText fmt (rowGet r h)) csvHeaders1"
    using one[of "map (rowGet r) csvHeaders1"] by (simp add: csvHeaders1_def comp_def)
  show ?thesis using a b c d e one two by blast
qed

theorem csv_round_trip_witness:
  "csvEscape (\<lambda>x. x) (CStr (''a;'' @ [CHR 0x22] @ ''b''))
     = [CHR 0x22] @ ''a;'' @ [CHR 0x22, CHR 0x22] @ ''b'' @ [CHR 0x22] \<and>
   toCsvRow (\<lambda>x. x) [CStr (''a;'' @ [CHR 0x22] @ ''b'')]
     = [CHR 0x22] @ ''a;'' @ [CHR 0x22, CHR 0x22] @ ''b'' @ [CHR 0x22] \<and>
   specReadRecord CHR '';'' ([CHR 0x22] @ ''a;'' @ [CHR 0x22, CHR 0x22] @ ''b'' @ [CHR 0x22])
     = [''a;'' @ [CHR 0x22] @ ''b''] \<and>
   specReadRecord CHR '';''
     (''Bluey;'' @ [CHR 0x22] @ ''a;'' @ [CHR 0x22, CHR 0x22] @ ''b'' @ [CHR 0x22] @ '';;7'')
     = [''Bluey'', ''a;'' @ [CHR 0x22] @ ''b'', [], ''7''] \<and>
   specReadRecord CHR '',''
     ([CHR 0x22] @ ''Bluey'' @ [CHR 0x22] @ '','' @
      [CHR 0x22] @ ''a;'' @ [CHR 0x22, CHR 0x22] @ ''b'' @ [CHR 0x22] @ '','' @
      [CHR 0x22, CHR 0x22] @ '','' @ [CHR 0x22] @ ''7'' @ [CHR 0x22])
     = [''Bluey'', ''a;'' @ [CHR 0x22] @ ''b'', [], ''7'']"
proof -
  define s where "s = ''a;'' @ [CHR 0x22] @ ''b''"
  define cells where "cells = [CStr ''Bluey'', CStr s, CUndefined, CNum (Integer 7)]"
  have i: "strIncludes s '';''" by (simp add: s_def)
  have k: "doubleQuotes s = ''a;'' @ [CHR 0x22, CHR 0x22] @ ''b''"
    by (simp add: doubleQuotes_def s_def)
  have e: "joinWith '';'' (map (csvEscape (\<lambda>x. x)) cells)
      = ''Bluey;'' @ [CHR 0x22] @ ''a;'' @ [CHR 0x22, CHR 0x22] @ ''b'' @ [CHR 0x22] @ '';;7''"
    by (simp add: cells_def s_def csvEscape_def cellString_def numberString_def showInt_def
        showNat.simps digitChar_def doubleQuotes_def char_of_eq_iff Let_def)
  have t: "toCsvRow (\<lambda>x. x) cells
      = [CHR 0x22] @ ''Bluey'' @ [CHR 0x22] @ '','' @
      [CHR 0x22] @ ''a;'' @ [CHR 0x22, CHR 0x22] @ ''b'' @ [CHR 0x22] @ '','' @
      [CHR 0x22, CHR 0x22] @ '','' @ [CHR 0x22] @ ''7'' @ [CHR 0x22]"
    by (simp add: cells_def s_def toCsvRow_def cellString_def numberString_def showInt_def
        showNat.simps digitChar_def doubleQuotes_def char_of_eq_iff Let_def)
  have c: "map (cellText (\<lambda>x. x)) cells = [''Bluey'', s, [], ''7'']"
    by (simp add: cells_def cellText_def cellString_def numberString_def showInt_def
        showNat.simps digitChar_def char_of_eq_iff Let_def)
  have n: "cells \<noteq> []" by (simp add: cells_def)
  note r = csv_round_trip[of s "\<lambda>x. x" cells]
  have r1: "csvEscape (\<lambda>x. x) (CStr s) = [CHR 0x22] @ doubleQuotes s @ [CHR 0x22]"
    using r i by blast
  have r2: "toCsvRow (\<lambda>x. x) [CStr s] = [CHR 0x22] @ doubleQuotes s @ [CHR 0x22]"
    using r by blast
  have r3: "specReadRecord CHR '';'' (csvEscape (\<lambda>x. x) (CStr s)) = [s]"
    using r by blast
  have r4: "specReadRecord CHR '';'' (joinWith '';'' (map (csvEscape (\<lambda>x. x)) cells))
        = map (cellText (\<lambda>x. x)) cells"
    using r n by blast
  have r5: "specReadRecord CHR '','' (toCsvRow (\<lambda>x. x) cells) = map (cellText (\<lambda>x. x)) cells"
    using r n by blast
  show ?thesis
    using r1[unfolded k] r2[unfolded k] r3[unfolded r1 k] r4[unfolded e c] r5[unfolded t c]
    unfolding s_def by simp
qed

section \<open>The cookie jar\<close>

lemma indexOf_append:
  "c \<notin> set n \<Longrightarrow> indexOf (n @ c # v) c = Some (length n)"
  by (induction n) auto

lemma indexOf_none: "c \<notin> set s \<Longrightarrow> indexOf s c = None"
  by (induction s) auto

lemma split_first_semicolon:
  "CHR '';'' \<notin> set a \<Longrightarrow> split (a @ '';'' @ rest) '';'' = a # split rest '';''"
  using splitAcc_at_sep[of "'';''" a "[]" rest] by (simp add: split_def strIncludes_singleton)

lemma split_no_semicolon: "CHR '';'' \<notin> set a \<Longrightarrow> split a '';'' = [a]"
  using splitAcc_no_sep[of "'';''" a "[]"] by (simp add: split_def strIncludes_singleton)

text \<open>
  One directive: the text up to the first semicolon is cut at its first equals sign, both
  sides are trimmed, and the pair is set; the attributes after the semicolon play no
  part. A directive without an equals sign before the first semicolon changes nothing.
\<close>

lemma setFromOne_pair:
  assumes "CHR ''='' \<notin> set n" and "CHR '';'' \<notin> set n" and "CHR '';'' \<notin> set v"
  shows "setFromOne c (n @ ''='' @ v @ '';'' @ attrs) = setProp c (trim n) (trim v)"
    and "setFromOne c (n @ ''='' @ v) = setProp c (trim n) (trim v)"
proof -
  have s: "CHR '';'' \<notin> set (n @ ''='' @ v)" using assms by simp
  have "split ((n @ ''='' @ v) @ '';'' @ attrs) '';'' = (n @ ''='' @ v) # split attrs '';''"
    by (rule split_first_semicolon[OF s])
  then show "setFromOne c (n @ ''='' @ v @ '';'' @ attrs) = setProp c (trim n) (trim v)"
    using indexOf_append[OF assms(1), of v] by (simp add: setFromOne_def)
  show "setFromOne c (n @ ''='' @ v) = setProp c (trim n) (trim v)"
    using split_no_semicolon[OF s] indexOf_append[OF assms(1), of v]
    by (simp add: setFromOne_def)
qed

lemma setFromOne_no_pair:
  assumes "CHR ''='' \<notin> set a" and "CHR '';'' \<notin> set a"
  shows "setFromOne c (a @ '';'' @ attrs) = c" and "setFromOne c a = c"
  using split_first_semicolon[OF assms(2), of attrs] split_no_semicolon[OF assms(2)]
    indexOf_none[OF assms(1)]
  by (simp_all add: setFromOne_def)

text \<open>
  Setting a name other than \<^verbatim>\<open>__proto__\<close> makes it hold the new value, whatever it
  held, leaves every other name as it was, and keeps the names distinct.
\<close>

lemma updateProp_lookup:
  "k \<in> set (map fst c) \<Longrightarrow> map_of (updateProp c k v) = (map_of c)(k \<mapsto> v)"
proof (induction c)
  case Nil
  then show ?case by simp
next
  case (Cons p c)
  obtain k' v' where p: "p = (k', v')" by (cases p)
  show ?case
  proof (cases "k' = k")
    case True
    then show ?thesis by (auto simp: p fun_eq_iff)
  next
    case False
    with Cons.prems p have "k \<in> set (map fst c)" by auto
    from Cons.IH[OF this] False show ?thesis by (auto simp: p)
  qed
qed

lemma updateProp_keys: "map fst (updateProp c k v) = map fst c"
  by (induction c) auto

lemma insertIndexProp_lookup: "map_of (insertIndexProp c k v) k = Some v"
  by (induction c) auto

lemma insertIndexProp_other:
  "k' \<noteq> k \<Longrightarrow> map_of (insertIndexProp c k v) k' = map_of c k'"
  by (induction c) auto

lemma insertIndexProp_keys: "set (map fst (insertIndexProp c k v)) = insert k (set (map fst c))"
proof (induction c)
  case Nil
  then show ?case by simp
next
  case (Cons p c)
  obtain k' v' where p: "p = (k', v')" by (cases p)
  show ?case
  proof (cases "isArrayIndex k' \<and> digitsVal k' < digitsVal k")
    case True
    have e: "insertIndexProp (p # c) k v = p # insertIndexProp c k v"
      using True by (simp add: p)
    show ?thesis unfolding e using Cons.IH by auto
  next
    case False
    then have e: "insertIndexProp (p # c) k v = (k, v) # p # c"
      by (auto simp: p)
    show ?thesis unfolding e by auto
  qed
qed

lemma insertIndexProp_distinct:
  "k \<notin> set (map fst c) \<Longrightarrow> distinct (map fst c) \<Longrightarrow> distinct (map fst (insertIndexProp c k v))"
proof (induction c)
  case Nil
  then show ?case by simp
next
  case (Cons p c)
  have "fst p \<notin> set (map fst (insertIndexProp c k v))"
    using Cons.prems unfolding insertIndexProp_keys by auto
  with Cons show ?case by (cases p) auto
qed

lemma setProp_lookup:
  assumes "k \<noteq> ''__proto__''"
  shows "map_of (setProp c k v) k = Some v"
proof (cases "k \<in> set (map fst c)")
  case True
  then show ?thesis using assms by (simp add: setProp_def updateProp_lookup del: set_map)
next
  case False
  then have "map_of c k = None" by (simp add: map_of_eq_None_iff)
  then show ?thesis
    using assms False by (simp add: setProp_def insertIndexProp_lookup map_add_def del: set_map)
qed

lemma setProp_other:
  assumes "k' \<noteq> k"
  shows "map_of (setProp c k v) k' = map_of c k'"
proof (cases "k \<in> set (map fst c)")
  case True
  then show ?thesis using assms by (simp add: setProp_def updateProp_lookup del: set_map)
next
  case False
  then show ?thesis
    using assms
    by (simp add: setProp_def insertIndexProp_other map_add_def del: set_map split: option.splits)
qed

lemma setProp_distinct:
  assumes "distinct (map fst c)"
  shows "distinct (map fst (setProp c k v))"
proof (cases "k \<in> set (map fst c)")
  case True
  then show ?thesis using assms by (simp add: setProp_def updateProp_keys del: set_map)
next
  case False
  then show ?thesis
    using assms insertIndexProp_distinct[of k c v]
    by (simp add: setProp_def del: set_map)
qed

text \<open>The header lists every pair held; it is empty only for the empty jar.\<close>

lemma joinWith_nonempty: "xs \<noteq> [] \<Longrightarrow> hd xs \<noteq> [] \<Longrightarrow> joinWith sep xs \<noteq> []"
  by (induction sep xs rule: joinWith.induct) auto

lemma header_empty: "(header c = []) = (c = [])"
proof (cases c)
  case Nil
  then show ?thesis by (simp add: header_def)
next
  case (Cons p ps)
  obtain k v where p: "p = (k, v)" by (cases p)
  have "joinWith ''; '' (map (\<lambda>(k, v). k @ ''='' @ v) c) \<noteq> []"
    by (rule joinWith_nonempty) (simp_all add: Cons p)
  then show ?thesis using Cons by (simp add: header_def)
qed

lemma applyJar_empty: "applyJar [] hs = hs"
  by (simp add: applyJar_def header_def)

lemma applyJar_held: "c \<noteq> [] \<Longrightarrow> applyJar c hs = headersSet hs ''Cookie'' (header c)"
  by (simp add: applyJar_def header_empty)

lemma header_two: "header [(a, x), (b, y)] = a @ ''='' @ x @ ''; '' @ b @ ''='' @ y"
  by (simp add: header_def)

text \<open>
  Claim C8. The jar is a plain object, and a write to its key \<^verbatim>\<open>__proto__\<close> creates no
  property: a cookie of that name is not recorded, a later request carries no header for
  it, and among other cookies it leaves no trace, where the claim has every directive's
  pair stored. A cookie of any other name is recorded, its attributes dropped, the last
  value winning, and sent as \<^verbatim>\<open>name=value\<close> pairs joined by \<^verbatim>\<open>; \<close>; the
  empty jar adds no header. One header text that holds two directives is read as one.
\<close>

theorem cookie_jar_proto_dropped:
  "setFrom [] (One ''__proto__=x; Path=/'') = [] \<and>
   applyJar (setFrom [] (One ''__proto__=x; Path=/'')) [(''User-Agent'', ''UA'')]
     = [(''User-Agent'', ''UA'')] \<and>
   setFrom [(''sid'', ''1'')] (Many [''__proto__=x; Path=/'', ''sid=2; HttpOnly'', ''lang=fr''])
     = [(''sid'', ''2''), (''lang'', ''fr'')] \<and>
   applyJar [(''sid'', ''2''), (''lang'', ''fr'')] [(''User-Agent'', ''UA'')]
     = [(''User-Agent'', ''UA''), (''Cookie'', ''sid=2; lang=fr'')] \<and>
   applyJar [] [(''User-Agent'', ''UA'')] = [(''User-Agent'', ''UA'')] \<and>
   setFrom [] (One ''a=1; Path=/, b=2; Path=/'') = [(''a'', ''1'')]"
proof -
  have t: "trim ''__proto__'' = ''__proto__''" "trim ''x'' = ''x''" "trim ''sid'' = ''sid''"
    "trim ''2'' = ''2''" "trim ''lang'' = ''lang''" "trim ''fr'' = ''fr''" "trim ''a'' = ''a''"
    "trim ''1'' = ''1''"
    by (simp_all add: trim_def isWhiteSpace_def)
  have p: "setFromOne c (''__proto__'' @ ''='' @ ''x'' @ '';'' @ '' Path=/'') = c" for c
    by (subst setFromOne_pair(1)) (simp_all add: t setProp_def)
  have s: "setFromOne [(''sid'', ''1'')] (''sid'' @ ''='' @ ''2'' @ '';'' @ '' HttpOnly'')
      = [(''sid'', ''2'')]"
    by (subst setFromOne_pair(1)) (simp_all add: t setProp_def)
  have l: "setFromOne [(''sid'', ''2'')] (''lang'' @ ''='' @ ''fr'') = [(''sid'', ''2''), (''lang'', ''fr'')]"
    by (subst setFromOne_pair(2))
      (simp_all add: t setProp_def isArrayIndex_def isDigits_def isDigit_def)
  have j: "setFromOne [] (''a'' @ ''='' @ ''1'' @ '';'' @ '' Path=/, b=2; Path=/'') = [(''a'', ''1'')]"
    by (subst setFromOne_pair(1))
      (simp_all add: t setProp_def isArrayIndex_def isDigits_def isDigit_def)
  have a: "setFrom [] (One ''__proto__=x; Path=/'') = []"
    using p[of "[]"] by (simp add: setFrom_def)
  have b: "setFrom [(''sid'', ''1'')] (Many [''__proto__=x; Path=/'', ''sid=2; HttpOnly'', ''lang=fr''])
     = [(''sid'', ''2''), (''lang'', ''fr'')]"
    using p[of "[(''sid'', ''1'')]"] s l by (simp add: setFrom_def)
  have c: "applyJar [(''sid'', ''2''), (''lang'', ''fr'')] [(''User-Agent'', ''UA'')]
     = [(''User-Agent'', ''UA''), (''Cookie'', ''sid=2; lang=fr'')]"
    by (simp add: applyJar_def header_def toLowerAscii_def)
  have d: "setFrom [] (One ''a=1; Path=/, b=2; Path=/'') = [(''a'', ''1'')]"
    using j by (simp add: setFrom_def)
  show ?thesis
    unfolding a b c d by (simp add: applyJar_empty)
qed

end
